(* ===== verification/Prelude.thy ===== *)
theory Prelude
  imports Main "HOL-Library.Word" "HOL-Library.Multiset"
begin

text \<open>
  Shared vocabulary of the development: machine integer types, the outcome of running C code
  (a value, a failed \<open>assert\<close>, or undefined behaviour), the state-passing computations in
  which the components are written, and the weakest precondition calculus their lemmas use.
\<close>

section \<open>Machine integers\<close>

type_synonym u8 = "8 word"
type_synonym u16 = "16 word"
type_synonym u32 = "32 word"
type_synonym u64 = "64 word"

text \<open>Conversion of a wide C integer to \<open>int32_t\<close>: two's complement truncation.\<close>

definition to_i32 :: "int \<Rightarrow> int" where
  "to_i32 x = signed_take_bit 31 x"

lemma to_i32_id: "- (2 ^ 31) \<le> x \<Longrightarrow> x < 2 ^ 31 \<Longrightarrow> to_i32 x = x"
  by (simp add: to_i32_def signed_take_bit_int_eq_self)

lemma to_i32_neg_iff: "- (2 ^ 31) \<le> x \<Longrightarrow> x < 2 ^ 31 \<Longrightarrow> (to_i32 x < 0) = (x < 0)"
  by (simp add: to_i32_id)

section \<open>Outcomes and computations\<close>

text \<open>
  \<open>Ret x\<close>: the code returns \<open>x\<close>. \<open>Aborted\<close>: an \<open>assert\<close> failed and the process is
  aborted. \<open>Fault\<close>: undefined behaviour (an access outside an array, a use of an object that
  was never initialised or is already freed).
\<close>

datatype 'a outcome = Ret 'a | Aborted | Fault

type_synonym ('s, 'a) prog = "'s \<Rightarrow> 'a outcome \<times> 's"

definition obind :: "'a outcome \<Rightarrow> ('a \<Rightarrow> 'b outcome) \<Rightarrow> 'b outcome" where
  "obind m f = (case m of Ret x \<Rightarrow> f x | Aborted \<Rightarrow> Aborted | Fault \<Rightarrow> Fault)"

definition ret :: "'a \<Rightarrow> ('s, 'a) prog" where
  "ret x = (\<lambda>s. (Ret x, s))"

definition bindM :: "('s, 'a) prog \<Rightarrow> ('a \<Rightarrow> ('s, 'b) prog) \<Rightarrow> ('s, 'b) prog" where
  "bindM m f = (\<lambda>s. case m s of
       (Ret x, s') \<Rightarrow> f x s'
     | (Aborted, s') \<Rightarrow> (Aborted, s')
     | (Fault, s') \<Rightarrow> (Fault, s'))"

definition seqM :: "('s, 'a) prog \<Rightarrow> ('s, 'b) prog \<Rightarrow> ('s, 'b) prog" where
  "seqM m n = bindM m (\<lambda>_. n)"

definition assertM :: "bool \<Rightarrow> ('s, unit) prog" where
  "assertM b = (\<lambda>s. (if b then Ret () else Aborted, s))"

definition faultM :: "('s, 'a) prog" where
  "faultM = (\<lambda>s. (Fault, s))"

text \<open>A call of a function outside the program: it always returns, and may change the world.\<close>

definition ext :: "('s \<Rightarrow> 'a \<times> 's) \<Rightarrow> ('s, 'a) prog" where
  "ext f = (\<lambda>s. case f s of (x, s') \<Rightarrow> (Ret x, s'))"

definition gets :: "('s \<Rightarrow> 'a) \<Rightarrow> ('s, 'a) prog" where
  "gets f = (\<lambda>s. (Ret (f s), s))"

definition liftO :: "'a outcome \<Rightarrow> ('s, 'a) prog" where
  "liftO x = (\<lambda>s. (x, s))"

named_theorems run_simps \<open>equations that run a computation on a concrete state\<close>

lemma obind_simps [simp]:
  "obind (Ret x) f = f x" "obind Aborted f = Aborted" "obind Fault f = Fault"
  by (simp_all add: obind_def)

lemma obind_Ret_iff: "obind m f = Ret y \<longleftrightarrow> (\<exists>x. m = Ret x \<and> f x = Ret y)"
  by (cases m) simp_all

lemma run_prims [run_simps]:
  "ret x s = (Ret x, s)"
  "assertM b s = (if b then Ret () else Aborted, s)"
  "faultM s = (Fault, s)"
  "ext g s = (case g s of (x, s') \<Rightarrow> (Ret x, s'))"
  "gets h s = (Ret (h s), s)"
  "liftO v s = (v, s)"
  by (simp_all add: ret_def assertM_def faultM_def ext_def gets_def liftO_def)

lemma run_bind [run_simps]:
  "bindM m f s = (case m s of (Ret x, s') \<Rightarrow> f x s' | (Aborted, s') \<Rightarrow> (Aborted, s')
     | (Fault, s') \<Rightarrow> (Fault, s'))"
  "seqM m n s = (case m s of (Ret x, s') \<Rightarrow> n s' | (Aborted, s') \<Rightarrow> (Aborted, s')
     | (Fault, s') \<Rightarrow> (Fault, s'))"
  by (simp_all add: bindM_def seqM_def)

section \<open>Weakest preconditions\<close>

text \<open>
  \<open>wp m Q s\<close>: run from \<open>s\<close>, \<open>m\<close> returns (neither aborts nor faults) and its value and final
  state satisfy \<open>Q\<close>. \<open>wlp m Q s\<close>: whenever it returns, \<open>Q\<close> holds. \<open>keeps I m\<close>: \<open>m\<close> keeps the state
  predicate \<open>I\<close>, whatever the outcome. All three are computed by the simplifier.
\<close>

definition wp :: "('s, 'a) prog \<Rightarrow> ('a \<Rightarrow> 's \<Rightarrow> bool) \<Rightarrow> 's \<Rightarrow> bool" where
  "wp m Q s = (case m s of (Ret x, s') \<Rightarrow> Q x s' | (Aborted, _) \<Rightarrow> False | (Fault, _) \<Rightarrow> False)"

definition wlp :: "('s, 'a) prog \<Rightarrow> ('a \<Rightarrow> 's \<Rightarrow> bool) \<Rightarrow> 's \<Rightarrow> bool" where
  "wlp m Q s = (case m s of (Ret x, s') \<Rightarrow> Q x s' | (Aborted, _) \<Rightarrow> True | (Fault, _) \<Rightarrow> True)"

definition keeps :: "('s \<Rightarrow> bool) \<Rightarrow> ('s, 'a) prog \<Rightarrow> bool" where
  "keeps I m = (\<forall>s. I s \<longrightarrow> I (snd (m s)))"

named_theorems wp_simps \<open>weakest preconditions of the computation primitives\<close>

lemma wp_prims [wp_simps]:
  "wp (ret x) Q = Q x"
  "wp (assertM b) R = (\<lambda>s. b \<and> R () s)"
  "wp faultM Q = (\<lambda>s. False)"
  "wp (ext g) Q = (\<lambda>s. Q (fst (g s)) (snd (g s)))"
  "wp (gets h) Q' = (\<lambda>s. Q' (h s) s)"
  "wp (liftO (Ret x)) Q = Q x"
  by (auto simp: wp_def run_simps fun_eq_iff split: outcome.splits prod.splits)

lemma wp_liftO:
  "wp (liftO v) Q s \<longleftrightarrow> (\<exists>x. v = Ret x \<and> Q x s)"
  "wlp (liftO v) Q s \<longleftrightarrow> (\<forall>x. v = Ret x \<longrightarrow> Q x s)"
  by (cases v; simp add: wp_def wlp_def run_simps)+

lemma wp_bind [wp_simps]:
  "wp (bindM m f) Q = wp m (\<lambda>x. wp (f x) Q)"
  "wp (seqM m n) Q = wp m (\<lambda>_. wp n Q)"
  by (auto simp: wp_def run_simps fun_eq_iff split: outcome.splits prod.splits)

lemma wlp_prims [wp_simps]:
  "wlp (ret x) Q = Q x"
  "wlp (assertM b) R = (\<lambda>s. b \<longrightarrow> R () s)"
  "wlp faultM Q = (\<lambda>s. True)"
  "wlp (ext g) Q = (\<lambda>s. Q (fst (g s)) (snd (g s)))"
  "wlp (gets h) Q' = (\<lambda>s. Q' (h s) s)"
  "wlp (liftO (Ret x)) Q = Q x"
  by (auto simp: wlp_def run_simps fun_eq_iff split: outcome.splits prod.splits)

lemma wlp_bind [wp_simps]:
  "wlp (bindM m f) Q = wlp m (\<lambda>x. wlp (f x) Q)"
  "wlp (seqM m n) Q = wlp m (\<lambda>_. wlp n Q)"
  by (auto simp: wlp_def run_simps fun_eq_iff split: outcome.splits prod.splits)

lemma wp_if [wp_simps]:
  "wp (if b then m else n) Q = (\<lambda>s. if b then wp m Q s else wp n Q s)"
  "wlp (if b then m else n) Q = (\<lambda>s. if b then wlp m Q s else wlp n Q s)"
  by (simp_all add: fun_eq_iff)

lemma wp_case [wp_simps]:
  "wp (case p of (x, y) \<Rightarrow> f x y) Q = wp (f (fst p) (snd p)) Q"
  "wlp (case p of (x, y) \<Rightarrow> f x y) Q = wlp (f (fst p) (snd p)) Q"
  "wp (case q of None \<Rightarrow> m | Some z \<Rightarrow> n z) Q
     = (\<lambda>s. case q of None \<Rightarrow> wp m Q s | Some z \<Rightarrow> wp (n z) Q s)"
  "wlp (case q of None \<Rightarrow> m | Some z \<Rightarrow> n z) Q
     = (\<lambda>s. case q of None \<Rightarrow> wlp m Q s | Some z \<Rightarrow> wlp (n z) Q s)"
  by (auto simp: fun_eq_iff split: prod.splits option.splits)

lemma wp_mono: "wp m Q s \<Longrightarrow> (\<And>x s'. Q x s' \<Longrightarrow> R x s') \<Longrightarrow> wp m R s"
  by (auto simp: wp_def split: outcome.splits prod.splits)

lemma wlp_mono: "wlp m Q s \<Longrightarrow> (\<And>x s'. Q x s' \<Longrightarrow> R x s') \<Longrightarrow> wlp m R s"
  by (auto simp: wlp_def split: outcome.splits prod.splits)

lemma wp_conj: "wp m Q s \<Longrightarrow> wlp m R s \<Longrightarrow> wp m (\<lambda>x s'. Q x s' \<and> R x s') s"
  by (auto simp: wp_def wlp_def split: outcome.splits prod.splits)

lemma wp_iff: "wp m Q s \<longleftrightarrow> (\<exists>x s'. m s = (Ret x, s') \<and> Q x s')"
  by (cases "m s"; cases "fst (m s)") (auto simp: wp_def)

lemma wlpD: "wlp m Q s \<Longrightarrow> m s = (Ret x, s') \<Longrightarrow> Q x s'"
  by (simp add: wlp_def)

named_theorems keeps_intros \<open>invariance of a state predicate under computations\<close>

lemma keeps_prims [keeps_intros]:
  "keeps I (ret x)" "keeps I (assertM b)" "keeps I faultM" "keeps I (gets h)" "keeps I (liftO v)"
  by (simp_all add: keeps_def run_simps)

lemma keeps_bind [keeps_intros]:
  "keeps I m \<Longrightarrow> (\<And>x. keeps I (f x)) \<Longrightarrow> keeps I (bindM m f)"
  "keeps I m \<Longrightarrow> keeps I n \<Longrightarrow> keeps I (seqM m n)"
  unfolding keeps_def run_simps
  by (auto split: outcome.splits prod.splits)

lemma keeps_if [keeps_intros]:
  "keeps I m \<Longrightarrow> keeps I n \<Longrightarrow> keeps I (if b then m else n)"
  by simp

lemma keeps_case [keeps_intros]:
  "(\<And>x y. keeps I (f x y)) \<Longrightarrow> keeps I (case p of (x, y) \<Rightarrow> f x y)"
  "keeps I m \<Longrightarrow> (\<And>z. keeps I (n z)) \<Longrightarrow> keeps I (case q of None \<Rightarrow> m | Some z \<Rightarrow> n z)"
  by (simp_all split: prod.splits option.splits)

lemma keeps_ext [keeps_intros]: "(\<And>s. I s \<Longrightarrow> I (snd (f s))) \<Longrightarrow> keeps I (ext f)"
  by (fastforce simp: keeps_def run_simps split: prod.splits)

lemma keepsD: "keeps I m \<Longrightarrow> I s \<Longrightarrow> m s = (r, s') \<Longrightarrow> I s'"
  unfolding keeps_def by (metis snd_conv)

lemma wlp_keeps: "keeps I m \<Longrightarrow> I s \<Longrightarrow> wlp m (\<lambda>_. I) s"
  by (auto simp: wlp_def keeps_def split: outcome.splits prod.splits)

lemma wlp_True: "(\<And>x s'. Q x s') \<Longrightarrow> wlp m Q s"
  by (auto simp: wlp_def split: outcome.splits prod.splits)

lemma wp_wlp: "wp m Q s \<Longrightarrow> wlp m Q s"
  by (auto simp: wp_def wlp_def split: outcome.splits prod.splits)

lemma wlp_conj: "wlp m Q s \<Longrightarrow> wlp m R s \<Longrightarrow> wlp m (\<lambda>x s'. Q x s' \<and> R x s') s"
  by (auto simp: wlp_def split: outcome.splits prod.splits)

section \<open>Threads\<close>

text \<open>
  A thread is a step function on its phases; \<open>thread_reach\<close> are the phases and states it reaches
  from its start. What every step preserves, whenever it returns, holds in all of them.
\<close>

inductive thread_reach :: "('p \<Rightarrow> ('w, 'p) prog) \<Rightarrow> 'p \<Rightarrow> 'w \<Rightarrow> 'p \<Rightarrow> 'w \<Rightarrow> bool"
  for step p0 w0 where
  thread_start: "thread_reach step p0 w0 p0 w0"
| thread_step: "thread_reach step p0 w0 p w \<Longrightarrow> step p w = (Ret p', w') \<Longrightarrow> thread_reach step p0 w0 p' w'"

inductive_cases thread_reachE: "thread_reach step p0 w0 p w"

lemma thread_reach_inv:
  assumes "thread_reach step p0 w0 p w" "I p0 w0"
    and "\<And>p w. I p w \<Longrightarrow> wlp (step p) I w"
  shows "I p w"
  using assms(1)
proof induction
  case (thread_step p w p' w')
  show ?case
    using wlpD [OF assms(3) [OF thread_step.IH] thread_step.hyps(2)] .
qed (rule assms(2))

lemma thread_reach_step:
  assumes "thread_reach step p0 w0 p w" "wp (step p) (\<lambda>p' w'. p' = q \<and> w' = v) w"
  shows "thread_reach step p0 w0 q v"
  using assms by (auto simp: wp_iff intro: thread_step)

text \<open>A number of steps in a row.\<close>

primrec run_steps :: "nat \<Rightarrow> ('p \<Rightarrow> ('w, 'p) prog) \<Rightarrow> 'p \<Rightarrow> ('w, 'p) prog" where
  "run_steps 0 step p = ret p"
| "run_steps (Suc n) step p = bindM (step p) (run_steps n step)"

section \<open>Byte buffers\<close>

text \<open>
  A callee that is handed a buffer stores its data from the start of it; the rest of the buffer
  keeps its old content. Storing more than the buffer holds is a fault. Reading the first \<open>n\<close>
  bytes of a buffer that holds fewer is a fault as well.
\<close>

definition store_buf :: "u8 list \<Rightarrow> u8 list \<Rightarrow> u8 list outcome" where
  "store_buf buf d = (if length d \<le> length buf then Ret (d @ drop (length d) buf) else Fault)"

definition load_buf :: "u8 list \<Rightarrow> nat \<Rightarrow> u8 list outcome" where
  "load_buf buf n = (if n \<le> length buf then Ret (take n buf) else Fault)"

lemma store_buf_length: "store_buf buf d = Ret buf' \<Longrightarrow> length buf' = length buf"
  by (auto simp: store_buf_def split: if_splits)

lemma load_store_buf:
  "store_buf buf d = Ret buf' \<Longrightarrow> n \<le> length d \<Longrightarrow> load_buf buf' n = Ret (take n d)"
  by (auto simp: store_buf_def load_buf_def split: if_splits)

lemma wp_store_buf [wp_simps]:
  "wp (liftO (store_buf buf d)) Q =
     (\<lambda>s. length d \<le> length buf \<and> Q (d @ drop (length d) buf) s)"
  "wlp (liftO (store_buf buf d)) Q =
     (\<lambda>s. length d \<le> length buf \<longrightarrow> Q (d @ drop (length d) buf) s)"
  by (simp_all add: wp_liftO store_buf_def fun_eq_iff)

lemma wp_load_buf [wp_simps]:
  "wp (liftO (load_buf buf n)) Q = (\<lambda>s. n \<le> length buf \<and> Q (take n buf) s)"
  "wlp (liftO (load_buf buf n)) Q = (\<lambda>s. n \<le> length buf \<longrightarrow> Q (take n buf) s)"
  by (simp_all add: wp_liftO load_buf_def fun_eq_iff)

text \<open>Sixteen-bit registers lie in memory as two bytes, low byte first (the host is little endian).\<close>

definition u16_bytes :: "u16 \<Rightarrow> u8 list" where
  "u16_bytes v = [ucast v, ucast (drop_bit 8 v)]"

definition regs_bytes :: "u16 list \<Rightarrow> u8 list" where
  "regs_bytes vs = concat (map u16_bytes vs)"

definition u16_of_bytes :: "u8 \<Rightarrow> u8 \<Rightarrow> u16" where
  "u16_of_bytes lo hi = ucast lo + push_bit 8 (ucast hi)"

fun bytes_regs :: "u8 list \<Rightarrow> u16 list" where
  "bytes_regs (lo # hi # bs) = u16_of_bytes lo hi # bytes_regs bs"
| "bytes_regs _ = []"

lemma length_regs_bytes [simp]: "length (regs_bytes vs) = 2 * length vs"
  by (induction vs) (simp_all add: regs_bytes_def u16_bytes_def)

lemma regs_bytes_simps [simp]:
  "regs_bytes [] = []" "regs_bytes (v # vs) = u16_bytes v @ regs_bytes vs"
  by (simp_all add: regs_bytes_def)

lemma low_high_byte: "x mod 256 + x div 256 mod 256 * 256 = (x::int) mod 65536"
  using mod_mult2_eq' [of x 256 256] by simp

lemma u16_of_bytes_inverse: "u16_of_bytes (ucast v) (ucast (drop_bit 8 v)) = v"
proof (rule word_uint_eqI)
  have "uint v mod 65536 = uint v"
    using uint_lt2p [of v] by simp
  then show "uint (u16_of_bytes (ucast v) (ucast (drop_bit 8 v))) = uint v"
    by (simp add: u16_of_bytes_def uint_word_ariths unsigned_ucast_eq unsigned_push_bit_eq
        unsigned_drop_bit_eq take_bit_eq_mod push_bit_eq_mult drop_bit_eq_div uint_mod uint_div
        mod_mult_right_eq low_high_byte)
qed

lemma bytes_regs_inverse: "bytes_regs (regs_bytes vs) = vs"
  by (induction vs) (simp_all add: u16_bytes_def u16_of_bytes_inverse)

lemma length_bytes_regs: "length (bytes_regs bs) = length bs div 2"
  by (induction bs rule: bytes_regs.induct) simp_all

section \<open>Multisets\<close>

lemma image_mset_sum: "image_mset f (sum g A) = (\<Sum>x\<in>A. image_mset f (g x))"
  by (induction A rule: infinite_finite_induct) simp_all

end
