(* ===== verification/Modbus_Config.thy ===== *)
theory Modbus_Config
  imports Prelude
begin

text \<open>
  The data model of \<^verbatim>\<open>src/src/modbusconfig.h\<close>: limits, enumerations and the configuration
  structures that the parser fills in and the master and slave threads read. Unsigned and signed
  C integers keep their width; character arrays that hold C strings are \<open>string\<close>s; the
  singly linked lists of \<^verbatim>\<open>sys/queue.h\<close> are lists, head first.
\<close>

section \<open>Constants\<close>

definition MODBUS_RTU_MIN_DATABITS :: u32 where "MODBUS_RTU_MIN_DATABITS = 5"
definition MODBUS_RTU_MAX_DATABITS :: u32 where "MODBUS_RTU_MAX_DATABITS = 8"
definition MODBUS_RTU_MIN_STOPBITS :: u32 where "MODBUS_RTU_MIN_STOPBITS = 1"
definition MODBUS_RTU_MAX_STOPBITS :: u32 where "MODBUS_RTU_MAX_STOPBITS = 2"

definition MAX_REGISTER_SIZE_PER_ACTION :: nat where
  "MAX_REGISTER_SIZE_PER_ACTION = 256"

section \<open>Modbus function codes\<close>

text \<open>
  A C enumeration also holds values that no enumerator names: the parser casts any number it has
  range-checked. \<open>eUNLISTED\<close> keeps such a value.
\<close>

datatype EModbusFunction =
    eREAD_COILS
  | eREAD_DISCRETE_INPUTS
  | eREAD_HOLDING_REGISTERS
  | eREAD_INPUT_REGISTERS
  | eWRITE_SINGLE_COIL
  | eWRITE_SINGLE_REGISTER
  | eREAD_EXCEPTION_STATUS
  | eWRITE_MULTIPLE_COILS
  | eWRITE_MULTIPLE_REGISTERS
  | eREPORT_SLAVE_ID
  | eWRITE_MASK_REGISTER
  | eWRITE_AND_READ_REGISTERS
  | eUNLISTED u32

fun function_code :: "EModbusFunction \<Rightarrow> u32" where
  "function_code eREAD_COILS = 0x01"
| "function_code eREAD_DISCRETE_INPUTS = 0x02"
| "function_code eREAD_HOLDING_REGISTERS = 0x03"
| "function_code eREAD_INPUT_REGISTERS = 0x04"
| "function_code eWRITE_SINGLE_COIL = 0x05"
| "function_code eWRITE_SINGLE_REGISTER = 0x06"
| "function_code eREAD_EXCEPTION_STATUS = 0x07"
| "function_code eWRITE_MULTIPLE_COILS = 0x0F"
| "function_code eWRITE_MULTIPLE_REGISTERS = 0x10"
| "function_code eREPORT_SLAVE_ID = 0x11"
| "function_code eWRITE_MASK_REGISTER = 0x16"
| "function_code eWRITE_AND_READ_REGISTERS = 0x17"
| "function_code (eUNLISTED c) = c"

definition listed_functions :: "EModbusFunction list" where
  "listed_functions =
     [eREAD_COILS, eREAD_DISCRETE_INPUTS, eREAD_HOLDING_REGISTERS, eREAD_INPUT_REGISTERS,
      eWRITE_SINGLE_COIL, eWRITE_SINGLE_REGISTER, eREAD_EXCEPTION_STATUS, eWRITE_MULTIPLE_COILS,
      eWRITE_MULTIPLE_REGISTERS, eREPORT_SLAVE_ID, eWRITE_MASK_REGISTER,
      eWRITE_AND_READ_REGISTERS]"

text \<open>The cast \<^verbatim>\<open>(EModbusFunction)code\<close>.\<close>

definition EModbusFunction_of :: "u32 \<Rightarrow> EModbusFunction" where
  "EModbusFunction_of c =
     (case find (\<lambda>f. function_code f = c) listed_functions of Some f \<Rightarrow> f | None \<Rightarrow> eUNLISTED c)"

lemma function_code_of: "function_code (EModbusFunction_of c) = c"
  by (auto simp: EModbusFunction_of_def find_Some_iff split: option.splits)

lemma EModbusFunction_of_listed: "f \<in> set listed_functions \<Longrightarrow> EModbusFunction_of (function_code f) = f"
  by (auto simp: EModbusFunction_of_def listed_functions_def)

section \<open>Error codes of the process image\<close>

datatype EModbusErrors =
  eNoError | eNoDevice | eNoResponseFromDevice | eModbusActionBacklog | eInternalError

fun error_byte :: "EModbusErrors \<Rightarrow> u8" where
  "error_byte eNoError = 0x00"
| "error_byte eNoDevice = 0x10"
| "error_byte eNoResponseFromDevice = 0x11"
| "error_byte eModbusActionBacklog = 0x12"
| "error_byte eInternalError = 0xf0"

section \<open>Device configuration\<close>

datatype EModbusProtocol = eProtRTU | eProtTCP

record TTcpConfig =
  szTcpIpAddress :: string
  i32uPort :: int
  maxModbusConnections :: int

record TRtuConfig =
  i32uBaud :: u32
  cParity :: char
  i8uDatabits :: u8
  i8uStopbits :: u8
  u8DeviceModbusAddress :: u8
  sz8DeviceFilePath :: string

text \<open>The union \<^verbatim>\<open>uProt\<close>, with the member that was stored last.\<close>

datatype UProt = tTcpConfig TTcpConfig | tRtuConfig TRtuConfig

text \<open>
  The two status offsets are \<^verbatim>\<open>int32_t\<close> in the structure but only ever store and yield
  \<^verbatim>\<open>uint32_t\<close> values, a conversion that keeps all 32 bits: they are kept as \<open>u32\<close>.
\<close>

record TModbusDeviceConfiguration =
  eProtocol :: EModbusProtocol
  uProt :: UProt
  i32uDeviceStatusByteProcessImageOffset :: u32
  i32uDeviceStatusResetByteProcessImageByteOffset :: u32

record TModbusAction =
  i16uActionID :: u16
  i8uSlaveAddress :: u8
  eFunctionCode :: EModbusFunction
  i32uStartRegister :: u32
  i16uRegisterCount :: u16
  i32uInterval_us :: u32
  i32uStartByteProcessData :: u32
  i8uStartBitProcessData :: u8
  i32uStatusByteProcessImageOffset :: u32
  i32uResetStatusProcessImageByteOffset :: u32
  i8uResetStatusProcessImageBitOffset :: u8

record TModbusSlaveDataSizeConfig =
  u16DiscreteInputs :: u16
  u16Coils :: u16
  u16InputRegisters :: u16
  u16HoldingRegisters :: u16

record TProcessImageConfiguration =
  u32DiscreteInputsOffset :: u32
  u32DiscreteInputsLength :: u32
  u32CoilsInputOffset :: u32
  u32CoilsLength :: u32
  u32InputRegistersOffset :: u32
  u32InputRegistersLength :: u32
  u32HoldingRegistersInputOffset :: u32
  u32HoldingRegistersLength :: u32

record TModbusMasterConfiguration =
  masterDeviceConfig :: TModbusDeviceConfiguration
  i32ActionCount :: int
  mbActionListHead :: "TModbusAction list"

record TModbusSlaveConfiguration =
  slaveDeviceConfig :: TModbusDeviceConfiguration
  tModbusDataConfig :: TModbusSlaveDataSizeConfig
  tProcessImageConfig :: TProcessImageConfiguration

end
