(* ===== verification/Timespec.thy ===== *)
theory Timespec
  imports Prelude
begin

text \<open>
  Time values: \<^verbatim>\<open>struct timespec\<close> and the two arithmetic routines at the end of
  \<^verbatim>\<open>src/src/Scheduler.c\<close>. Seconds and nanoseconds are integers (the largest intermediate
  nanosecond value stays below \<open>2^31\<close>, see \<open>timespec_add_intermediate\<close>, so no \<^verbatim>\<open>long\<close>
  overflows); the \<^verbatim>\<open>int32_t\<close> result of \<^verbatim>\<open>timespec_diff\<close> is truncated as in C. The
  locale \<open>time_base\<close> states what the scheduler needs from time values.
\<close>

record timespec =
  tv_sec :: int
  tv_nsec :: int

definition s32_microseconds_per_second :: int where
  "s32_microseconds_per_second = 1000000"

definition s32_nanoseconds_per_second :: int where
  "s32_nanoseconds_per_second = 1000000000"

definition timespec_add :: "timespec \<Rightarrow> timespec \<Rightarrow> timespec outcome" where
  "timespec_add summand1 summand2 =
     (if \<not> tv_nsec summand1 < s32_nanoseconds_per_second then Aborted
      else if \<not> tv_nsec summand2 < s32_nanoseconds_per_second then Aborted
      else
        let sum = \<lparr>tv_sec = tv_sec summand1 + tv_sec summand2,
                   tv_nsec = tv_nsec summand1 + tv_nsec summand2\<rparr>
        in if tv_nsec sum \<ge> s32_nanoseconds_per_second
           then Ret (sum\<lparr>tv_sec := tv_sec sum + 1,
                         tv_nsec := tv_nsec sum - s32_nanoseconds_per_second\<rparr>)
           else Ret sum)"

text \<open>The difference and the truncated return value.\<close>

definition timespec_diff :: "timespec \<Rightarrow> timespec \<Rightarrow> (int \<times> timespec) outcome" where
  "timespec_diff minuend subtrahend =
     (if \<not> tv_nsec minuend < s32_nanoseconds_per_second then Aborted
      else if \<not> tv_nsec subtrahend < s32_nanoseconds_per_second then Aborted
      else
        let diff =
          (if tv_nsec subtrahend > tv_nsec minuend
           then \<lparr>tv_sec = tv_sec minuend - tv_sec subtrahend - 1,
                 tv_nsec = s32_nanoseconds_per_second - tv_nsec subtrahend + tv_nsec minuend\<rparr>
           else \<lparr>tv_sec = tv_sec minuend - tv_sec subtrahend,
                 tv_nsec = tv_nsec minuend - tv_nsec subtrahend\<rparr>)
        in Ret (to_i32 (tv_sec diff), diff))"

text \<open>
  The order in which \<^verbatim>\<open>insertEventByDueDate\<close> compares trigger times: by the two branches of
  its \<^verbatim>\<open>if\<close>.
\<close>

definition due_before :: "timespec \<Rightarrow> timespec \<Rightarrow> bool" where
  "due_before new old =
     (if tv_sec new < tv_sec old then True
      else if tv_sec new = tv_sec old \<and> tv_nsec new < tv_nsec old then True
      else False)"

section \<open>Normalised values and their value in nanoseconds\<close>

definition wf_timespec :: "timespec \<Rightarrow> bool" where
  "wf_timespec t \<longleftrightarrow> 0 \<le> tv_nsec t \<and> tv_nsec t < 1000000000"

definition ns_of :: "timespec \<Rightarrow> int" where
  "ns_of t = tv_sec t * 1000000000 + tv_nsec t"

named_theorems time_defs \<open>definitions of the time component\<close>
declare wf_timespec_def [time_defs] ns_of_def [time_defs] due_before_def [time_defs]
  s32_nanoseconds_per_second_def [time_defs] s32_microseconds_per_second_def [time_defs]

lemma ns_of_parts:
  assumes "wf_timespec a"
  shows "tv_sec a = ns_of a div 1000000000" "tv_nsec a = ns_of a mod 1000000000"
  using assms by (simp_all add: wf_timespec_def ns_of_def)

lemma ns_of_inj: "wf_timespec a \<Longrightarrow> wf_timespec b \<Longrightarrow> ns_of a = ns_of b \<Longrightarrow> a = b"
  by (metis ns_of_parts timespec.equality old.unit.exhaust)

lemma ns_of_nonneg: "wf_timespec a \<Longrightarrow> 0 \<le> tv_sec a \<Longrightarrow> 0 \<le> ns_of a"
  by (simp add: time_defs)

lemma timespec_add_Ret:
  "wf_timespec a \<Longrightarrow> wf_timespec b \<Longrightarrow>
     \<exists>c. timespec_add a b = Ret c \<and> wf_timespec c \<and> ns_of c = ns_of a + ns_of b"
  by (auto simp: timespec_add_def Let_def time_defs)

lemma timespec_add_intermediate:
  "wf_timespec a \<Longrightarrow> wf_timespec b \<Longrightarrow> tv_nsec a + tv_nsec b < 2 ^ 31"
  by (simp add: time_defs)

lemma timespec_diff_Ret:
  "wf_timespec a \<Longrightarrow> wf_timespec b \<Longrightarrow>
     \<exists>d. timespec_diff a b = Ret (to_i32 (tv_sec d), d) \<and> wf_timespec d \<and> ns_of d = ns_of a - ns_of b"
  by (auto simp: timespec_diff_def Let_def time_defs algebra_simps)

lemma ns_of_neg_iff: "wf_timespec d \<Longrightarrow> ns_of d < 0 \<longleftrightarrow> tv_sec d < 0"
  by (auto simp: time_defs)

lemma due_before_iff: "wf_timespec a \<Longrightarrow> wf_timespec b \<Longrightarrow> due_before a b \<longleftrightarrow> ns_of a < ns_of b"
  by (auto simp: time_defs)

section \<open>The interface to the scheduler\<close>

locale time_base =
  fixes ok :: "'t \<Rightarrow> bool"
    and val :: "'t \<Rightarrow> int"
    and plus_time :: "'t \<Rightarrow> 't \<Rightarrow> 't outcome"
    and before :: "'t \<Rightarrow> 't \<Rightarrow> bool"
  assumes plus_ok: "ok a \<Longrightarrow> ok b \<Longrightarrow> \<exists>c. plus_time a b = Ret c \<and> ok c \<and> val c = val a + val b"
    and before_val: "ok a \<Longrightarrow> ok b \<Longrightarrow> before a b \<longleftrightarrow> val a < val b"
    and val_inj: "ok a \<Longrightarrow> ok b \<Longrightarrow> val a = val b \<Longrightarrow> a = b"
begin

lemma plus_RetD: "ok a \<Longrightarrow> ok b \<Longrightarrow> plus_time a b = Ret c \<Longrightarrow> ok c \<and> val c = val a + val b"
  using plus_ok by force

lemma plus_commute: "ok a \<Longrightarrow> ok b \<Longrightarrow> plus_time a b = plus_time b a"
  by (metis add.commute plus_ok val_inj)

lemma plus_assoc:
  assumes "ok a" "ok b" "ok c"
  shows "obind (plus_time a b) (\<lambda>ab. plus_time ab c) = obind (plus_time b c) (plus_time a)"
proof -
  obtain ab where ab: "plus_time a b = Ret ab" "ok ab" "val ab = val a + val b"
    using plus_ok assms by blast
  obtain bc where bc: "plus_time b c = Ret bc" "ok bc" "val bc = val b + val c"
    using plus_ok assms by blast
  obtain l where l: "plus_time ab c = Ret l" "ok l" "val l = val ab + val c"
    using plus_ok ab assms by blast
  obtain r where r: "plus_time a bc = Ret r" "ok r" "val r = val a + val bc"
    using plus_ok bc assms by blast
  have "l = r"
    using l r ab bc by (intro val_inj) simp_all
  then show ?thesis
    by (simp add: ab bc l r)
qed

lemma before_irrefl: "ok a \<Longrightarrow> \<not> before a a"
  by (simp add: before_val)

lemma before_trans: "ok a \<Longrightarrow> ok b \<Longrightarrow> ok c \<Longrightarrow> before a b \<Longrightarrow> before b c \<Longrightarrow> before a c"
  by (simp add: before_val)

lemma before_linear: "ok a \<Longrightarrow> ok b \<Longrightarrow> before a b \<or> a = b \<or> before b a"
  using val_inj by (auto simp: before_val)

lemma plus_later: "ok a \<Longrightarrow> ok b \<Longrightarrow> 0 < val b \<Longrightarrow> plus_time a b = Ret c \<Longrightarrow> before a c"
  by (frule (2) plus_RetD) (simp add: before_val)

end

interpretation ts: time_base wf_timespec ns_of timespec_add due_before
proof (rule time_base.intro)
  fix a b :: timespec
  assume ab: "wf_timespec a" "wf_timespec b"
  then show "\<exists>c. timespec_add a b = Ret c \<and> wf_timespec c \<and> ns_of c = ns_of a + ns_of b"
    by (rule timespec_add_Ret)
  from ab show "due_before a b = (ns_of a < ns_of b)"
    by (rule due_before_iff)
  assume "ns_of a = ns_of b"
  with ab show "a = b"
    by (rule ns_of_inj)
qed

end
