(* ===== verification/Periodic_Queue.thy ===== *)
theory Periodic_Queue
  imports Prelude
begin

text \<open>
  The contract of a queue of periodic events, and what follows from it for any sequence of
  executions. An execution takes the head of the queue (\<open>e\<close>) and puts its next occurrence
  (\<open>renew e\<close>) back (\<open>requeue\<close>). The scheduler provides this interface; both master threads rely
  on its consequences.
\<close>

fun fire :: "('e \<Rightarrow> 'e) \<Rightarrow> ('e \<Rightarrow> 'e list \<Rightarrow> 'e list) \<Rightarrow> nat \<Rightarrow> 'e list \<Rightarrow> 'e list \<times> 'e list" where
  "fire renew requeue 0 q = ([], q)"
| "fire renew requeue (Suc n) [] = ([], [])"
| "fire renew requeue (Suc n) (e # es) =
     (case fire renew requeue n (requeue (renew e) es) of (fs, q) \<Rightarrow> (e # fs, q))"

lemma fire_Cons:
  "fst (fire renew requeue (Suc n) (e # es)) = e # fst (fire renew requeue n (requeue (renew e) es))"
  "snd (fire renew requeue (Suc n) (e # es)) = snd (fire renew requeue n (requeue (renew e) es))"
  by (simp_all add: case_prod_unfold)

lemma fire_Suc_last:
  "fire renew requeue (Suc n) q =
     (case fire renew requeue n q of (fs, q') \<Rightarrow>
        (case q' of [] \<Rightarrow> (fs, []) | e # es \<Rightarrow> (fs @ [e], requeue (renew e) es)))"
proof (induction n arbitrary: q)
  case 0
  then show ?case by (cases q) simp_all
next
  case (Suc n)
  show ?case
  proof (cases q)
    case Nil
    then show ?thesis by simp
  next
    case (Cons e es)
    then show ?thesis
      by (simp add: Suc.IH [of "requeue (renew e) es"] split: prod.splits list.splits)
  qed
qed

text \<open>
  How many occurrences of \<open>x\<close> are due no later than \<open>d\<close>: the work that can precede an event
  due at \<open>d\<close>.
\<close>

definition occurrences_until :: "int \<Rightarrow> int \<Rightarrow> int \<Rightarrow> nat" where
  "occurrences_until d due_x period_x = nat ((d - due_x) div period_x + 1)"

lemma occurrences_until_step:
  assumes "0 < p" "x \<le> d"
  shows "occurrences_until d x p = Suc (occurrences_until d (x + p) p)"
proof -
  have "(d - (x + p)) div p = (d - x) div p - 1"
    using assms div_mult_self1 [of p "d - x" "-1"] by (simp add: algebra_simps)
  moreover have "0 \<le> (d - x) div p"
    using assms by (simp add: pos_imp_zdiv_nonneg_iff)
  ultimately show ?thesis
    by (simp add: occurrences_until_def nat_add_distrib)
qed

lemma sum_nth_singletons: "(\<Sum>i<length q. {#q ! i#}) = mset q"
  by (induction q rule: rev_induct) (simp_all add: nth_append)

text \<open>The queue invariant: every event is well formed, and they are ordered by due date.\<close>

definition queue_ok :: "('e \<Rightarrow> bool) \<Rightarrow> ('e \<Rightarrow> int) \<Rightarrow> 'e list \<Rightarrow> bool" where
  "queue_ok ok due q \<longleftrightarrow> (\<forall>x \<in> set q. ok x) \<and> sorted (map due q)"

lemma queue_ok_Nil [simp]: "queue_ok ok due []"
  by (simp add: queue_ok_def)

lemma queue_ok_Cons:
  "queue_ok ok due (e # es) \<longleftrightarrow> ok e \<and> (\<forall>x \<in> set es. due e \<le> due x) \<and> queue_ok ok due es"
  by (auto simp: queue_ok_def)

locale periodic_queue =
  fixes ok :: "'e \<Rightarrow> bool"
    and due :: "'e \<Rightarrow> int"
    and period :: "'e \<Rightarrow> int"
    and renew :: "'e \<Rightarrow> 'e"
    and requeue :: "'e \<Rightarrow> 'e list \<Rightarrow> 'e list"
  assumes renew_ok: "ok e \<Longrightarrow> ok (renew e)"
    and renew_due: "ok e \<Longrightarrow> due (renew e) = due e + period e"
    and renew_period: "ok e \<Longrightarrow> period (renew e) = period e"
    and period_pos: "ok e \<Longrightarrow> 0 < period e"
    and requeue_mset: "mset (requeue e q) = add_mset e (mset q)"
    and requeue_ok: "ok e \<Longrightarrow> queue_ok ok due q \<Longrightarrow> queue_ok ok due (requeue e q)"
begin

lemma set_requeue: "set (requeue e q) = insert e (set q)"
  using arg_cong [OF requeue_mset, of set_mset] by simp

lemma requeue_not_Nil: "requeue e q \<noteq> []"
  using set_requeue [of e q] by auto

lemma length_requeue: "length (requeue e q) = Suc (length q)"
  using arg_cong [OF requeue_mset, of size] by simp

lemma step_inv: "queue_ok ok due (e # es) \<Longrightarrow> queue_ok ok due (requeue (renew e) es)"
  by (simp add: queue_ok_Cons requeue_ok renew_ok)

lemma step_lower:
  "queue_ok ok due (e # es) \<Longrightarrow> x \<in> set (requeue (renew e) es) \<Longrightarrow> due e \<le> due x"
  by (auto simp: queue_ok_Cons set_requeue renew_due period_pos less_imp_le)

lemma renew_iter:
  "ok e \<Longrightarrow> ok ((renew ^^ j) e) \<and> due ((renew ^^ j) e) = due e + int j * period e
     \<and> period ((renew ^^ j) e) = period e"
  by (induction j) (simp_all add: renew_ok renew_due renew_period algebra_simps)

text \<open>The invariant holds after any number of executions, and no event is lost or duplicated.\<close>

lemma fire_inv:
  "queue_ok ok due q \<Longrightarrow> fire renew requeue n q = (fs, q') \<Longrightarrow>
     queue_ok ok due q' \<and> length q' = length q"
proof (induction n arbitrary: q fs)
  case (Suc n)
  show ?case
  proof (cases q)
    case (Cons e es)
    with Suc.prems obtain gs where "fire renew requeue n (requeue (renew e) es) = (gs, q')"
      by (auto split: prod.splits)
    with Suc.IH Suc.prems(1) Cons show ?thesis
      by (metis length_requeue step_inv length_Cons)
  qed (use Suc.prems in simp)
qed simp

lemma fire_length: "q \<noteq> [] \<Longrightarrow> length (fst (fire renew requeue n q)) = n"
proof (induction n arbitrary: q)
  case (Suc n)
  then show ?case
    by (cases q) (simp_all add: fire_Cons requeue_not_Nil del: fire.simps(3))
qed simp

text \<open>Executions happen in the order of their due dates, and none is due after one still queued.\<close>

lemma fire_lower:
  "queue_ok ok due q \<Longrightarrow> fire renew requeue n q = (fs, q') \<Longrightarrow> \<forall>x \<in> set q. b \<le> due x \<Longrightarrow>
     \<forall>f \<in> set fs \<union> set q'. b \<le> due f"
proof (induction n arbitrary: q fs)
  case (Suc n)
  show ?case
  proof (cases q)
    case (Cons e es)
    with Suc.prems obtain gs where gs: "fire renew requeue n (requeue (renew e) es) = (gs, q')"
      and fs: "fs = e # gs"
      by (auto split: prod.splits)
    have "\<forall>x \<in> set (requeue (renew e) es). b \<le> due x"
      using Suc.prems(1,3) step_lower unfolding Cons by (meson list.set_intros(1) order_trans)
    with Suc.IH [OF step_inv gs] Suc.prems(1,3) fs Cons show ?thesis by auto
  qed (use Suc.prems in simp)
qed simp

lemma fire_sorted:
  "queue_ok ok due q \<Longrightarrow> fire renew requeue n q = (fs, q') \<Longrightarrow>
     sorted (map due fs) \<and> (\<forall>f \<in> set fs. \<forall>x \<in> set q'. due f \<le> due x)"
proof (induction n arbitrary: q fs)
  case (Suc n)
  show ?case
  proof (cases q)
    case (Cons e es)
    with Suc.prems obtain gs where gs: "fire renew requeue n (requeue (renew e) es) = (gs, q')"
      and fs: "fs = e # gs"
      by (auto split: prod.splits)
    have inv: "queue_ok ok due (requeue (renew e) es)"
      using Suc.prems(1) step_inv Cons by simp
    have "\<forall>f \<in> set gs \<union> set q'. due e \<le> due f"
      using fire_lower [OF inv gs] step_lower Suc.prems(1) Cons by blast
    with Suc.IH [OF inv gs] fs show ?thesis by auto
  qed (use Suc.prems in simp)
qed simp

text \<open>
  No starvation: an event of the queue is executed within as many executions as there are
  occurrences due no later than it.
\<close>

definition backlog :: "int \<Rightarrow> 'e list \<Rightarrow> nat" where
  "backlog d q = sum_list (map (\<lambda>x. occurrences_until d (due x) (period x)) q)"

lemma backlog_mset: "mset q = mset q' \<Longrightarrow> backlog d q = backlog d q'"
  unfolding backlog_def by (simp flip: sum_mset_sum_list)

lemma backlog_step:
  assumes "ok e" "due e \<le> d"
  shows "backlog d (e # es) = Suc (backlog d (requeue (renew e) es))"
proof -
  have "backlog d (requeue (renew e) es) = backlog d (renew e # es)"
    by (rule backlog_mset) (simp add: requeue_mset)
  then show ?thesis
    using assms occurrences_until_step [of "period e" "due e" d]
    by (simp add: backlog_def renew_due renew_period period_pos)
qed

lemma fire_no_starvation:
  "queue_ok ok due q \<Longrightarrow> e \<in> set q \<Longrightarrow> backlog (due e) q \<le> n \<Longrightarrow>
     e \<in> set (fst (fire renew requeue n q))"
proof (induction n arbitrary: q)
  case 0
  then have "ok e"
    by (simp add: queue_ok_def)
  then have "0 < occurrences_until (due e) (due e) (period e)"
    by (simp add: occurrences_until_def)
  also have "\<dots> \<le> backlog (due e) q"
    using 0 by (auto simp: backlog_def intro: member_le_sum_list)
  finally show ?case using 0 by simp
next
  case (Suc n)
  from Suc.prems obtain h es where q: "q = h # es"
    by (cases q) auto
  show ?case
  proof (cases "e = h")
    case True
    then show ?thesis by (simp add: q split: prod.splits)
  next
    case False
    then have e: "e \<in> set es"
      using Suc.prems(2) q by simp
    then have "ok h" "due h \<le> due e"
      using Suc.prems(1) q by (auto simp: queue_ok_Cons)
    then have "backlog (due e) (requeue (renew h) es) \<le> n"
      using Suc.prems(3) backlog_step q by simp
    then have "e \<in> set (fst (fire renew requeue n (requeue (renew h) es)))"
      using Suc.IH Suc.prems(1) step_inv q e set_requeue by simp
    then show ?thesis by (simp add: q fire_Cons del: fire.simps(3))
  qed
qed

text \<open>
  No event drifts: after \<open>n\<close> executions, event \<open>i\<close> has been executed some \<open>k i\<close> times, namely
  its occurrences \<open>0, \<dots>, k i - 1\<close>, and its occurrence \<open>k i\<close> is queued.
\<close>

definition fired_occurrences :: "'e list \<Rightarrow> (nat \<Rightarrow> nat) \<Rightarrow> 'e multiset" where
  "fired_occurrences q k = (\<Sum>i<length q. mset (map (\<lambda>j. (renew ^^ j) (q ! i)) [0..<k i]))"

definition queued_occurrences :: "'e list \<Rightarrow> (nat \<Rightarrow> nat) \<Rightarrow> 'e multiset" where
  "queued_occurrences q k = (\<Sum>i<length q. {#(renew ^^ k i) (q ! i)#})"

lemma occurrences_advance:
  assumes "i < length q"
  shows "fired_occurrences q (k(i := Suc (k i))) = add_mset ((renew ^^ k i) (q ! i)) (fired_occurrences q k)"
    and "add_mset ((renew ^^ k i) (q ! i)) (queued_occurrences q (k(i := Suc (k i))))
           = add_mset ((renew ^^ Suc (k i)) (q ! i)) (queued_occurrences q k)"
  using assms
  by (simp_all add: fired_occurrences_def queued_occurrences_def sum.remove [where x = i]
        del: mset_map mset_upt)

lemma fire_conserves:
  assumes "q \<noteq> []"
  shows "\<exists>k. (\<Sum>i<length q. k i) = n
     \<and> mset (fst (fire renew requeue n q)) = fired_occurrences q k
     \<and> mset (snd (fire renew requeue n q)) = queued_occurrences q k"
proof (induction n)
  case 0
  have "mset q = queued_occurrences q (\<lambda>_. 0)"
    by (simp add: queued_occurrences_def sum_nth_singletons)
  then show ?case
    by (intro exI [of _ "\<lambda>_. 0"]) (simp add: fired_occurrences_def)
next
  case (Suc n)
  then obtain k where k: "(\<Sum>i<length q. k i) = n"
    "mset (fst (fire renew requeue n q)) = fired_occurrences q k"
    "mset (snd (fire renew requeue n q)) = queued_occurrences q k" by blast
  obtain fs q' where run: "fire renew requeue n q = (fs, q')" by fastforce
  have "size (queued_occurrences q k) = length q"
    by (simp add: queued_occurrences_def size_multiset_sum)
  then obtain e es where q': "q' = e # es"
    using k(3) run assms by (cases q') auto
  then have "e \<in># queued_occurrences q k"
    using k(3) run by (metis list.set_intros(1) set_mset_mset snd_conv)
  then obtain i where i: "i < length q" "e = (renew ^^ k i) (q ! i)"
    by (auto simp: queued_occurrences_def set_mset_sum)
  let ?k = "k(i := Suc (k i))"
  have "(\<Sum>i<length q. ?k i) = Suc n"
    using k(1) i(1) by (simp add: sum.remove [where x = i])
  moreover have "mset (fst (fire renew requeue (Suc n) q)) = fired_occurrences q ?k"
    using k(2) run q' i occurrences_advance(1) by (simp add: fire_Suc_last)
  moreover have "add_mset e (mset (requeue (renew e) es)) = add_mset e (queued_occurrences q ?k)"
    using k(3) run q' i occurrences_advance(2) [OF i(1), of k] by (simp add: requeue_mset)
  then have "mset (snd (fire renew requeue (Suc n) q)) = queued_occurrences q ?k"
    using run q' by (simp add: fire_Suc_last)
  ultimately show ?case by blast
qed

end

end
