(* ===== verification/External.thy ===== *)
theory External
  imports Modbus_Config Timespec
begin

unbundle bit_operations_syntax

text \<open>
  Everything the program calls that is not its own source: the process image access of the
  \<^verbatim>\<open>piControl\<close> submodule (\<^verbatim>\<open>piTest/piControlIf.h\<close>), \<^verbatim>\<open>libmodbus\<close>, and the parts of the operating system whose
  answers the program cannot predict. Each call is a field of the environment record: a function
  of its arguments and of the state of the world \<open>'w\<close>, which yields what the call returns and the
  next state of the world. The model's definitions take the environment as an argument. What the
  theorems assume of it is stated in the predicates at the end of this theory and nowhere else.
  Messages written to \<^verbatim>\<open>syslog\<close> have no effect on the program and are not part of the world.
\<close>

section \<open>piControl\<close>

record SPIValue =
  i16uAddress :: u16
  i8uBit :: u8
  i8uValue :: u8

text \<open>
  \<open>piControlRead\<close> yields its return code and the bytes it has stored to the caller's buffer;
  \<open>piControlWrite\<close> gets offset, length and the bytes at the pointer; \<open>piControlGetBitValue\<close>
  yields the structure as it leaves it.
\<close>

record 'w picontrol =
  piControlRead :: "u32 \<Rightarrow> u32 \<Rightarrow> 'w \<Rightarrow> (int \<times> u8 list) \<times> 'w"
  piControlWrite :: "u32 \<Rightarrow> u32 \<Rightarrow> u8 list \<Rightarrow> 'w \<Rightarrow> int \<times> 'w"
  piControlSetBitValue :: "SPIValue \<Rightarrow> 'w \<Rightarrow> int \<times> 'w"
  piControlGetBitValue :: "SPIValue \<Rightarrow> 'w \<Rightarrow> (int \<times> SPIValue) \<times> 'w"
  piControlWaitForEvent :: "'w \<Rightarrow> int \<times> 'w"
  KB_EVENT_RESET :: int

section \<open>libmodbus\<close>

text \<open>A context is a pointer to an opaque structure: a number that names it.\<close>

type_synonym modbus_t = nat

record modbus_mapping_t =
  nb_bits :: int
  nb_input_bits :: int
  nb_input_registers :: int
  nb_registers :: int
  tab_bits :: "u8 list"
  tab_input_bits :: "u8 list"
  tab_input_registers :: "u16 list"
  tab_registers :: "u16 list"

text \<open>
  The reading functions yield the return value (the number of items read or \<open>-1\<close>) and the items
  stored to the destination array; \<open>modbus_reply\<close> may change the mapping it answers from.
\<close>

record 'w libmodbus = "'w picontrol" +
  MODBUS_MAX_READ_BITS :: int
  MODBUS_MAX_READ_REGISTERS :: int
  MODBUS_MAX_WRITE_BITS :: int
  MODBUS_MAX_WRITE_REGISTERS :: int
  MODBUS_MAX_PDU_LENGTH :: int
  MODBUS_ENOBASE :: u32
  MODBUS_TCP_MAX_ADU_LENGTH :: nat
  modbus_read_bits :: "modbus_t \<Rightarrow> int \<Rightarrow> int \<Rightarrow> 'w \<Rightarrow> (int \<times> u8 list) \<times> 'w"
  modbus_read_input_bits :: "modbus_t \<Rightarrow> int \<Rightarrow> int \<Rightarrow> 'w \<Rightarrow> (int \<times> u8 list) \<times> 'w"
  modbus_read_registers :: "modbus_t \<Rightarrow> int \<Rightarrow> int \<Rightarrow> 'w \<Rightarrow> (int \<times> u16 list) \<times> 'w"
  modbus_read_input_registers :: "modbus_t \<Rightarrow> int \<Rightarrow> int \<Rightarrow> 'w \<Rightarrow> (int \<times> u16 list) \<times> 'w"
  modbus_write_bit :: "modbus_t \<Rightarrow> int \<Rightarrow> int \<Rightarrow> 'w \<Rightarrow> int \<times> 'w"
  modbus_write_register :: "modbus_t \<Rightarrow> int \<Rightarrow> int \<Rightarrow> 'w \<Rightarrow> int \<times> 'w"
  modbus_write_bits :: "modbus_t \<Rightarrow> int \<Rightarrow> int \<Rightarrow> u8 list \<Rightarrow> 'w \<Rightarrow> int \<times> 'w"
  modbus_write_registers :: "modbus_t \<Rightarrow> int \<Rightarrow> int \<Rightarrow> u16 list \<Rightarrow> 'w \<Rightarrow> int \<times> 'w"
  modbus_report_slave_id :: "modbus_t \<Rightarrow> nat \<Rightarrow> 'w \<Rightarrow> (int \<times> u8 list) \<times> 'w"
  modbus_new_tcp_pi :: "string \<Rightarrow> int \<Rightarrow> 'w \<Rightarrow> modbus_t option \<times> 'w"
  modbus_new_rtu :: "string \<Rightarrow> u32 \<Rightarrow> char \<Rightarrow> u8 \<Rightarrow> u8 \<Rightarrow> 'w \<Rightarrow> modbus_t option \<times> 'w"
  modbus_set_error_recovery :: "modbus_t \<Rightarrow> 'w \<Rightarrow> int \<times> 'w"
  modbus_connect :: "modbus_t \<Rightarrow> 'w \<Rightarrow> int \<times> 'w"
  modbus_close :: "modbus_t \<Rightarrow> 'w \<Rightarrow> unit \<times> 'w"
  modbus_free :: "modbus_t \<Rightarrow> 'w \<Rightarrow> unit \<times> 'w"
  modbus_set_slave :: "modbus_t \<Rightarrow> int \<Rightarrow> 'w \<Rightarrow> int \<times> 'w"
  modbus_set_response_timeout :: "modbus_t \<Rightarrow> int \<Rightarrow> int \<Rightarrow> 'w \<Rightarrow> int \<times> 'w"
  modbus_set_byte_timeout :: "modbus_t \<Rightarrow> int \<Rightarrow> int \<Rightarrow> 'w \<Rightarrow> int \<times> 'w"
  modbus_mapping_new :: "int \<Rightarrow> int \<Rightarrow> int \<Rightarrow> int \<Rightarrow> 'w \<Rightarrow> modbus_mapping_t option \<times> 'w"
  modbus_receive :: "modbus_t \<Rightarrow> 'w \<Rightarrow> (int \<times> u8 list) \<times> 'w"
  modbus_get_header_length :: "modbus_t \<Rightarrow> 'w \<Rightarrow> int \<times> 'w"
  modbus_reply :: "modbus_t \<Rightarrow> u8 list \<Rightarrow> int \<Rightarrow> modbus_mapping_t \<Rightarrow> 'w \<Rightarrow> (int \<times> modbus_mapping_t) \<times> 'w"
  modbus_tcp_pi_listen :: "modbus_t \<Rightarrow> int \<Rightarrow> 'w \<Rightarrow> int \<times> 'w"
  modbus_set_socket :: "modbus_t \<Rightarrow> int \<Rightarrow> 'w \<Rightarrow> int \<times> 'w"

section \<open>Operating system\<close>

text \<open>
  \<open>malloc_ok\<close> answers whether a heap allocation succeeds, \<open>set_priority\<close> is
  \<^verbatim>\<open>sched_setscheduler\<close>, \<open>sleep_for\<close> and \<open>sleep_until\<close> are the relative and absolute uses of
  \<^verbatim>\<open>clock_nanosleep\<close>, \<open>select_read\<close> yields the return value and the ready descriptors.
\<close>

record 'w env = "'w libmodbus" +
  errno_of :: "'w \<Rightarrow> u32"
  clock_gettime :: "'w \<Rightarrow> timespec \<times> 'w"
  sleep_for :: "timespec \<Rightarrow> 'w \<Rightarrow> unit \<times> 'w"
  sleep_until :: "timespec \<Rightarrow> 'w \<Rightarrow> unit \<times> 'w"
  malloc_ok :: "'w \<Rightarrow> bool \<times> 'w"
  set_priority :: "int \<Rightarrow> 'w \<Rightarrow> int \<times> 'w"
  mutex_lock :: "'w \<Rightarrow> unit \<times> 'w"
  mutex_unlock :: "'w \<Rightarrow> unit \<times> 'w"
  access_rw :: "string \<Rightarrow> 'w \<Rightarrow> int \<times> 'w"
  select_read :: "nat \<Rightarrow> nat set \<Rightarrow> 'w \<Rightarrow> (int \<times> nat set) \<times> 'w"
  accept_fd :: "nat \<Rightarrow> 'w \<Rightarrow> int \<times> 'w"
  close_fd :: "nat \<Rightarrow> 'w \<Rightarrow> unit \<times> 'w"

section \<open>Assumptions\<close>

text \<open>
  The process image as seen through a view \<open>img\<close> of the world: byte \<open>a\<close> of the image is
  \<open>img w a\<close>. \<open>patch_image\<close> overwrites consecutive bytes, \<open>patch_bit\<close> one bit.
\<close>

type_synonym image = "nat \<Rightarrow> u8"

definition patch_image :: "image \<Rightarrow> nat \<Rightarrow> u8 list \<Rightarrow> image" where
  "patch_image m off d = (\<lambda>a. if off \<le> a \<and> a < off + length d then d ! (a - off) else m a)"

definition slice_image :: "image \<Rightarrow> nat \<Rightarrow> nat \<Rightarrow> u8 list" where
  "slice_image m off n = map (\<lambda>k. m (off + k)) [0..<n]"

definition patch_bit :: "image \<Rightarrow> nat \<Rightarrow> nat \<Rightarrow> bool \<Rightarrow> image" where
  "patch_bit m a b v = m(a := (if v then set_bit b (m a) else unset_bit b (m a)))"

text \<open>
  What \<^verbatim>\<open>piControlSetBitValue\<close> stores and \<^verbatim>\<open>piControlGetBitValue\<close> yields: \<open>i8uBit\<close> below 8 names a bit,
  any larger value stands for the whole byte.
\<close>

definition patch_value :: "image \<Rightarrow> nat \<Rightarrow> nat \<Rightarrow> u8 \<Rightarrow> image" where
  "patch_value m a b v = (if b < 8 then patch_bit m a b (v \<noteq> 0) else m(a := v))"

definition value_at :: "image \<Rightarrow> nat \<Rightarrow> nat \<Rightarrow> u8" where
  "value_at m a b = (if b < 8 then of_bool (bit (m a) b) else m a)"

text \<open>
  The documented behaviour of \<^verbatim>\<open>piControlIf\<close>: a failing call (negative code) leaves the image as it
  was; a successful write stores all the bytes, a successful bit access stores or yields the bit, or
  the byte when the bit is 8 or more; reading never changes the image and stores at most the bytes asked for, all of them when the
  code is positive.
\<close>

definition picontrol_laws :: "'w env \<Rightarrow> ('w \<Rightarrow> image) \<Rightarrow> bool" where
  "picontrol_laws E img \<longleftrightarrow>
     (\<forall>off len d w. case piControlWrite E off len d w of (rc, w') \<Rightarrow>
        img w' = (if rc < 0 then img w else patch_image (img w) (unat off) (take (unat len) d)))
   \<and> (\<forall>off len w. case piControlRead E off len w of ((rc, d), w') \<Rightarrow>
        img w' = img w \<and> length d \<le> unat len
        \<and> (0 < rc \<longrightarrow> d = slice_image (img w) (unat off) (unat len)))
   \<and> (\<forall>v w. case piControlSetBitValue E v w of (rc, w') \<Rightarrow>
        img w' = (if rc < 0 then img w
                  else patch_value (img w) (unat (i16uAddress v)) (unat (i8uBit v)) (i8uValue v)))
   \<and> (\<forall>v w. case piControlGetBitValue E v w of ((rc, v'), w') \<Rightarrow>
        img w' = img w \<and> i16uAddress v' = i16uAddress v \<and> i8uBit v' = i8uBit v
        \<and> (0 \<le> rc \<longrightarrow> i8uValue v' = value_at (img w) (unat (i16uAddress v)) (unat (i8uBit v))))"

text \<open>The process image is available: no access to it fails, and a read yields the bytes asked for.\<close>

definition image_available :: "'w env \<Rightarrow> bool" where
  "image_available E \<longleftrightarrow>
     (\<forall>off len d w. 0 \<le> fst (piControlWrite E off len d w))
   \<and> (\<forall>off len w. len \<noteq> 0 \<longrightarrow> 0 < fst (fst (piControlRead E off len w)))
   \<and> (\<forall>v w. 0 \<le> fst (piControlSetBitValue E v w))
   \<and> (\<forall>v w. 0 \<le> fst (fst (piControlGetBitValue E v w)))"

text \<open>A view of the world that no \<^verbatim>\<open>libmodbus\<close> request of the master changes.\<close>

definition requests_keep :: "'w env \<Rightarrow> ('w \<Rightarrow> 'v) \<Rightarrow> bool" where
  "requests_keep E f \<longleftrightarrow>
     (\<forall>c a n w. f (snd (modbus_read_bits E c a n w)) = f w
        \<and> f (snd (modbus_read_input_bits E c a n w)) = f w
        \<and> f (snd (modbus_read_registers E c a n w)) = f w
        \<and> f (snd (modbus_read_input_registers E c a n w)) = f w
        \<and> f (snd (modbus_write_bit E c a n w)) = f w
        \<and> f (snd (modbus_write_register E c a n w)) = f w)
   \<and> (\<forall>c a n d w. f (snd (modbus_write_bits E c a n d w)) = f w)
   \<and> (\<forall>c a n d w. f (snd (modbus_write_registers E c a n d w)) = f w)
   \<and> (\<forall>c n w. f (snd (modbus_report_slave_id E c n w)) = f w)"

text \<open>A view of the world that neither the clock, nor sleeping, nor a mutex operation changes.\<close>

definition clock_keeps :: "'w env \<Rightarrow> ('w \<Rightarrow> 'v) \<Rightarrow> bool" where
  "clock_keeps E f \<longleftrightarrow>
     (\<forall>w. f (snd (clock_gettime E w)) = f w)
   \<and> (\<forall>t w. f (snd (sleep_for E t w)) = f w) \<and> (\<forall>t w. f (snd (sleep_until E t w)) = f w)"

definition mutex_keeps :: "'w env \<Rightarrow> ('w \<Rightarrow> 'v) \<Rightarrow> bool" where
  "mutex_keeps E f \<longleftrightarrow> (\<forall>w. f (snd (mutex_lock E w)) = f w \<and> f (snd (mutex_unlock E w)) = f w)"

definition image_access_keeps :: "'w env \<Rightarrow> ('w \<Rightarrow> 'v) \<Rightarrow> bool" where
  "image_access_keeps E f \<longleftrightarrow>
     (\<forall>off len d w. f (snd (piControlWrite E off len d w)) = f w)
   \<and> (\<forall>off len w. f (snd (piControlRead E off len w)) = f w)
   \<and> (\<forall>v w. f (snd (piControlSetBitValue E v w)) = f w \<and> f (snd (piControlGetBitValue E v w)) = f w)"

text \<open>The mutex that \<open>held\<close> observes is taken by locking and released by unlocking.\<close>

definition mutex_laws :: "'w env \<Rightarrow> ('w \<Rightarrow> bool) \<Rightarrow> bool" where
  "mutex_laws E held \<longleftrightarrow>
     (\<forall>w. held (snd (mutex_lock E w))) \<and> (\<forall>w. \<not> held (snd (mutex_unlock E w)))
   \<and> requests_keep E held \<and> clock_keeps E held \<and> image_access_keeps E held"

text \<open>
  The limits of \<^verbatim>\<open>modbus.h\<close>, and what its documentation says a reading function stores: at most
  the number of items asked for, and at least as many as it returns; a slave id is truncated to
  the size of the destination.
\<close>

definition modbus_limits :: "'w env \<Rightarrow> bool" where
  "modbus_limits E \<longleftrightarrow>
     MODBUS_MAX_READ_BITS E = 2000 \<and> MODBUS_MAX_READ_REGISTERS E = 125
   \<and> MODBUS_MAX_WRITE_BITS E = 1968 \<and> MODBUS_MAX_WRITE_REGISTERS E = 123
   \<and> MODBUS_MAX_PDU_LENGTH E = 253 \<and> MODBUS_ENOBASE E = 112345678"

definition stores_at_most :: "(int \<Rightarrow> int \<Rightarrow> 'w \<Rightarrow> (int \<times> 'a list) \<times> 'w) \<Rightarrow> bool" where
  "stores_at_most rd \<longleftrightarrow> (\<forall>a n w. case rd a n w of ((len, d), w') \<Rightarrow>
     int (length d) \<le> max 0 n \<and> len \<le> int (length d))"

definition modbus_read_laws :: "'w env \<Rightarrow> bool" where
  "modbus_read_laws E \<longleftrightarrow>
     (\<forall>c. stores_at_most (modbus_read_bits E c) \<and> stores_at_most (modbus_read_input_bits E c)
        \<and> stores_at_most (modbus_read_registers E c)
        \<and> stores_at_most (modbus_read_input_registers E c))
   \<and> (\<forall>c n w. case modbus_report_slave_id E c n w of ((len, d), w') \<Rightarrow>
        length d \<le> n \<and> (0 \<le> len \<longrightarrow> length d = min n (nat len)))"

section \<open>Images\<close>

lemma patch_image_outside: "a < off \<or> off + length d \<le> a \<Longrightarrow> patch_image m off d a = m a"
  by (auto simp: patch_image_def)

lemma patch_image_inside: "k < length d \<Longrightarrow> patch_image m off d (off + k) = d ! k"
  by (simp add: patch_image_def)

lemma slice_patch_image: "slice_image (patch_image m off d) off (length d) = d"
  by (rule nth_equalityI) (simp_all add: slice_image_def patch_image_inside)

lemma length_slice_image [simp]: "length (slice_image m off n) = n"
  by (simp add: slice_image_def)

lemma bit_patch_bit:
  "b < 8 \<Longrightarrow> bit (patch_bit m a b v a') b' = (if a' = a \<and> b' = b then v else bit (m a') b')"
  by (auto simp: patch_bit_def bit_simps)

lemma patch_bit_outside: "a' \<noteq> a \<Longrightarrow> patch_bit m a b v a' = m a'"
  by (simp add: patch_bit_def)

lemma patch_value_outside: "a' \<noteq> a \<Longrightarrow> patch_value m a b v a' = m a'"
  by (simp add: patch_value_def patch_bit_def)

lemma patch_value_bit: "b < 8 \<Longrightarrow> patch_value m a b v = patch_bit m a b (v \<noteq> 0)"
  by (simp add: patch_value_def)

lemma value_at_bit: "b < 8 \<Longrightarrow> value_at m a b = of_bool (bit (m a) b)"
  by (simp add: value_at_def)

end
