(* ===== verification/Plant.thy ===== *)
theory Plant
  imports External
begin

text \<open>
  A concrete environment that satisfies every assumption of \<open>External\<close>: a process image in memory
  and one modbus slave with coils and registers, which answers as long as the link is up. The
  witnesses of the development run the program's model in it.
\<close>

record plant =
  p_image :: image
  p_coils :: "nat \<Rightarrow> bool"
  p_regs :: "nat \<Rightarrow> u16"
  p_up :: bool
  p_errno :: u32
  p_clock :: int
  p_held :: bool
  p_heap :: nat
  p_request :: "u8 list"
  p_fds :: "nat list"

definition plant0 :: plant where
  "plant0 = \<lparr>p_image = (\<lambda>_. 0), p_coils = (\<lambda>a. a = 1), p_regs = (\<lambda>a. word_of_nat (a + 258)),
     p_up = True, p_errno = 0, p_clock = 0, p_held = False, p_heap = 100,
     p_request = [], p_fds = []\<rparr>"

definition answer :: "'b plant_scheme \<Rightarrow> int \<Rightarrow> 'a list \<Rightarrow> (int \<times> 'a list) \<times> 'b plant_scheme" where
  "answer w n d = (if p_up w \<and> 0 \<le> n then ((n, take (nat n) d), w) else ((-1, []), w\<lparr>p_errno := 110\<rparr>))"

definition accept_write :: "'a plant_scheme \<Rightarrow> int \<Rightarrow> 'a plant_scheme \<Rightarrow> int \<times> 'a plant_scheme" where
  "accept_write w n w' = (if p_up w then (n, w') else (-1, w\<lparr>p_errno := 110\<rparr>))"

definition put_list :: "(nat \<Rightarrow> 'a) \<Rightarrow> nat \<Rightarrow> 'a list \<Rightarrow> nat \<Rightarrow> 'a" where
  "put_list m off d = (\<lambda>a. if off \<le> a \<and> a < off + length d then d ! (a - off) else m a)"

definition coil_slice :: "'a plant_scheme \<Rightarrow> int \<Rightarrow> int \<Rightarrow> u8 list" where
  "coil_slice w a n = map (\<lambda>k. of_bool (p_coils w (nat a + k))) [0..<nat n]"

definition reg_slice :: "'a plant_scheme \<Rightarrow> int \<Rightarrow> int \<Rightarrow> u16 list" where
  "reg_slice w a n = map (\<lambda>k. p_regs w (nat a + k)) [0..<nat n]"

text \<open>A descriptor that is not in use; 0 to 2 are the standard streams.\<close>

fun fresh_fd :: "nat list \<Rightarrow> nat" where
  "fresh_fd [] = 3"
| "fresh_fd (fd # fds) = max (Suc fd) (fresh_fd fds)"

lemma fresh_fd_greater: "fd \<in> set fds \<Longrightarrow> fd < fresh_fd fds"
  by (induction fds) auto

definition plant_extended_env :: "'a plant_scheme env" where
  "plant_extended_env = \<lparr>
     piControlRead = (\<lambda>off len w. ((int (unat len), slice_image (p_image w) (unat off) (unat len)), w)),
     piControlWrite = (\<lambda>off len d w.
       (int (unat len), w\<lparr>p_image := patch_image (p_image w) (unat off) (take (unat len) d)\<rparr>)),
     piControlSetBitValue = (\<lambda>v w. (0, w\<lparr>p_image :=
       patch_value (p_image w) (unat (i16uAddress v)) (unat (i8uBit v)) (i8uValue v)\<rparr>)),
     piControlGetBitValue = (\<lambda>v w. ((0, v\<lparr>i8uValue :=
       value_at (p_image w) (unat (i16uAddress v)) (unat (i8uBit v))\<rparr>), w)),
     piControlWaitForEvent = (\<lambda>w. (1, w)),
     KB_EVENT_RESET = 1,
     MODBUS_MAX_READ_BITS = 2000, MODBUS_MAX_READ_REGISTERS = 125,
     MODBUS_MAX_WRITE_BITS = 1968, MODBUS_MAX_WRITE_REGISTERS = 123,
     MODBUS_MAX_PDU_LENGTH = 253, MODBUS_ENOBASE = 112345678, MODBUS_TCP_MAX_ADU_LENGTH = 260,
     modbus_read_bits = (\<lambda>c a n w. answer w n (coil_slice w a n)),
     modbus_read_input_bits = (\<lambda>c a n w. answer w n (coil_slice w a n)),
     modbus_read_registers = (\<lambda>c a n w. answer w n (reg_slice w a n)),
     modbus_read_input_registers = (\<lambda>c a n w. answer w n (reg_slice w a n)),
     modbus_write_bit = (\<lambda>c a v w. accept_write w 1 (w\<lparr>p_coils := (p_coils w)(nat a := v \<noteq> 0)\<rparr>)),
     modbus_write_register = (\<lambda>c a v w.
       accept_write w 1 (w\<lparr>p_regs := (p_regs w)(nat a := word_of_int v)\<rparr>)),
     modbus_write_bits = (\<lambda>c a n d w.
       accept_write w n (w\<lparr>p_coils := put_list (p_coils w) (nat a) (map (\<lambda>v. v \<noteq> 0) d)\<rparr>)),
     modbus_write_registers = (\<lambda>c a n d w.
       accept_write w n (w\<lparr>p_regs := put_list (p_regs w) (nat a) d\<rparr>)),
     modbus_report_slave_id = (\<lambda>c n w. if p_up w then ((2, take n [17, 255]), w)
       else ((-1, []), w\<lparr>p_errno := 110\<rparr>)),
     modbus_new_tcp_pi = (\<lambda>ip port w. (Some 0, w)),
     modbus_new_rtu = (\<lambda>path baud parity data stop w. (Some 0, w)),
     modbus_set_error_recovery = (\<lambda>c w. (0, w)),
     modbus_connect = (\<lambda>c w. (if p_up w then 0 else -1, w)),
     modbus_close = (\<lambda>c w. ((), w)),
     modbus_free = (\<lambda>c w. ((), w)),
     modbus_set_slave = (\<lambda>c a w. (0, w)),
     modbus_set_response_timeout = (\<lambda>c s us w. (0, w)),
     modbus_set_byte_timeout = (\<lambda>c s us w. (0, w)),
     modbus_mapping_new = (\<lambda>nb nib nr nir w. (Some \<lparr>nb_bits = nb, nb_input_bits = nib,
       nb_input_registers = nir, nb_registers = nr,
       tab_bits = replicate (nat nb) 0, tab_input_bits = replicate (nat nib) 0,
       tab_input_registers = replicate (nat nir) 0, tab_registers = replicate (nat nr) 0\<rparr>, w)),
     modbus_receive = (\<lambda>c w. if 7 < length (p_request w) \<and> length (p_request w) \<le> 260
       then ((int (length (p_request w)), p_request w), w) else ((-1, []), w)),
     modbus_get_header_length = (\<lambda>c w. (7, w)),
     modbus_reply = (\<lambda>c req len m w.
       ((len, if 7 < length req \<and> req ! 7 = 6 then m\<lparr>tab_registers := map ((+) 1) (tab_registers m)\<rparr> else m), w)),
     modbus_tcp_pi_listen = (\<lambda>c n w. (int (fresh_fd (p_fds w)), w\<lparr>p_fds := fresh_fd (p_fds w) # p_fds w\<rparr>)),
     modbus_set_socket = (\<lambda>c s w. (0, w)),
     errno_of = p_errno,
     clock_gettime = (\<lambda>w. (\<lparr>tv_sec = p_clock w div 1000000000, tv_nsec = p_clock w mod 1000000000\<rparr>, w)),
     sleep_for = (\<lambda>t w. ((), w\<lparr>p_clock := p_clock w + max 0 (ns_of t)\<rparr>)),
     sleep_until = (\<lambda>t w. ((), w\<lparr>p_clock := max (p_clock w) (ns_of t)\<rparr>)),
     malloc_ok = (\<lambda>w. (0 < p_heap w, w\<lparr>p_heap := p_heap w - 1\<rparr>)),
     set_priority = (\<lambda>p w. (0, w)),
     mutex_lock = (\<lambda>w. ((), w\<lparr>p_held := True\<rparr>)),
     mutex_unlock = (\<lambda>w. ((), w\<lparr>p_held := False\<rparr>)),
     access_rw = (\<lambda>path w. (0, w)),
     select_read = (\<lambda>n fds w. ((1, fds), w)),
     accept_fd = (\<lambda>s w. (int (fresh_fd (p_fds w)), w\<lparr>p_fds := fresh_fd (p_fds w) # p_fds w\<rparr>)),
     close_fd = (\<lambda>s w. ((), w\<lparr>p_fds := removeAll s (p_fds w)\<rparr>))\<rparr>"

text \<open>The environment of the plant alone; larger worlds extend the plant.\<close>

abbreviation plant_env :: "plant env" where
  "plant_env \<equiv> plant_extended_env"

lemmas plant_env_def = plant_extended_env_def

lemmas plant_defs = plant_env_def plant0_def answer_def accept_write_def coil_slice_def reg_slice_def

lemma plant_picontrol: "picontrol_laws plant_extended_env p_image"
  by (simp add: picontrol_laws_def plant_env_def)

lemma plant_available: "image_available plant_extended_env"
proof -
  have "0 < uint len" if "len \<noteq> 0" for len :: u32
    using that uint_ge_0 [of len] uint_0_iff [of len] by linarith
  then show ?thesis
    by (simp add: image_available_def plant_env_def)
qed

lemma plant_limits: "modbus_limits plant_extended_env"
  by (simp add: modbus_limits_def plant_env_def)

lemma plant_requests:
  "requests_keep plant_extended_env p_image" "requests_keep plant_extended_env p_held"
  by (simp_all add: requests_keep_def plant_env_def answer_def accept_write_def)

lemma plant_clock: "clock_keeps plant_extended_env p_image" "clock_keeps plant_extended_env p_held"
  by (simp_all add: clock_keeps_def plant_env_def)

lemma plant_mutex: "mutex_laws plant_extended_env p_held" "mutex_keeps plant_extended_env p_image"
  by (simp_all add: mutex_laws_def mutex_keeps_def plant_requests plant_clock image_access_keeps_def)
     (simp_all add: plant_env_def)

lemma plant_reads: "modbus_read_laws plant_extended_env"
  by (auto simp: modbus_read_laws_def stores_at_most_def plant_env_def answer_def coil_slice_def
      reg_slice_def)

lemma plant_clock_wf: "wf_timespec (fst (clock_gettime plant_extended_env w))"
  by (simp add: plant_env_def wf_timespec_def)

end
