(* ===== verification/Scheduler.thy ===== *)
theory Scheduler
  imports Complex_Main Modbus_Config Timespec Periodic_Queue External Plant
begin

text \<open>
  The modbus action scheduler, \<^verbatim>\<open>src/src/Scheduler.c\<close>. The doubly linked tail queue of scheduler
  events is a list, head first. The locale \<open>periodic_queue\<close> is interpreted on the scheduler's own
  insertion and renewal; the theorems about sequences of executions rest on it.
\<close>

record schedulerEvent =
  intervalTime :: timespec
  triggerTime :: timespec
  ptModbusAction :: TModbusAction

record tModbusEvent =
  eventTriggerTime :: timespec
  eventModbusAction :: TModbusAction

section \<open>Insertion by due date\<close>

fun insertEventByDueDate :: "schedulerEvent \<Rightarrow> schedulerEvent list \<Rightarrow> schedulerEvent list" where
  "insertEventByDueDate newEvent_p [] = [newEvent_p]"
| "insertEventByDueDate newEvent_p (pEvent_l # rest) =
     (if due_before (triggerTime newEvent_p) (triggerTime pEvent_l)
      then newEvent_p # pEvent_l # rest
      else pEvent_l # insertEventByDueDate newEvent_p rest)"

section \<open>Initialisation\<close>

text \<open>Removing and freeing head by head: what is left of the list, and the events freed.\<close>

fun cleanupScheduler :: "schedulerEvent list \<Rightarrow> schedulerEvent list \<Rightarrow> schedulerEvent list \<times> schedulerEvent list" where
  "cleanupScheduler [] freed = ([], freed)"
| "cleanupScheduler (pNewSchedulerEvent # rest) freed =
     cleanupScheduler rest (freed @ [pNewSchedulerEvent])"

text \<open>The interval computed in \<^verbatim>\<open>uint32_t\<close>, and the first trigger time, one second later than due.\<close>

definition newSchedulerEvent :: "timespec \<Rightarrow> TModbusAction \<Rightarrow> schedulerEvent outcome" where
  "newSchedulerEvent tv_currentTime act =
     (let interval = \<lparr>tv_sec = uint (i32uInterval_us act div 1000000),
                      tv_nsec = uint ((i32uInterval_us act mod 1000000) * 1000)\<rparr>
      in obind (timespec_add tv_currentTime interval) (\<lambda>trigger.
           Ret \<lparr>intervalTime = interval,
                triggerTime = trigger\<lparr>tv_sec := tv_sec trigger + 1\<rparr>,
                ptModbusAction = act\<rparr>))"

fun initScheduler_loop ::
  "'w env \<Rightarrow> timespec \<Rightarrow> TModbusAction list \<Rightarrow> schedulerEvent list \<Rightarrow> ('w, int \<times> schedulerEvent list) prog" where
  "initScheduler_loop E tv_currentTime [] evl = ret (0, evl)"
| "initScheduler_loop E tv_currentTime (act # acts) evl =
     bindM (ext (malloc_ok E)) (\<lambda>allocated.
       if \<not> allocated then ret (-1, fst (cleanupScheduler evl []))
       else bindM (liftO (newSchedulerEvent tv_currentTime act)) (\<lambda>pNewSchedulerEvent.
              if evl = [] then initScheduler_loop E tv_currentTime acts [pNewSchedulerEvent]
              else initScheduler_loop E tv_currentTime acts
                     (insertEventByDueDate pNewSchedulerEvent evl)))"

definition initScheduler ::
  "'w env \<Rightarrow> TModbusAction list \<Rightarrow> schedulerEvent list \<Rightarrow> ('w, int \<times> schedulerEvent list) prog" where
  "initScheduler E actions evl =
     (if actions = [] then ret (-1, evl)
      else bindM (ext (clock_gettime E)) (\<lambda>tv_currentTime.
             initScheduler_loop E tv_currentTime actions []))"

section \<open>The next event\<close>

fun determineNextEvent :: "schedulerEvent list \<Rightarrow> (tModbusEvent \<times> schedulerEvent list) outcome" where
  "determineNextEvent [] = Fault"
| "determineNextEvent (e # rest) =
     obind (timespec_add (triggerTime e) (intervalTime e)) (\<lambda>t.
       Ret (\<lparr>eventTriggerTime = triggerTime e, eventModbusAction = ptModbusAction e\<rparr>,
            insertEventByDueDate (e\<lparr>triggerTime := t\<rparr>) rest))"

text \<open>The caller's event stays unset when the list is empty.\<close>

definition getNextEvent :: "schedulerEvent list \<Rightarrow> (int \<times> tModbusEvent option \<times> schedulerEvent list) outcome" where
  "getNextEvent evl =
     (if evl = [] then Ret (-1, None, evl)
      else obind (determineNextEvent evl) (\<lambda>(ev, evl'). Ret (0, Some ev, evl')))"

section \<open>Intervals of the list\<close>

fun get_minimal_modbus_action_interval_loop :: "timespec \<Rightarrow> schedulerEvent list \<Rightarrow> timespec outcome" where
  "get_minimal_modbus_action_interval_loop min_interval [] = Ret min_interval"
| "get_minimal_modbus_action_interval_loop min_interval (e # rest) =
     obind (timespec_diff (intervalTime e) min_interval) (\<lambda>(rc, _).
       get_minimal_modbus_action_interval_loop (if rc < 0 then intervalTime e else min_interval) rest)"

definition get_minimal_modbus_action_interval :: "schedulerEvent list \<Rightarrow> timespec outcome" where
  "get_minimal_modbus_action_interval evl =
     get_minimal_modbus_action_interval_loop
       \<lparr>tv_sec = 2147483647, tv_nsec = s32_nanoseconds_per_second - 1\<rparr> evl"

text \<open>
  The mean time between events is computed in \<^verbatim>\<open>double\<close>. Its operations are an argument: the
  conversion from \<^verbatim>\<open>uint64_t\<close>, addition, division and the conversion to \<^verbatim>\<open>int64_t\<close>.
\<close>

record 'd double_ops =
  d_zero :: 'd
  d_one :: 'd
  d_of_u64 :: "u64 \<Rightarrow> 'd"
  d_add :: "'d \<Rightarrow> 'd \<Rightarrow> 'd"
  d_div :: "'d \<Rightarrow> 'd \<Rightarrow> 'd"
  d_to_i64 :: "'d \<Rightarrow> int"

fun inverse_mean_time :: "'d double_ops \<Rightarrow> schedulerEvent list \<Rightarrow> 'd \<Rightarrow> 'd" where
  "inverse_mean_time D [] acc = acc"
| "inverse_mean_time D (e # rest) acc =
     (let interval = word_of_int (tv_nsec (intervalTime e)
                       + tv_sec (intervalTime e) * s32_nanoseconds_per_second) :: u64
      in inverse_mean_time D rest (d_add D acc (d_div D (d_one D) (d_of_u64 D interval))))"

text \<open>C's \<open>/\<close> and \<open>%\<close> truncate towards zero; \<open>>> 2\<close> on a signed value divides rounding down.\<close>

definition c_div :: "int \<Rightarrow> int \<Rightarrow> int" where
  "c_div a b = sgn a * sgn b * (\<bar>a\<bar> div \<bar>b\<bar>)"

definition c_mod :: "int \<Rightarrow> int \<Rightarrow> int" where
  "c_mod a b = a - b * c_div a b"

definition get_minimal_modbus_event_offset :: "'d double_ops \<Rightarrow> schedulerEvent list \<Rightarrow> timespec" where
  "get_minimal_modbus_event_offset D evl =
     (let inverse_mean = inverse_mean_time D evl (d_zero D);
          mean = d_div D (d_one D) inverse_mean;
          s64_mean = d_to_i64 D mean
      in \<lparr>tv_sec = to_i32 (c_div (s64_mean div 4) s32_nanoseconds_per_second),
          tv_nsec = to_i32 (c_mod (s64_mean div 4) s32_nanoseconds_per_second)\<rparr>)"

section \<open>The scheduler as a periodic queue\<close>

text \<open>
  Due date and period of an event in nanoseconds. A period is positive and at most the
  \<open>4294\<close> seconds that a \<^verbatim>\<open>uint32_t\<close> of microseconds can hold.
\<close>

definition due_of :: "schedulerEvent \<Rightarrow> int" where
  "due_of e = ns_of (triggerTime e)"

definition period_of :: "schedulerEvent \<Rightarrow> int" where
  "period_of e = ns_of (intervalTime e)"

definition wf_event :: "schedulerEvent \<Rightarrow> bool" where
  "wf_event e \<longleftrightarrow> wf_timespec (triggerTime e) \<and> wf_timespec (intervalTime e)
     \<and> 0 < ns_of (intervalTime e) \<and> tv_sec (intervalTime e) \<le> 4294"

definition timespec_of_ns :: "int \<Rightarrow> timespec" where
  "timespec_of_ns n = \<lparr>tv_sec = n div 1000000000, tv_nsec = n mod 1000000000\<rparr>"

definition next_occurrence :: "schedulerEvent \<Rightarrow> schedulerEvent" where
  "next_occurrence e = e\<lparr>triggerTime := timespec_of_ns (due_of e + period_of e)\<rparr>"

definition event_of :: "schedulerEvent \<Rightarrow> tModbusEvent" where
  "event_of e = \<lparr>eventTriggerTime = triggerTime e, eventModbusAction = ptModbusAction e\<rparr>"

abbreviation scheduler_ok :: "schedulerEvent list \<Rightarrow> bool" where
  "scheduler_ok evl \<equiv> queue_ok wf_event due_of evl"

lemmas event_defs = wf_event_def due_of_def period_of_def next_occurrence_def event_of_def

lemma timespec_of_ns [simp]: "wf_timespec (timespec_of_ns n)" "ns_of (timespec_of_ns n) = n"
  by (simp_all add: timespec_of_ns_def wf_timespec_def ns_of_def)

lemma timespec_of_ns_of: "wf_timespec t \<Longrightarrow> timespec_of_ns (ns_of t) = t"
  by (rule ns_of_inj) simp_all

lemma timespec_add_eq:
  "wf_timespec a \<Longrightarrow> wf_timespec b \<Longrightarrow> timespec_add a b = Ret (timespec_of_ns (ns_of a + ns_of b))"
  using timespec_add_Ret timespec_of_ns_of by metis

lemma interval_nonneg: "wf_event e \<Longrightarrow> 0 \<le> tv_sec (intervalTime e)"
  by (simp add: wf_event_def wf_timespec_def ns_of_def)

lemma due_before_event:
  "wf_event a \<Longrightarrow> wf_event b \<Longrightarrow> due_before (triggerTime a) (triggerTime b) \<longleftrightarrow> due_of a < due_of b"
  by (simp add: wf_event_def due_of_def due_before_iff)

lemma mset_insertEventByDueDate: "mset (insertEventByDueDate e q) = add_mset e (mset q)"
  by (induction q) simp_all

lemma set_insertEventByDueDate: "set (insertEventByDueDate e q) = insert e (set q)"
  by (induction q) auto

lemma insertEventByDueDate_ok: "wf_event e \<Longrightarrow> scheduler_ok q \<Longrightarrow> scheduler_ok (insertEventByDueDate e q)"
  by (induction q)
     (auto simp: queue_ok_Cons set_insertEventByDueDate due_before_event)

interpretation sched: periodic_queue wf_event due_of period_of next_occurrence insertEventByDueDate
  by unfold_locales
     (simp_all add: mset_insertEventByDueDate insertEventByDueDate_ok, simp_all add: event_defs)

text \<open>Any number of calls of \<open>getNextEvent\<close>: the events handed out, and the list left.\<close>

fun getNextEvents :: "nat \<Rightarrow> schedulerEvent list \<Rightarrow> (tModbusEvent list \<times> schedulerEvent list) outcome" where
  "getNextEvents 0 evl = Ret ([], evl)"
| "getNextEvents (Suc n) evl =
     obind (getNextEvent evl) (\<lambda>(rc, ev, evl').
       case ev of None \<Rightarrow> Fault
       | Some e \<Rightarrow> obind (getNextEvents n evl') (\<lambda>(es, evl''). Ret (e # es, evl'')))"

lemma getNextEvent_step:
  "scheduler_ok (e # es) \<Longrightarrow>
     getNextEvent (e # es) = Ret (0, Some (event_of e), insertEventByDueDate (next_occurrence e) es)"
  by (simp add: getNextEvent_def queue_ok_Cons wf_event_def timespec_add_eq event_defs)

text \<open>The two conversions of this record of the model agree with the run of the queue.\<close>

lemma getNextEvents_fire:
  "scheduler_ok evl \<Longrightarrow> evl \<noteq> [] \<Longrightarrow>
     getNextEvents n evl = (case fire next_occurrence insertEventByDueDate n evl of
        (fs, q) \<Rightarrow> Ret (map event_of fs, q))"
proof (induction n arbitrary: evl)
  case (Suc n)
  then obtain e es where "evl = e # es" by (cases evl) auto
  with Suc.IH [OF sched.step_inv sched.requeue_not_Nil] Suc.prems(1) show ?case
    by (simp add: getNextEvent_step split: prod.splits)
qed simp

text \<open>The occurrence \<open>j\<close> periods after an event.\<close>

definition occurrence :: "nat \<Rightarrow> schedulerEvent \<Rightarrow> schedulerEvent" where
  "occurrence j e = e\<lparr>triggerTime := timespec_of_ns (due_of e + int j * period_of e)\<rparr>"

lemma next_occurrence_iter:
  assumes "wf_event e"
  shows "(next_occurrence ^^ j) e = occurrence j e"
proof (induction j)
  case 0
  then show ?case
    using assms by (simp add: occurrence_def due_of_def timespec_of_ns_of wf_event_def)
next
  case (Suc j)
  then show ?case
    by (simp add: occurrence_def next_occurrence_def due_of_def period_of_def algebra_simps)
qed

text \<open>Events for the witnesses: due and period in seconds, an action number.\<close>

definition demo_action :: "u16 \<Rightarrow> EModbusFunction \<Rightarrow> u16 \<Rightarrow> u32 \<Rightarrow> TModbusAction" where
  "demo_action ident fc cnt us = \<lparr>i16uActionID = ident, i8uSlaveAddress = 1, eFunctionCode = fc,
     i32uStartRegister = 1, i16uRegisterCount = cnt, i32uInterval_us = us,
     i32uStartByteProcessData = 10, i8uStartBitProcessData = 0,
     i32uStatusByteProcessImageOffset = 70, i32uResetStatusProcessImageByteOffset = 80,
     i8uResetStatusProcessImageBitOffset = 3\<rparr>"

definition demo_event :: "int \<Rightarrow> int \<Rightarrow> u16 \<Rightarrow> schedulerEvent" where
  "demo_event due_s period_s ident = \<lparr>intervalTime = \<lparr>tv_sec = period_s, tv_nsec = 0\<rparr>,
     triggerTime = \<lparr>tv_sec = due_s, tv_nsec = 0\<rparr>,
     ptModbusAction = demo_action ident eREAD_COILS 3 1000000\<rparr>"

lemmas demo_defs = demo_event_def demo_action_def wf_event_def wf_timespec_def due_of_def
  period_of_def ns_of_def

lemma demo_queue_ok: "scheduler_ok [demo_event 1 1 1, demo_event 2 3 2]"
  by (simp add: queue_ok_Cons demo_defs)

section \<open>Initialisation and intervals\<close>

definition first_due :: "timespec \<Rightarrow> schedulerEvent \<Rightarrow> bool" where
  "first_due now e \<longleftrightarrow> period_of e = 1000 * uint (i32uInterval_us (ptModbusAction e))
     \<and> due_of e = ns_of now + period_of e + 1000000000"

lemma interval_parts:
  fixes us :: u32
  shows "uint (us div 1000000) = uint us div 1000000"
    and "uint (us mod 1000000 * 1000) = uint us mod 1000000 * 1000"
    and "uint us div 1000000 \<le> 4294"
proof -
  have "uint us mod 1000000 * 1000 < 4294967296"
    using pos_mod_bound [of 1000000 "uint us"] by linarith
  then show "uint (us mod 1000000 * 1000) = uint us mod 1000000 * 1000"
    by (simp add: uint_word_ariths uint_mod)
  show "uint us div 1000000 \<le> 4294"
    using uint_lt2p [of us] by simp
qed (simp add: uint_div)

lemma newSchedulerEvent_Ret:
  assumes "wf_timespec now" "i32uInterval_us a \<noteq> 0"
  shows "\<exists>e. newSchedulerEvent now a = Ret e \<and> wf_event e \<and> first_due now e \<and> ptModbusAction e = a"
proof -
  let ?us = "uint (i32uInterval_us a)"
  let ?i = "\<lparr>tv_sec = ?us div 1000000, tv_nsec = ?us mod 1000000 * 1000\<rparr>"
  have pos: "0 < ?us"
    using assms(2) by (simp add: word_neq_0_conv word_less_def)
  have i: "wf_timespec ?i" "ns_of ?i = 1000 * ?us"
    using pos_mod_bound [of 1000000 ?us] pos_mod_sign [of 1000000 ?us] div_mult_mod_eq [of ?us 1000000]
    unfolding wf_timespec_def ns_of_def timespec.simps by linarith+
  have wf: "wf_timespec (t\<lparr>tv_sec := tv_sec t + 1\<rparr>) = wf_timespec t"
    "ns_of (t\<lparr>tv_sec := tv_sec t + 1\<rparr>) = ns_of t + 1000000000" for t :: timespec
    by (simp_all add: wf_timespec_def ns_of_def)
  show ?thesis
    using assms(1) i pos
    by (simp add: newSchedulerEvent_def interval_parts timespec_add_eq wf_event_def first_due_def
        period_of_def due_of_def wf Let_def)
qed

lemma cleanupScheduler_empties: "cleanupScheduler evl freed = ([], freed @ evl)"
  by (induction evl arbitrary: freed) simp_all

lemma initScheduler_loop_wp:
  assumes "wf_timespec now" "\<forall>a \<in> set acts. i32uInterval_us a \<noteq> 0" "scheduler_ok evl"
    "\<forall>e \<in> set evl. first_due now e"
  shows "wp (initScheduler_loop E now acts evl) (\<lambda>(rc, q) w'.
           (rc = -1 \<and> q = [] \<and> \<not> (\<forall>w. fst (malloc_ok E w)))
         \<or> (rc = 0 \<and> scheduler_ok q \<and> (\<forall>e \<in> set q. first_due now e)
            \<and> mset (map ptModbusAction q) = mset (map ptModbusAction evl) + mset acts)) w"
  using assms
proof (induction acts arbitrary: evl w)
  case Nil
  then show ?case by (simp add: wp_simps)
next
  case (Cons a acts)
  obtain e where e: "newSchedulerEvent now a = Ret e" "wf_event e" "first_due now e" "ptModbusAction e = a"
    using newSchedulerEvent_Ret Cons.prems by fastforce
  let ?q = "if evl = [] then [e] else insertEventByDueDate e evl"
  have "scheduler_ok ?q" "\<forall>x \<in> set ?q. first_due now x"
    and "mset (map ptModbusAction ?q) = add_mset a (mset (map ptModbusAction evl))"
    using Cons.prems e
    by (auto simp: insertEventByDueDate_ok queue_ok_Cons set_insertEventByDueDate
        mset_insertEventByDueDate)
  then have "wp (initScheduler_loop E now acts ?q) (\<lambda>(rc, q) w'.
           (rc = -1 \<and> q = [] \<and> \<not> (\<forall>w. fst (malloc_ok E w)))
         \<or> (rc = 0 \<and> scheduler_ok q \<and> (\<forall>e \<in> set q. first_due now e)
            \<and> mset (map ptModbusAction q) = mset (map ptModbusAction evl) + mset (a # acts))) v" for v
    using Cons.IH [of ?q v] Cons.prems by (auto elim!: wp_mono)
  then show ?case
    by (auto simp: wp_simps e cleanupScheduler_empties case_prod_unfold)
qed

lemma minimal_interval_loop:
  assumes "\<forall>e \<in> set evl. wf_event e" "wf_timespec m" "0 \<le> tv_sec m" "tv_sec m < 2 ^ 31"
  shows "\<exists>t. get_minimal_modbus_action_interval_loop m evl = Ret t
     \<and> (t = m \<or> t \<in> intervalTime ` set evl) \<and> ns_of t \<le> ns_of m \<and> (\<forall>e \<in> set evl. ns_of t \<le> period_of e)"
  using assms
proof (induction evl arbitrary: m)
  case (Cons e evl)
  obtain d where d: "timespec_diff (intervalTime e) m = Ret (to_i32 (tv_sec d), d)" "wf_timespec d"
    "ns_of d = period_of e - ns_of m"
    using timespec_diff_Ret Cons.prems by (fastforce simp: wf_event_def period_of_def)
  have i: "0 \<le> tv_sec (intervalTime e)" "tv_sec (intervalTime e) \<le> 4294" "wf_timespec (intervalTime e)"
    using Cons.prems(1) interval_nonneg by (simp_all add: wf_event_def)
  then have "- (2 ^ 31) \<le> tv_sec d" "tv_sec d < 2 ^ 31"
    using d(2,3) Cons.prems(2-4) unfolding wf_timespec_def ns_of_def period_of_def by simp_all
  then have sign: "to_i32 (tv_sec d) < 0 \<longleftrightarrow> period_of e < ns_of m"
    using d(3) ns_of_neg_iff [OF d(2)] by (simp add: to_i32_neg_iff)
  show ?case
    using Cons.IH [of "if period_of e < ns_of m then intervalTime e else m"] Cons.prems i
    by (auto simp: d(1) sign period_of_def split: if_splits)
qed simp

text \<open>
  Operations without rounding, for the demonstrations. What the offset amounts to with the rounding of
  \<^verbatim>\<open>double\<close> is shown in \<open>Bus_Load\<close>.
\<close>

definition exact_ops :: "real double_ops" where
  "exact_ops = \<lparr>d_zero = 0, d_one = 1, d_of_u64 = (\<lambda>x. real_of_int (uint x)), d_add = (+),
     d_div = (/), d_to_i64 = floor\<rparr>"

lemma c_div_mod_nonneg: "0 \<le> a \<Longrightarrow> 0 < b \<Longrightarrow> c_div a b = a div b \<and> c_mod a b = a mod b"
  by (auto simp: c_div_def c_mod_def minus_mult_div_eq_mod sgn_if)

lemma period_bounds: "wf_event e \<Longrightarrow> 0 < period_of e \<and> period_of e < 4295000000000"
  by (simp add: wf_event_def wf_timespec_def period_of_def ns_of_def)

section \<open>Properties\<close>

text \<open>
  Inserting an event into a list ordered by due date puts it behind every event that is due
  earlier or at the same time and before every event that is due later, and the list stays
  ordered and well formed: events with equal due dates keep the order of their insertion.
\<close>

lemma insertEventByDueDate_position:
  assumes "wf_event e" "scheduler_ok evl"
  shows "insertEventByDueDate e evl =
           takeWhile (\<lambda>x. due_of x \<le> due_of e) evl @ e # dropWhile (\<lambda>x. due_of x \<le> due_of e) evl
         \<and> scheduler_ok (insertEventByDueDate e evl)"
proof
  show "insertEventByDueDate e evl =
      takeWhile (\<lambda>x. due_of x \<le> due_of e) evl @ e # dropWhile (\<lambda>x. due_of x \<le> due_of e) evl"
    using assms by (induction evl) (auto simp: queue_ok_Cons due_before_event)
qed (use assms in \<open>rule insertEventByDueDate_ok\<close>)

lemma insertEventByDueDate_position_example:
  "insertEventByDueDate (demo_event 1 5 9) [demo_event 1 1 1, demo_event 2 3 2]
     = [demo_event 1 1 1, demo_event 1 5 9, demo_event 2 3 2]"
  using insertEventByDueDate_position [OF _ demo_queue_ok, of "demo_event 1 5 9"]
  by (simp add: demo_defs)

text \<open>
  Calling \<open>getNextEvent\<close> any number of times on a well-formed, non-empty list never
  aborts or fails: it hands out one event per call, in the order of their trigger times, none of
  them due later than an event still in the list, and the list stays ordered and keeps its length.
\<close>

lemma getNextEvent_order:
  assumes "scheduler_ok evl" "evl \<noteq> []"
  shows "\<exists>evs evl'. getNextEvents n evl = Ret (evs, evl') \<and> length evs = n
     \<and> sorted (map (\<lambda>v. ns_of (eventTriggerTime v)) evs)
     \<and> (\<forall>v \<in> set evs. \<forall>e \<in> set evl'. ns_of (eventTriggerTime v) \<le> due_of e)
     \<and> scheduler_ok evl' \<and> length evl' = length evl"
proof -
  obtain fs evl' where run: "fire next_occurrence insertEventByDueDate n evl = (fs, evl')"
    by fastforce
  have due: "ns_of (eventTriggerTime (event_of f)) = due_of f" for f
    by (simp add: event_of_def due_of_def)
  show ?thesis
    using getNextEvents_fire [OF assms] sched.fire_sorted [OF assms(1) run]
      sched.fire_inv [OF assms(1) run] sched.fire_length [OF assms(2), of n] run
    by (simp add: due comp_def)
qed

lemma getNextEvent_order_witness:
  "\<exists>evs evl'. getNextEvents 4 [demo_event 1 1 1, demo_event 2 3 2] = Ret (evs, evl')
     \<and> sorted (map (\<lambda>v. ns_of (eventTriggerTime v)) evs) \<and> length evs = 4"
  using getNextEvent_order [OF demo_queue_ok, of 4] by auto

text \<open>
  C21: The scheduler does not drift: after \<open>n\<close> calls there are counts \<open>k i\<close> adding up to \<open>n\<close>
  such that event \<open>i\<close> of the original list has been handed out exactly with the trigger times
  \<open>due + j * period\<close> for \<open>j < k i\<close>, and is queued with \<open>due + k i * period\<close>; no event is lost,
  duplicated or shifted by late execution.
\<close>

theorem getNextEvent_no_drift:
  assumes "scheduler_ok evl" "evl \<noteq> []"
  shows "\<exists>evs evl' k. getNextEvents n evl = Ret (evs, evl') \<and> (\<Sum>i<length evl. k i) = n
     \<and> mset evs = (\<Sum>i<length evl. mset (map (\<lambda>j. event_of (occurrence j (evl ! i))) [0..<k i]))
     \<and> mset evl' = (\<Sum>i<length evl. {#occurrence (k i) (evl ! i)#})"
proof -
  obtain fs evl' where run: "fire next_occurrence insertEventByDueDate n evl = (fs, evl')"
    by fastforce
  obtain k where k: "(\<Sum>i<length evl. k i) = n" "mset fs = sched.fired_occurrences evl k"
    "mset evl' = sched.queued_occurrences evl k"
    using sched.fire_conserves [OF assms(2), of n] run by auto
  have iter: "i < length evl \<Longrightarrow> (next_occurrence ^^ j) (evl ! i) = occurrence j (evl ! i)" for i j
    using assms(1) by (simp add: next_occurrence_iter queue_ok_def)
  have "mset (map event_of fs)
      = (\<Sum>i<length evl. image_mset event_of (mset (map (\<lambda>j. (next_occurrence ^^ j) (evl ! i)) [0..<k i])))"
    by (simp add: k(2) sched.fired_occurrences_def image_mset_sum del: mset_upt)
  also have "\<dots> = (\<Sum>i<length evl. mset (map (\<lambda>j. event_of (occurrence j (evl ! i))) [0..<k i]))"
    by (rule sum.cong) (simp_all add: iter comp_def multiset.map_comp del: mset_upt)
  finally show ?thesis
    using k(1,3) getNextEvents_fire [OF assms, of n] run iter
    by (intro exI [of _ "map event_of fs"] exI [of _ evl'] exI [of _ k])
       (simp add: sched.queued_occurrences_def)
qed

theorem getNextEvent_no_drift_witness:
  "\<exists>evs evl' k. getNextEvents 5 [demo_event 1 1 1, demo_event 2 3 2] = Ret (evs, evl')
     \<and> k 0 + k (Suc 0) = (5::nat)
     \<and> mset evl' = {#occurrence (k (Suc 0)) (demo_event 2 3 2), occurrence (k 0) (demo_event 1 1 1)#}"
  using getNextEvent_no_drift [OF demo_queue_ok, of 5] by auto

text \<open>
  C22: No action starves: an event of the list is handed out within as many calls as there are
  occurrences, over all events of the list, that are due no later than it.
\<close>

theorem getNextEvent_no_starvation:
  assumes "scheduler_ok evl" "e \<in> set evl"
    and "sum_list (map (\<lambda>x. occurrences_until (due_of e) (due_of x) (period_of x)) evl) \<le> n"
  shows "\<exists>evs evl'. getNextEvents n evl = Ret (evs, evl') \<and> event_of e \<in> set evs"
proof -
  have "evl \<noteq> []" using assms(2) by auto
  moreover have "e \<in> set (fst (fire next_occurrence insertEventByDueDate n evl))"
    using sched.fire_no_starvation assms by (simp add: sched.backlog_def)
  ultimately show ?thesis
    using getNextEvents_fire [OF assms(1), of n] by (auto split: prod.splits)
qed

theorem getNextEvent_no_starvation_witness:
  "\<exists>evs evl'. getNextEvents 3 [demo_event 1 1 1, demo_event 2 3 2] = Ret (evs, evl')
     \<and> event_of (demo_event 2 3 2) \<in> set evs"
  by (rule getNextEvent_no_starvation [OF demo_queue_ok])
     (simp_all add: demo_defs occurrences_until_def)

text \<open>
  Initialising the scheduler either fails with \<open>-1\<close> (the action list is empty, or an
  allocation failed, and then the event list is left empty), or returns \<open>0\<close> with a well-formed
  list, ordered by due date, that holds exactly one event per action, whose period is the action's
  interval and whose first trigger time is now plus the interval plus one second. With a non-empty
  action list and enough memory it succeeds. It never aborts.
\<close>

lemma initScheduler_result:
  assumes "\<forall>w. wf_timespec (fst (clock_gettime E w))" "\<forall>a \<in> set actions. i32uInterval_us a \<noteq> 0"
  shows "wp (initScheduler E actions evl) (\<lambda>(rc, q) w'.
           if actions = [] then rc = -1 \<and> q = evl
           else (rc = -1 \<and> q = [] \<and> \<not> (\<forall>w. fst (malloc_ok E w)))
              \<or> (rc = 0 \<and> scheduler_ok q \<and> mset (map ptModbusAction q) = mset actions
                 \<and> (\<forall>e \<in> set q. first_due (fst (clock_gettime E w)) e))) w"
proof (cases "actions = []")
  case True
  then show ?thesis by (simp add: initScheduler_def wp_simps)
next
  case False
  obtain now w1 where c: "clock_gettime E w = (now, w1)" by fastforce
  then have "wf_timespec now" using assms(1) by (metis fst_conv)
  from initScheduler_loop_wp [OF this assms(2), of "[]" E w1] show ?thesis
    using False by (auto simp: initScheduler_def wp_simps c elim!: wp_mono)
qed

lemma initScheduler_result_example:
  "wp (initScheduler plant_env [demo_action 1 eREAD_COILS 3 500000, demo_action 2 eREAD_COILS 3 200000] [])
     (\<lambda>(rc, q) w'. (rc = -1 \<and> q = [] \<and> \<not> (\<forall>w. fst (malloc_ok plant_env w)))
        \<or> (rc = 0 \<and> scheduler_ok q \<and> mset (map ptModbusAction q)
             = {#demo_action 1 eREAD_COILS 3 500000, demo_action 2 eREAD_COILS 3 200000#}
           \<and> (\<forall>e \<in> set q. first_due \<lparr>tv_sec = 0, tv_nsec = 0\<rparr> e))) plant0"
  using initScheduler_result [of plant_env
      "[demo_action 1 eREAD_COILS 3 500000, demo_action 2 eREAD_COILS 3 200000]" "[]" plant0]
  by (auto simp: plant_clock_wf demo_action_def plant_env_def plant0_def wf_timespec_def elim!: wp_mono)

text \<open>
  The minimal action interval of a well-formed, non-empty event list is the interval of one
  of its events and no event has a shorter one; computing it never aborts, and the truncation of
  \<^verbatim>\<open>timespec_diff\<close> to \<^verbatim>\<open>int32_t\<close> never changes the sign that decides it.
\<close>

lemma get_minimal_modbus_action_interval_min:
  assumes "scheduler_ok evl" "evl \<noteq> []"
  shows "\<exists>t. get_minimal_modbus_action_interval evl = Ret t \<and> t \<in> intervalTime ` set evl
     \<and> (\<forall>e \<in> set evl. ns_of t \<le> period_of e)"
proof -
  let ?m = "\<lparr>tv_sec = 2147483647, tv_nsec = s32_nanoseconds_per_second - 1\<rparr>"
  have wf: "\<forall>e \<in> set evl. wf_event e"
    using assms(1) by (simp add: queue_ok_def)
  obtain e where e: "e \<in> set evl" using assms(2) by (cases evl) auto
  then have "period_of e < ns_of ?m"
    using wf by (auto simp: wf_event_def period_of_def time_defs)
  then show ?thesis
    using minimal_interval_loop [OF wf, of ?m] e
    by (fastforce simp: get_minimal_modbus_action_interval_def time_defs)
qed

lemma get_minimal_modbus_action_interval_min_witness:
  "get_minimal_modbus_action_interval [demo_event 1 1 1, demo_event 2 3 2]
     = Ret \<lparr>tv_sec = 1, tv_nsec = 0\<rparr>"
  using get_minimal_modbus_action_interval_min [OF demo_queue_ok] by (auto simp: demo_defs)

end
