(* ===== verification/Bus_Load.thy ===== *)
theory Bus_Load
  imports Scheduler
begin

text \<open>
  What the minimal offset between two actions of a TCP master is for: the share of the time that the
  offsets of all actions fill, \<^verbatim>\<open>get_minimal_modbus_event_offset\<close> of \<^verbatim>\<open>src/src/Scheduler.c\<close>, with
  the rounding of its computation in \<^verbatim>\<open>double\<close>.
\<close>

section \<open>Rounding\<close>

text \<open>
  What IEEE 754 says of binary64 and rounding to nearest, as far as the scheduler needs it:
  \<open>val\<close> is the number that a finite \<^verbatim>\<open>double\<close> stands for, and \<open>None\<close> for the others. Integers below
  \<open>2 ^ 53\<close> are converted exactly; a sum of non-negative numbers and a quotient, as long as they are far
  from overflow and underflow, have a relative error of at most \<open>2 ^ -53\<close>; the conversion to an
  integer cuts off the fraction.
\<close>

definition roundoff :: real where "roundoff = 1 / 2 ^ 53"

definition ieee_laws :: "'d double_ops \<Rightarrow> ('d \<Rightarrow> real option) \<Rightarrow> bool" where
  "ieee_laws D val \<longleftrightarrow>
     val (d_zero D) = Some 0 \<and> val (d_one D) = Some 1
   \<and> (\<forall>n. uint n < 2 ^ 53 \<longrightarrow> val (d_of_u64 D n) = Some (real_of_int (uint n)))
   \<and> (\<forall>a b x y. val a = Some x \<and> val b = Some y \<and> 0 \<le> x \<and> 0 \<le> y \<and> x + y \<le> 2 ^ 1000 \<longrightarrow>
        (\<exists>z. val (d_add D a b) = Some z \<and> \<bar>z - (x + y)\<bar> \<le> roundoff * (x + y)))
   \<and> (\<forall>a b x y. val a = Some x \<and> val b = Some y \<and> 0 < x \<and> 0 < y \<and> 1 / 2 ^ 1000 \<le> x / y \<and> x / y \<le> 2 ^ 1000 \<longrightarrow>
        (\<exists>z. val (d_div D a b) = Some z \<and> \<bar>z - x / y\<bar> \<le> roundoff * (x / y)))
   \<and> (\<forall>a x. val a = Some x \<and> 0 \<le> x \<and> x < 2 ^ 63 \<longrightarrow> d_to_i64 D a = \<lfloor>x\<rfloor>)"

lemma roundoff_bounds: "0 < roundoff" "roundoff < 1" "0 \<le> 1 - roundoff"
  by (simp_all add: roundoff_def)

lemma exact_ieee: "ieee_laws exact_ops Some"
  by (simp add: ieee_laws_def exact_ops_def roundoff_def)

lemma ieee_quotient:
  assumes "ieee_laws D val" "val a = Some 1" "val b = Some y" "1 / 2 ^ 100 \<le> y" "y \<le> 2 ^ 100"
  shows "\<exists>z. val (d_div D a b) = Some z \<and> (1 - roundoff) / y \<le> z \<and> z \<le> (1 + roundoff) / y"
proof -
  have y: "0 < y" using assms(4) by (rule less_le_trans [rotated]) simp
  have "1 / 2 ^ 1000 \<le> 1 / (2 ^ 100 :: real)" by simp
  also have "\<dots> \<le> 1 / y" using y assms(5) by (simp add: frac_le)
  finally have lower: "1 / 2 ^ 1000 \<le> 1 / y" .
  have "1 / y \<le> 2 ^ 100"
    using y assms(4) by (simp add: field_simps)
  also have "\<dots> \<le> (2 ^ 1000 :: real)" by simp
  finally obtain z where "val (d_div D a b) = Some z" "\<bar>z - 1 / y\<bar> \<le> roundoff * (1 / y)"
    using assms(1-3) y lower unfolding ieee_laws_def by (metis zero_less_one)
  then show ?thesis
    by (auto simp: abs_le_iff diff_divide_distrib add_divide_distrib)
qed

lemma ieee_sum:
  assumes "ieee_laws D val" "val a = Some x" "val b = Some y" "0 \<le> x" "0 \<le> y" "x \<le> 2 ^ 100" "y \<le> 2 ^ 100"
  shows "\<exists>z. val (d_add D a b) = Some z \<and> (1 - roundoff) * (x + y) \<le> z \<and> z \<le> (1 + roundoff) * (x + y)"
proof -
  have "x + y \<le> 2 ^ 100 + 2 ^ 100" using assms(6,7) by (rule add_mono)
  also have "\<dots> \<le> (2 ^ 1000 :: real)" by simp
  finally obtain z where "val (d_add D a b) = Some z" "\<bar>z - (x + y)\<bar> \<le> roundoff * (x + y)"
    using assms(1-5) unfolding ieee_laws_def by metis
  then show ?thesis
    by (auto simp: abs_le_iff algebra_simps)
qed

text \<open>Powers of the rounding error, by the inequality of Bernoulli.\<close>

lemma rounded_down: "real k * roundoff \<le> 1 \<Longrightarrow> 1 - real k * roundoff \<le> (1 - roundoff) ^ k"
  using Bernoulli_inequality [of "- roundoff" k] roundoff_bounds by simp

lemma rounded_up: "(1 + roundoff) ^ k * (1 - roundoff) ^ k \<le> 1"
proof -
  have "(1 + roundoff) * (1 - roundoff) \<le> 1"
    by (simp add: algebra_simps)
  then show ?thesis
    unfolding power_mult_distrib [symmetric] using roundoff_bounds by (intro power_le_one) simp_all
qed

lemma rounded_up_twice: "2 * (real k * roundoff) \<le> 1 \<Longrightarrow> (1 + roundoff) ^ k \<le> 2"
proof -
  assume "2 * (real k * roundoff) \<le> 1"
  then have "1 / 2 \<le> (1 - roundoff) ^ k"
    using rounded_down [of k] by linarith
  then have "(1 + roundoff) ^ k * (1 / 2) \<le> (1 + roundoff) ^ k * (1 - roundoff) ^ k"
    using roundoff_bounds by (intro mult_left_mono) simp_all
  then show ?thesis
    using rounded_up [of k] by linarith
qed

lemma rounded_period:
  assumes "ieee_laws D val" "wf_event e"
  shows "\<exists>z. val (d_div D (d_one D) (d_of_u64 D (word_of_int (tv_nsec (intervalTime e)
           + tv_sec (intervalTime e) * s32_nanoseconds_per_second)))) = Some z
     \<and> (1 - roundoff) * (1 / real_of_int (period_of e)) \<le> z
     \<and> z \<le> (1 + roundoff) * (1 / real_of_int (period_of e))"
proof -
  define n where "n = (word_of_int (tv_nsec (intervalTime e) + tv_sec (intervalTime e) * s32_nanoseconds_per_second) :: u64)"
  have p: "0 < period_of e" "period_of e < 4295000000000"
    using period_bounds [OF assms(2)] by simp_all
  have "tv_nsec (intervalTime e) + tv_sec (intervalTime e) * s32_nanoseconds_per_second = period_of e"
    by (simp add: period_of_def ns_of_def s32_nanoseconds_per_second_def)
  then have n: "uint n = period_of e"
    using p unfolding n_def by (simp add: uint_word_of_int_eq take_bit_int_eq_self del: of_int_uint)
  have "uint n < 2 ^ 53"
    using n p by simp
  then have "val (d_of_u64 D n) = Some (real_of_int (uint n))" "val (d_one D) = Some 1"
    using assms(1) unfolding ieee_laws_def by blast+
  then have "val (d_of_u64 D n) = Some (real_of_int (period_of e))" "val (d_one D) = Some 1"
    unfolding n by simp_all
  moreover have "1 / 2 ^ 100 \<le> real_of_int (period_of e)" "real_of_int (period_of e) \<le> 2 ^ 100"
    using p by (simp_all add: order_trans [of "1 / 2 ^ 100" 1])
  ultimately show ?thesis
    using ieee_quotient [OF assms(1), of "d_one D" "d_of_u64 D n" "real_of_int (period_of e)"]
    by (simp add: n_def)
qed

definition load_per_ns :: "schedulerEvent list \<Rightarrow> real" where
  "load_per_ns evl = (\<Sum>e\<leftarrow>evl. 1 / real_of_int (period_of e))"

lemma inverse_mean_time_rounded:
  assumes "ieee_laws D val" "\<forall>e \<in> set evl. wf_event e"
    and "val acc = Some a" "(1 - roundoff) ^ Suc k * A \<le> a" "a \<le> (1 + roundoff) ^ Suc k * A" "0 \<le> A"
    and "A + real (length evl) \<le> 2 ^ 31" "2 * (real (Suc k + length evl) * roundoff) \<le> 1"
  shows "\<exists>t. val (inverse_mean_time D evl acc) = Some t
     \<and> (1 - roundoff) ^ (Suc k + length evl) * (A + load_per_ns evl) \<le> t
     \<and> t \<le> (1 + roundoff) ^ (Suc k + length evl) * (A + load_per_ns evl)"
  using assms(2-)
proof (induction evl arbitrary: acc a k A)
  case Nil
  then show ?case by (simp add: load_per_ns_def)
next
  case (Cons e evl)
  let ?p = "1 / real_of_int (period_of e)"
  obtain z where z: "val (d_div D (d_one D) (d_of_u64 D (word_of_int (tv_nsec (intervalTime e)
      + tv_sec (intervalTime e) * s32_nanoseconds_per_second)))) = Some z" "(1 - roundoff) * ?p \<le> z" "z \<le> (1 + roundoff) * ?p"
    using rounded_period [OF assms(1)] Cons.prems(1) by fastforce
  have p: "0 \<le> ?p" "?p \<le> 1"
    using period_bounds [of e] Cons.prems(1) by simp_all
  have k: "2 * (real (Suc k) * roundoff) \<le> 1"
  proof -
    have "real (Suc k) * roundoff \<le> real (Suc k + length (e # evl)) * roundoff"
      using roundoff_bounds(1) by (intro mult_right_mono) simp_all
    with Cons.prems(7) show ?thesis by linarith
  qed
  have a: "0 \<le> a"
    using Cons.prems(3,5) roundoff_bounds(3) by (meson mult_nonneg_nonneg order_trans zero_le_power)
  have zb: "0 \<le> z" "z \<le> 2"
    using z(2,3) p roundoff_bounds mult_nonneg_nonneg [OF roundoff_bounds(3) p(1)]
      mult_mono [of "1 + roundoff" 2 ?p 1] by linarith+
  have "(1 + roundoff) ^ Suc k * A \<le> 2 * 2 ^ 31"
    using rounded_up_twice [OF k] Cons.prems(5,6) by (intro mult_mono) simp_all
  then have big: "a \<le> 2 ^ 100" "z \<le> 2 ^ 100"
    using Cons.prems(4) zb by simp_all
  from ieee_sum [OF assms(1) Cons.prems(2) z(1) a zb(1) big] obtain s where
    s: "val (d_add D acc (d_div D (d_one D) (d_of_u64 D (word_of_int (tv_nsec (intervalTime e)
      + tv_sec (intervalTime e) * s32_nanoseconds_per_second))))) = Some s"
      "(1 - roundoff) * (a + z) \<le> s" "s \<le> (1 + roundoff) * (a + z)" by blast
  have "(1 - roundoff) ^ Suc k * ?p \<le> (1 - roundoff) ^ 1 * ?p"
    using p roundoff_bounds by (intro mult_right_mono power_decreasing) simp_all
  then have "(1 - roundoff) ^ Suc k * (A + ?p) \<le> a + z"
    using Cons.prems(3) z(2) by (simp add: distrib_left del: power_Suc)
  then have "(1 - roundoff) * ((1 - roundoff) ^ Suc k * (A + ?p)) \<le> (1 - roundoff) * (a + z)"
    using roundoff_bounds(3) by (rule mult_left_mono)
  then have low: "(1 - roundoff) ^ Suc (Suc k) * (A + ?p) \<le> s"
    using s(2) by (simp add: mult.assoc)
  have "(1 + roundoff) ^ 1 * ?p \<le> (1 + roundoff) ^ Suc k * ?p"
    using p roundoff_bounds by (intro mult_right_mono power_increasing) simp_all
  then have "a + z \<le> (1 + roundoff) ^ Suc k * (A + ?p)"
    using Cons.prems(4) z(3) by (simp add: distrib_left del: power_Suc)
  then have "(1 + roundoff) * (a + z) \<le> (1 + roundoff) * ((1 + roundoff) ^ Suc k * (A + ?p))"
    using roundoff_bounds by (intro mult_left_mono) simp_all
  then have up: "s \<le> (1 + roundoff) ^ Suc (Suc k) * (A + ?p)"
    using s(3) by (simp add: mult.assoc)
  have "A + ?p + real (length evl) \<le> 2 ^ 31"
    using Cons.prems(6) p(2) by simp
  moreover have "2 * (real (Suc (Suc k) + length evl) * roundoff) \<le> 1"
    using Cons.prems(7) by simp
  ultimately show ?case
    using Cons.IH [OF _ s(1) low up] Cons.prems(1,5) p(1)
    by (auto simp: load_per_ns_def add.assoc Let_def)
qed


section \<open>The load of the bus\<close>

lemma load_lower:
  "\<forall>x \<in> set evl. wf_event x \<Longrightarrow> e \<in> set evl \<Longrightarrow> 1 / real_of_int (period_of e) \<le> load_per_ns evl"
  unfolding load_per_ns_def
  by (rule member_le_sum_list) (auto intro!: less_imp_le simp: period_bounds)

lemma load_scale: "(\<Sum>e\<leftarrow>evl. r / real_of_int (period_of e)) = r * load_per_ns evl"
  unfolding load_per_ns_def by (simp add: sum_list_const_mult [symmetric])

lemma load_upper: "\<forall>x \<in> set evl. wf_event x \<Longrightarrow> load_per_ns evl \<le> real (length evl)"
proof (induction evl)
  case (Cons e evl)
  then have "1 / real_of_int (period_of e) \<le> 1"
    using period_bounds [of e] by simp
  with Cons show ?case by (simp add: load_per_ns_def)
qed (simp add: load_per_ns_def)

text \<open>A quotient by \<open>t\<close>, which is \<open>S\<close> up to \<open>k\<close> roundings, times \<open>S\<close>: one up to rounding.\<close>

lemma rounded_product_upper:
  assumes "0 < S" "(1 - roundoff) ^ k * S \<le> t" "M \<le> (1 + roundoff) / t" "2 * (real (Suc k) * roundoff) \<le> 1"
  shows "M * S \<le> 1 + 2 * real (Suc k) * roundoff"
proof -
  define r where "r = real k * roundoff"
  have r: "0 \<le> r" "r \<le> 1 / 2" "1 - r \<le> (1 - roundoff) ^ k"
    using assms(4) roundoff_bounds rounded_down [of k] by (simp_all add: r_def algebra_simps)
  have "(1 - r) * S \<le> t"
    using mult_right_mono [OF r(3), of S] assms(1,2) by linarith
  moreover have "0 < (1 - r) * S"
    using r assms(1) by simp
  ultimately have "0 < t" "S \<le> t / (1 - r)"
    using r by (simp_all add: pos_le_divide_eq mult.commute)
  then have t: "0 < t" "S / t \<le> 1 / (1 - r)"
    by (simp_all add: pos_divide_le_eq)
  have "M * S \<le> (1 + roundoff) / t * S"
    using assms(1,3) by (intro mult_right_mono) simp_all
  also have "\<dots> \<le> (1 + roundoff) * (1 / (1 - r))"
    using t(2) roundoff_bounds by (simp add: mult_left_mono flip: times_divide_eq_right)
  also have "\<dots> \<le> 1 + 2 * real (Suc k) * roundoff"
  proof -
    have "2 * r * (r + roundoff) \<le> 1 * (r + roundoff)"
      using r roundoff_bounds by (intro mult_right_mono) simp_all
    then have "1 + roundoff \<le> (1 + 2 * (r + roundoff)) * (1 - r)"
      by (simp add: algebra_simps)
    then have "(1 + roundoff) / (1 - r) \<le> 1 + 2 * (r + roundoff)"
      using r by (simp add: pos_divide_le_eq)
    moreover have "2 * real (Suc k) * roundoff = 2 * (r + roundoff)"
      by (simp add: r_def algebra_simps)
    ultimately show ?thesis by simp
  qed
  finally show ?thesis .
qed

lemma rounded_product_lower:
  assumes "0 < S" "0 < t" "t \<le> (1 + roundoff) ^ k * S" "(1 - roundoff) / t \<le> M" "real (Suc k) * roundoff \<le> 1"
  shows "1 - real (Suc k) * roundoff \<le> M * S"
proof -
  have "(1 - roundoff) ^ k * t \<le> (1 - roundoff) ^ k * ((1 + roundoff) ^ k * S)"
    using assms(3) roundoff_bounds by (intro mult_left_mono) simp_all
  also have "\<dots> \<le> 1 * S"
    unfolding mult.assoc [symmetric] using rounded_up [of k] assms(1)
    by (intro mult_right_mono) (simp_all add: mult.commute)
  finally have "(1 - roundoff) ^ k \<le> S / t"
    using assms(2) by (simp add: pos_le_divide_eq)
  then have "(1 - roundoff) * (1 - roundoff) ^ k \<le> (1 - roundoff) * (S / t)"
    using roundoff_bounds(3) by (rule mult_left_mono)
  also have "\<dots> = (1 - roundoff) / t * S" by simp
  also have "\<dots> \<le> M * S"
    using assms(1,4) by (intro mult_right_mono) simp_all
  finally show ?thesis
    using rounded_down [OF assms(5)] by simp
qed

lemma load_bounds:
  assumes "\<forall>e \<in> set evl. wf_event e" "evl \<noteq> []"
  shows "1 / 4295000000000 \<le> load_per_ns evl" "load_per_ns evl \<le> real (length evl)"
proof -
  obtain e where e: "e \<in> set evl" using assms(2) by (cases evl) auto
  then have p: "0 < period_of e" "period_of e < 4295000000000"
    using period_bounds assms(1) by blast+
  then have "1 / 4295000000000 \<le> 1 / real_of_int (period_of e)"
    by (intro divide_left_mono) simp_all
  then show "1 / 4295000000000 \<le> load_per_ns evl"
    using load_lower [OF assms(1) e] by linarith
qed (rule load_upper [OF assms(1)])

text \<open>The mean time between events, as it is computed.\<close>

lemma mean_time_rounded:
  assumes "ieee_laws D val" "scheduler_ok evl" "evl \<noteq> []" "length evl < 2 ^ 31"
  shows "\<exists>M. val (d_div D (d_one D) (inverse_mean_time D evl (d_zero D))) = Some M \<and> 0 \<le> M \<and> M \<le> 17180000000000
     \<and> M * load_per_ns evl \<le> 1 + 2 * real (length evl + 2) * roundoff
     \<and> 1 - real (length evl + 2) * roundoff \<le> M * load_per_ns evl"
proof -
  have wf: "\<forall>e \<in> set evl. wf_event e"
    using assms(2) by (simp add: queue_ok_def)
  let ?S = "load_per_ns evl" and ?k = "Suc (length evl)"
  have S: "1 / 4295000000000 \<le> ?S" "?S \<le> real (length evl)" "?S \<le> 2 ^ 31"
    using load_bounds [OF wf assms(3)] assms(4) by simp_all
  then have S0: "0 < ?S" by (simp add: less_le_trans [of 0 "1 / 4295000000000"])
  have k: "2 * (real (Suc ?k) * roundoff) \<le> 1" "2 * (real ?k * roundoff) \<le> 1" "real (Suc ?k) * roundoff \<le> 1"
    using assms(4) by (simp_all add: roundoff_def)
  have "val (d_zero D) = Some 0" "val (d_one D) = Some 1"
    using assms(1) by (simp_all add: ieee_laws_def)
  moreover have "0 + real (length evl) \<le> 2 ^ 31"
    using assms(4) by simp
  ultimately obtain t where t: "val (inverse_mean_time D evl (d_zero D)) = Some t"
      "(1 - roundoff) ^ ?k * ?S \<le> t" "t \<le> (1 + roundoff) ^ ?k * ?S"
    using inverse_mean_time_rounded [OF assms(1) wf, of "d_zero D" 0 0 0] k(2) by auto
  have "(1 - roundoff) ^ ?k \<ge> 1 / 2"
    using rounded_down [of ?k] k(2) by linarith
  then have "1 / 2 * ?S \<le> (1 - roundoff) ^ ?k * ?S"
    using S0 by (intro mult_right_mono) simp_all
  then have t_low: "1 / 8590000000000 \<le> t"
    using S(1) t(2) by linarith
  then have t0: "0 < t" by (simp add: less_le_trans [of 0 "1 / 8590000000000"])
  have "(1 + roundoff) ^ ?k * ?S \<le> 2 * 2 ^ 31"
    using rounded_up_twice [OF k(2)] S(3) S0 by (intro mult_mono) simp_all
  then have range: "1 / 2 ^ 100 \<le> t" "t \<le> 2 ^ 100"
    using t(3) t_low by simp_all
  obtain M where M: "val (d_div D (d_one D) (inverse_mean_time D evl (d_zero D))) = Some M"
      "(1 - roundoff) / t \<le> M" "M \<le> (1 + roundoff) / t"
    using ieee_quotient [OF assms(1) _ t(1) range] \<open>val (d_one D) = Some 1\<close> by blast
  have "0 \<le> (1 - roundoff) / t"
    using t0 roundoff_bounds by simp
  then have M0: "0 \<le> M" using M(2) by linarith
  have "(1 + roundoff) / t \<le> 2 / (1 / 8590000000000)"
    using t_low t0 roundoff_bounds by (intro frac_le) simp_all
  then have M_up: "M \<le> 17180000000000" using M(3) by simp
  show ?thesis
    using M(1) M0 M_up rounded_product_upper [OF S0 t(2) M(3) k(1)] rounded_product_lower [OF S0 t0 t(3) M(2) k(3)]
    by simp
qed

text \<open>
  C40: The minimal offset between two modbus actions, computed with the rounding of \<^verbatim>\<open>double\<close>, is a
  normalised, non-negative time and fills a quarter of the time up to rounding: executing each action
  of the list once per interval, with the offset spent on each execution, takes at most a quarter of the
  time, give or take \<open>(n + 2) / 2 ^ 54\<close> for \<open>n\<close> actions, and an offset that is longer by a
  nanosecond would take at least a quarter, give or take half of that.
\<close>

theorem get_minimal_modbus_event_offset_load:
  assumes "ieee_laws D val" "scheduler_ok evl" "evl \<noteq> []" "length evl < 2 ^ 31"
  shows "wf_timespec (get_minimal_modbus_event_offset D evl)
     \<and> 0 \<le> ns_of (get_minimal_modbus_event_offset D evl)
     \<and> (\<Sum>e\<leftarrow>evl. real_of_int (ns_of (get_minimal_modbus_event_offset D evl)) / real_of_int (period_of e))
          \<le> 1 / 4 + real (length evl + 2) / 2 ^ 54
     \<and> 1 / 4 - real (length evl + 2) / 2 ^ 55
          \<le> (\<Sum>e\<leftarrow>evl. real_of_int (ns_of (get_minimal_modbus_event_offset D evl) + 1) / real_of_int (period_of e))"
proof -
  let ?S = "load_per_ns evl"
  have "\<forall>e \<in> set evl. wf_event e"
    using assms(2) by (simp add: queue_ok_def)
  then have S0: "0 < ?S"
    using load_bounds(1) [OF _ assms(3)] by (simp add: less_le_trans [of 0 "1 / 4295000000000"])
  obtain M where M: "val (d_div D (d_one D) (inverse_mean_time D evl (d_zero D))) = Some M" "0 \<le> M" "M \<le> 17180000000000"
      "M * ?S \<le> 1 + 2 * real (length evl + 2) * roundoff" "1 - real (length evl + 2) * roundoff \<le> M * ?S"
    using mean_time_rounded [OF assms] by blast
  define q where "q = \<lfloor>M\<rfloor> div 4"
  have "d_to_i64 D (d_div D (d_one D) (inverse_mean_time D evl (d_zero D))) = \<lfloor>M\<rfloor>"
    using assms(1) M(1-3) unfolding ieee_laws_def by force
  moreover have q: "0 \<le> q" "q \<le> 4295000000000" "4 * real_of_int q \<le> M" "M \<le> 4 * real_of_int (q + 1)"
    using M(2,3) by (simp_all add: q_def pos_imp_zdiv_nonneg_iff) linarith+
  have "0 \<le> q div 1000000000" "q div 1000000000 < 4296" "0 \<le> q mod 1000000000" "q mod 1000000000 < 1000000000"
    using q(1,2) by (simp_all add: pos_imp_zdiv_nonneg_iff)
  then have i32: "to_i32 (c_div q 1000000000) = q div 1000000000" "to_i32 (c_mod q 1000000000) = q mod 1000000000"
    using q(1) by (simp_all add: c_div_mod_nonneg to_i32_id)
  ultimately have offset: "get_minimal_modbus_event_offset D evl = timespec_of_ns q"
    by (simp add: get_minimal_modbus_event_offset_def timespec_of_ns_def s32_nanoseconds_per_second_def Let_def
        flip: q_def)
  have "4 * real_of_int q * ?S \<le> M * ?S"
    using q(3) S0 by (intro mult_right_mono) simp_all
  then have upper: "real_of_int q * ?S \<le> 1 / 4 + real (length evl + 2) / 2 ^ 54"
    using M(4) by (simp add: roundoff_def field_simps)
  have "M * ?S \<le> 4 * real_of_int (q + 1) * ?S"
    using q(4) S0 by (intro mult_right_mono) simp_all
  then have lower: "1 / 4 - real (length evl + 2) / 2 ^ 55 \<le> real_of_int (q + 1) * ?S"
    using M(5) by (simp add: roundoff_def field_simps)
  show ?thesis
    using q(1) upper lower by (simp add: offset load_scale del: of_int_add)
qed

text \<open>Operations whose division is off by the full rounding error, downwards below 1 and upwards above.\<close>

definition biased_ops :: "real double_ops" where
  "biased_ops = exact_ops\<lparr>d_div := \<lambda>a b. if a / b < 1 then (1 - roundoff) * (a / b) else (1 + roundoff) * (a / b)\<rparr>"

lemma biased_ieee: "ieee_laws biased_ops Some"
  by (auto simp: ieee_laws_def biased_ops_def exact_ops_def roundoff_def abs_le_iff algebra_simps)

theorem get_minimal_modbus_event_offset_load_witness:
  "(\<Sum>e\<leftarrow>[demo_event 1 1 1, demo_event 2 3 2].
      real_of_int (ns_of (get_minimal_modbus_event_offset biased_ops [demo_event 1 1 1, demo_event 2 3 2]))
        / real_of_int (period_of e)) \<le> 1 / 4 + 4 / 2 ^ 54"
  using get_minimal_modbus_event_offset_load [OF biased_ieee demo_queue_ok] by simp

end
