(* ===== verification/ComAndDataProcessor.thy ===== *)
theory ComAndDataProcessor
  imports External Scheduler
begin

text \<open>
  Processing of one modbus action, \<^verbatim>\<open>src/src/ComAndDataProcessor.c\<close>: the master sends the
  request of the action and moves the data between its buffer and the process image. One
  definition per \<^verbatim>\<open>case\<close> of the switch; each yields \<open>len\<close>, \<open>successful\<close> and the buffer as the C
  variables stand when the switch is left. The global mutex is locked around the whole action.
\<close>

section \<open>Status bytes\<close>

definition writeErrorMessage :: "'w env \<Rightarrow> u32 \<Rightarrow> u8 \<Rightarrow> ('w, int) prog" where
  "writeErrorMessage E status_byte_pi_offset_p modbus_error_code_p =
     ext (piControlWrite E status_byte_pi_offset_p 1 [modbus_error_code_p])"

definition reset_modbus_action_status :: "'w env \<Rightarrow> u32 \<Rightarrow> u8 \<Rightarrow> u32 \<Rightarrow> ('w, int) prog" where
  "reset_modbus_action_status E status_reset_byte_offset_p status_reset_bit_offset_p status_byte_pi_offset_p =
     bindM (ext (piControlGetBitValue E
              \<lparr>i16uAddress = ucast status_reset_byte_offset_p,
               i8uBit = status_reset_bit_offset_p, i8uValue = 0\<rparr>)) (\<lambda>(successful, reset_data_l).
       if successful < 0 then ret successful
       else if i8uValue reset_data_l \<noteq> 0 then
         bindM (ext (piControlWrite E status_byte_pi_offset_p 1 [0])) (\<lambda>successful.
           if successful < 0 then ret successful
           else ext (piControlSetBitValue E (reset_data_l\<lparr>i8uValue := 0\<rparr>)))
       else ret successful)"

definition reset_modbus_master_status :: "'w env \<Rightarrow> u32 \<Rightarrow> u32 \<Rightarrow> ('w, int) prog" where
  "reset_modbus_master_status E status_reset_byte_offset_p status_byte_offset_p =
     reset_modbus_action_status E status_reset_byte_offset_p 0 status_byte_offset_p"

section \<open>Arguments shared by the cases\<close>

text \<open>The register address on the wire, \<^verbatim>\<open>i32uStartRegister - MODBUS_ADDRESS_OFFSET\<close>, passed as \<^verbatim>\<open>int\<close>.\<close>

definition MODBUS_ADDRESS_OFFSET :: u32 where
  "MODBUS_ADDRESS_OFFSET = 1"

definition wire_address :: "TModbusAction \<Rightarrow> int" where
  "wire_address act = sint (i32uStartRegister act - MODBUS_ADDRESS_OFFSET)"

definition register_count :: "TModbusAction \<Rightarrow> int" where
  "register_count act = uint (i16uRegisterCount act)"

text \<open>The process image bit of coil \<open>i\<close>.\<close>

definition coil_data :: "TModbusAction \<Rightarrow> nat \<Rightarrow> u8 \<Rightarrow> SPIValue" where
  "coil_data act i v =
     \<lparr>i16uAddress = ucast (i32uStartByteProcessData act + word_of_nat (i div 8)),
      i8uBit = word_of_nat ((unat (i8uStartBitProcessData act) + i) mod 8),
      i8uValue = v\<rparr>"

text \<open>Number of payload bytes of a register action, \<^verbatim>\<open>i16uRegisterCount << 1\<close>.\<close>

definition register_bytes :: "TModbusAction \<Rightarrow> u32" where
  "register_bytes act = push_bit 1 (ucast (i16uRegisterCount act))"

text \<open>What a case leaves behind: \<open>len\<close>, \<open>successful\<close>, buffer.\<close>

type_synonym case_result = "int \<times> int \<times> u8 list"

section \<open>Reading bits\<close>

text \<open>The loop over the coils; a failing access leaves it.\<close>

fun set_coils :: "'w env \<Rightarrow> TModbusAction \<Rightarrow> u8 list \<Rightarrow> nat list \<Rightarrow> int \<Rightarrow> ('w, int) prog" where
  "set_coils E act buffer [] successful = ret successful"
| "set_coils E act buffer (i # is) successful =
     (if length buffer \<le> i then faultM
      else bindM (ext (piControlSetBitValue E (coil_data act i (buffer ! i)))) (\<lambda>successful.
             if successful < 0 then ret successful
             else set_coils E act buffer is successful))"

definition read_bits_case ::
  "'w env \<Rightarrow> (int \<Rightarrow> int \<Rightarrow> 'w \<Rightarrow> (int \<times> u8 list) \<times> 'w) \<Rightarrow> TModbusAction \<Rightarrow> u8 list \<Rightarrow> ('w, case_result) prog" where
  "read_bits_case E read act buffer =
     seqM (assertM (register_count act \<le> MODBUS_MAX_READ_BITS E))
     (bindM (ext (read (wire_address act) (register_count act))) (\<lambda>(len, bits).
      bindM (liftO (store_buf buffer bits)) (\<lambda>buffer.
        if len < register_count act then ret (len, 0, buffer)
        else bindM (set_coils E act buffer [0..<unat (i16uRegisterCount act)] 0) (\<lambda>successful.
               ret (len, successful, buffer)))))"

section \<open>Reading registers\<close>

definition read_registers_case ::
  "'w env \<Rightarrow> (int \<Rightarrow> int \<Rightarrow> 'w \<Rightarrow> (int \<times> u16 list) \<times> 'w) \<Rightarrow> TModbusAction \<Rightarrow> u8 list \<Rightarrow> ('w, case_result) prog" where
  "read_registers_case E read act buffer =
     seqM (assertM (register_count act \<le> MODBUS_MAX_READ_REGISTERS E))
     (bindM (ext (read (wire_address act) (register_count act))) (\<lambda>(len, regs).
      bindM (liftO (store_buf buffer (regs_bytes regs))) (\<lambda>buffer.
        if len < register_count act then ret (len, 0, buffer)
        else bindM (liftO (load_buf buffer (unat (register_bytes act)))) (\<lambda>data.
             bindM (ext (piControlWrite E (i32uStartByteProcessData act) (register_bytes act) data))
               (\<lambda>successful. ret (len, successful, buffer))))))"

section \<open>Writing\<close>

definition write_single_register_case ::
  "'w env \<Rightarrow> modbus_t \<Rightarrow> TModbusAction \<Rightarrow> u8 list \<Rightarrow> ('w, case_result) prog" where
  "write_single_register_case E ctx act buffer =
     seqM (assertM (register_count act = 1))
     (bindM (ext (piControlRead E (i32uStartByteProcessData act) (register_bytes act))) (\<lambda>(successful, data).
      bindM (liftO (store_buf buffer data)) (\<lambda>buffer.
        if successful \<le> 0 then ret (0, successful, buffer)
        else if length buffer < 2 then faultM
        else bindM (ext (modbus_write_register E ctx (wire_address act)
                           (uint (buffer ! 0) + uint (buffer ! 1) * 256)))
               (\<lambda>len. ret (len, successful, buffer)))))"

text \<open>The loop that collects coils from the process image into the buffer.\<close>

fun get_coils :: "'w env \<Rightarrow> TModbusAction \<Rightarrow> nat list \<Rightarrow> int \<Rightarrow> u8 list \<Rightarrow> ('w, int \<times> u8 list) prog" where
  "get_coils E act [] successful buffer = ret (successful, buffer)"
| "get_coils E act (i # is) successful buffer =
     bindM (ext (piControlGetBitValue E (coil_data act i 0))) (\<lambda>(successful, coil_data_l).
       if successful < 0 then ret (successful, buffer)
       else if length buffer \<le> i then faultM
       else get_coils E act is successful (buffer[i := i8uValue coil_data_l]))"

definition write_single_coil_case ::
  "'w env \<Rightarrow> modbus_t \<Rightarrow> TModbusAction \<Rightarrow> u8 list \<Rightarrow> ('w, case_result) prog" where
  "write_single_coil_case E ctx act buffer =
     seqM (assertM (register_count act = 1))
     (bindM (get_coils E act [0..<unat (i16uRegisterCount act)] 0 buffer) (\<lambda>(successful, buffer).
        if successful \<ge> 0 then
          if buffer = [] then faultM
          else bindM (ext (modbus_write_bit E ctx (wire_address act) (uint (buffer ! 0))))
                 (\<lambda>len. ret (len, successful, buffer))
        else ret (0, successful, buffer)))"

definition write_multiple_coils_case ::
  "'w env \<Rightarrow> modbus_t \<Rightarrow> TModbusAction \<Rightarrow> u8 list \<Rightarrow> ('w, case_result) prog" where
  "write_multiple_coils_case E ctx act buffer =
     seqM (assertM (register_count act \<le> MODBUS_MAX_WRITE_BITS E))
     (bindM (get_coils E act [0..<unat (i16uRegisterCount act)] 0 buffer) (\<lambda>(successful, buffer).
        if successful \<ge> 0 then
          bindM (liftO (load_buf buffer (unat (i16uRegisterCount act)))) (\<lambda>bits.
          bindM (ext (modbus_write_bits E ctx (wire_address act) (register_count act) bits))
            (\<lambda>len. ret (len, successful, buffer)))
        else ret (0, successful, buffer)))"

definition write_multiple_registers_case ::
  "'w env \<Rightarrow> modbus_t \<Rightarrow> TModbusAction \<Rightarrow> u8 list \<Rightarrow> ('w, case_result) prog" where
  "write_multiple_registers_case E ctx act buffer =
     seqM (assertM (register_count act \<le> MODBUS_MAX_WRITE_REGISTERS E))
     (bindM (ext (piControlRead E (i32uStartByteProcessData act) (register_bytes act))) (\<lambda>(successful, data).
      bindM (liftO (store_buf buffer data)) (\<lambda>buffer.
        if successful \<le> 0 then ret (0, successful, buffer)
        else bindM (liftO (load_buf buffer (unat (register_bytes act)))) (\<lambda>bytes.
             bindM (ext (modbus_write_registers E ctx (wire_address act) (register_count act) (bytes_regs bytes)))
               (\<lambda>len. ret (len, successful, buffer))))))"

section \<open>Slave identification\<close>

definition report_slave_id_case ::
  "'w env \<Rightarrow> modbus_t \<Rightarrow> TModbusAction \<Rightarrow> u8 list \<Rightarrow> ('w, case_result) prog" where
  "report_slave_id_case E ctx act buffer =
     seqM (assertM (register_count act \<le> MODBUS_MAX_PDU_LENGTH E))
     (bindM (ext (modbus_report_slave_id E ctx MAX_REGISTER_SIZE_PER_ACTION)) (\<lambda>(len, bytes).
      bindM (liftO (store_buf buffer bytes)) (\<lambda>buffer.
        if len < register_count act then ret (len, 0, buffer)
        else bindM (liftO (load_buf buffer (unat (i16uRegisterCount act)))) (\<lambda>data.
             bindM (ext (piControlWrite E (i32uStartByteProcessData act)
                           (ucast (i16uRegisterCount act)) data))
               (\<lambda>successful. ret (len, successful, buffer))))))"

section \<open>One action\<close>

fun process_function ::
  "'w env \<Rightarrow> modbus_t \<Rightarrow> EModbusFunction \<Rightarrow> TModbusAction \<Rightarrow> u8 list \<Rightarrow> ('w, case_result) prog" where
  "process_function E ctx eREAD_COILS act buffer = read_bits_case E (modbus_read_bits E ctx) act buffer"
| "process_function E ctx eREAD_DISCRETE_INPUTS act buffer =
     read_bits_case E (modbus_read_input_bits E ctx) act buffer"
| "process_function E ctx eREAD_HOLDING_REGISTERS act buffer =
     read_registers_case E (modbus_read_registers E ctx) act buffer"
| "process_function E ctx eREAD_INPUT_REGISTERS act buffer =
     read_registers_case E (modbus_read_input_registers E ctx) act buffer"
| "process_function E ctx eWRITE_SINGLE_REGISTER act buffer = write_single_register_case E ctx act buffer"
| "process_function E ctx eREAD_EXCEPTION_STATUS act buffer = ret (0, 0, buffer)"
| "process_function E ctx eWRITE_SINGLE_COIL act buffer = write_single_coil_case E ctx act buffer"
| "process_function E ctx eWRITE_MULTIPLE_COILS act buffer = write_multiple_coils_case E ctx act buffer"
| "process_function E ctx eWRITE_MULTIPLE_REGISTERS act buffer =
     write_multiple_registers_case E ctx act buffer"
| "process_function E ctx eREPORT_SLAVE_ID act buffer = report_slave_id_case E ctx act buffer"
| "process_function E ctx _ act buffer = ret (0, 0, buffer)"

text \<open>The error number as it fits into the status byte.\<close>

definition status_of_errno :: "'w env \<Rightarrow> u32 \<Rightarrow> u8" where
  "status_of_errno E err = ucast (if MODBUS_ENOBASE E < err then err - MODBUS_ENOBASE E else err)"

text \<open>What follows the switch: the pause after a failed image access, the status byte after a failed request.\<close>

definition report_outcome :: "'w env \<Rightarrow> TModbusAction \<Rightarrow> int \<Rightarrow> int \<Rightarrow> ('w, unit) prog" where
  "report_outcome E act len successful =
     seqM (if successful < 0 then ext (sleep_for E \<lparr>tv_sec = 0, tv_nsec = 100 * 1000 * 1000\<rparr>) else ret ())
     (if len < 0 then
        bindM (gets (errno_of E)) (\<lambda>err.
        seqM (writeErrorMessage E (i32uStatusByteProcessImageOffset act) (status_of_errno E err))
        (ret ()))
      else ret ())"

definition processModbusAction ::
  "'w env \<Rightarrow> modbus_t \<Rightarrow> tModbusEvent \<Rightarrow> u8 list \<Rightarrow> ('w, int \<times> u8 list) prog" where
  "processModbusAction E ctx mb_event buffer =
     (let act = eventModbusAction mb_event in
      seqM (ext (mutex_lock E))
      (bindM (process_function E ctx (eFunctionCode act) act buffer) (\<lambda>(len, successful, buffer).
       seqM (report_outcome E act len successful)
       (seqM (ext (mutex_unlock E))
       (ret (len, buffer))))))"

section \<open>The process image under the calls of the environment\<close>

definition image_world :: "'w env \<Rightarrow> ('w \<Rightarrow> image) \<Rightarrow> bool" where
  "image_world E img \<longleftrightarrow>
     picontrol_laws E img \<and> requests_keep E img \<and> clock_keeps E img \<and> mutex_keeps E img"

lemma plant_image_world: "image_world plant_extended_env p_image"
  by (simp add: image_world_def plant_picontrol plant_requests plant_clock plant_mutex)

lemma image_world_access:
  assumes "image_world E img"
  shows "img (snd (piControlWrite E off len d w))
           = (if fst (piControlWrite E off len d w) < 0 then img w
              else patch_image (img w) (unat off) (take (unat len) d))"
    and "img (snd (piControlRead E off len w)) = img w"
    and "length (snd (fst (piControlRead E off len w))) \<le> unat len"
    and "0 < fst (fst (piControlRead E off len w)) \<Longrightarrow>
           snd (fst (piControlRead E off len w)) = slice_image (img w) (unat off) (unat len)"
    and "img (snd (piControlSetBitValue E v w))
           = (if fst (piControlSetBitValue E v w) < 0 then img w
              else patch_value (img w) (unat (i16uAddress v)) (unat (i8uBit v)) (i8uValue v))"
    and "img (snd (piControlGetBitValue E v w)) = img w"
    and "i16uAddress (snd (fst (piControlGetBitValue E v w))) = i16uAddress v"
    and "i8uBit (snd (fst (piControlGetBitValue E v w))) = i8uBit v"
    and "0 \<le> fst (fst (piControlGetBitValue E v w)) \<Longrightarrow>
           i8uValue (snd (fst (piControlGetBitValue E v w)))
             = value_at (img w) (unat (i16uAddress v)) (unat (i8uBit v))"
  using assms unfolding image_world_def picontrol_laws_def
  by (auto simp: case_prod_unfold)

lemma image_world_frame:
  assumes "image_world E img"
  shows "img (snd (modbus_read_bits E c a n w)) = img w"
    and "img (snd (modbus_read_input_bits E c a n w)) = img w"
    and "img (snd (modbus_read_registers E c a n w)) = img w"
    and "img (snd (modbus_read_input_registers E c a n w)) = img w"
    and "img (snd (modbus_write_bit E c a n w)) = img w"
    and "img (snd (modbus_write_register E c a n w)) = img w"
    and "img (snd (modbus_write_bits E c a n bs w)) = img w"
    and "img (snd (modbus_write_registers E c a n rs w)) = img w"
    and "img (snd (modbus_report_slave_id E c k w)) = img w"
    and "img (snd (sleep_for E t w)) = img w"
    and "img (snd (mutex_lock E w)) = img w"
    and "img (snd (mutex_unlock E w)) = img w"
  using assms unfolding image_world_def requests_keep_def clock_keeps_def mutex_keeps_def
  by simp_all

lemmas image_world_simps = image_world_access(1-3,5-8) image_world_frame

section \<open>Memory safety and aborts\<close>

text \<open>
  The register counts for which an action can be executed: the limit that the \<^verbatim>\<open>assert\<close> of its
  function code checks, and the size of the thread's buffer.
\<close>

fun action_fits :: "EModbusFunction \<Rightarrow> nat \<Rightarrow> bool" where
  "action_fits eREAD_COILS n \<longleftrightarrow> n \<le> 256"
| "action_fits eREAD_DISCRETE_INPUTS n \<longleftrightarrow> n \<le> 256"
| "action_fits eREAD_HOLDING_REGISTERS n \<longleftrightarrow> n \<le> 125"
| "action_fits eREAD_INPUT_REGISTERS n \<longleftrightarrow> n \<le> 125"
| "action_fits eWRITE_SINGLE_COIL n \<longleftrightarrow> n = 1"
| "action_fits eWRITE_SINGLE_REGISTER n \<longleftrightarrow> n = 1"
| "action_fits eWRITE_MULTIPLE_COILS n \<longleftrightarrow> n \<le> 256"
| "action_fits eWRITE_MULTIPLE_REGISTERS n \<longleftrightarrow> n \<le> 123"
| "action_fits eREPORT_SLAVE_ID n \<longleftrightarrow> n \<le> 253"
| "action_fits _ n \<longleftrightarrow> True"

lemma register_count_nonneg [simp]: "0 \<le> register_count act"
  by (simp add: register_count_def)

lemma register_count_eq: "register_count act = int (unat (i16uRegisterCount act))"
  by (simp add: register_count_def)

lemma register_count_le: "int n \<le> register_count act \<longleftrightarrow> n \<le> unat (i16uRegisterCount act)"
  by (simp only: register_count_eq of_nat_le_iff)

lemma register_count_bounds:
  "register_count act \<le> numeral k \<longleftrightarrow> unat (i16uRegisterCount act) \<le> numeral k"
  "register_count act = 1 \<longleftrightarrow> unat (i16uRegisterCount act) = 1"
proof -
  have "register_count act \<le> int n \<longleftrightarrow> unat (i16uRegisterCount act) \<le> n" for n
    by (simp only: register_count_eq of_nat_le_iff)
  from this [of "numeral k"] show
    "register_count act \<le> numeral k \<longleftrightarrow> unat (i16uRegisterCount act) \<le> numeral k"
    by simp
  have "register_count act = int 1 \<longleftrightarrow> unat (i16uRegisterCount act) = 1"
    by (simp only: register_count_eq of_nat_eq_iff)
  then show "register_count act = 1 \<longleftrightarrow> unat (i16uRegisterCount act) = 1"
    by simp
qed

lemma register_bytes_unat: "unat (register_bytes act) = 2 * unat (i16uRegisterCount act)"
proof -
  have "unat (i16uRegisterCount act) < 65536"
    using unsigned_less [of "i16uRegisterCount act", where 'a = nat] by simp
  then show ?thesis
    by (simp add: register_bytes_def unat_word_ariths unsigned_ucast_eq take_bit_nat_eq_self)
qed

lemma set_coils_returns:
  "\<forall>i \<in> set is. i < length buffer \<Longrightarrow> wp (set_coils E act buffer is s) (\<lambda>_ _. True) w"
  by (induction "is" arbitrary: s w) (auto simp: wp_simps case_prod_unfold)

lemma get_coils_returns:
  "\<forall>i \<in> set is. i < length buffer \<Longrightarrow>
     wp (get_coils E act is s buffer) (\<lambda>(_, b) _. length b = length buffer) w"
proof (induction "is" arbitrary: s buffer w)
  case (Cons i "is")
  have "wp (get_coils E act is s' (buffer[i := v])) (\<lambda>(_, b) _. length b = length buffer) w'" for s' v w'
    using Cons.IH [of "buffer[i := v]" s' w'] Cons.prems by simp
  then show ?case
    using Cons.prems by (auto simp: wp_simps case_prod_unfold)
qed (simp add: wp_simps)

lemma stores_at_mostD:
  "stores_at_most rd \<Longrightarrow> 0 \<le> n \<Longrightarrow> int (length (snd (fst (rd a n w)))) \<le> n"
  "stores_at_most rd \<Longrightarrow> fst (fst (rd a n w)) \<le> int (length (snd (fst (rd a n w))))"
  unfolding stores_at_most_def by (metis (no_types, lifting) case_prod_conv max.absorb2 prod.collapse)+

lemma stores_register_count:
  assumes "stores_at_most rd"
  shows "length (snd (fst (rd a (register_count act) w))) \<le> unat (i16uRegisterCount act)"
  using stores_at_mostD(1) [OF assms, of "register_count act" a w] by (simp add: register_count_le)

lemma read_bits_returns:
  assumes "stores_at_most read" "length buffer = 256" "unat (i16uRegisterCount act) \<le> 256"
    "register_count act \<le> MODBUS_MAX_READ_BITS E"
  shows "wp (read_bits_case E read act buffer) (\<lambda>(_, _, b) _. length b = 256) w"
proof -
  note stores_register_count [OF assms(1), of "wire_address act" act w]
  moreover have "wp (set_coils E act b [0..<unat (i16uRegisterCount act)] 0) (\<lambda>_ _. True) w'"
    if "length b = 256" for b w'
    using that assms(3) by (intro set_coils_returns) simp
  ultimately show ?thesis
    using assms(2-4)
    by (auto simp: read_bits_case_def wp_simps case_prod_unfold)
qed

lemma read_registers_returns:
  assumes "stores_at_most read" "length buffer = 256" "unat (i16uRegisterCount act) \<le> 125"
    "register_count act \<le> MODBUS_MAX_READ_REGISTERS E"
  shows "wp (read_registers_case E read act buffer) (\<lambda>(_, _, b) _. length b = 256) w"
  using assms(2-4) stores_register_count [OF assms(1), of "wire_address act" act w]
  by (auto simp: read_registers_case_def wp_simps case_prod_unfold register_bytes_unat)

lemma image_world_reads_at_most:
  assumes "image_world E img"
  shows "length (snd (fst (piControlRead E off (register_bytes act) w)))
           \<le> 2 * unat (i16uRegisterCount act)"
  using image_world_access(3) [OF assms, of off "register_bytes act" w]
  by (simp add: register_bytes_unat)

lemma write_registers_return:
  assumes "image_world E img" "length buffer = 256"
  shows "register_count act = 1 \<Longrightarrow>
           wp (write_single_register_case E ctx act buffer) (\<lambda>(_, _, b) _. length b = 256) w"
    and "unat (i16uRegisterCount act) \<le> 123 \<Longrightarrow> MODBUS_MAX_WRITE_REGISTERS E = 123 \<Longrightarrow>
           wp (write_multiple_registers_case E ctx act buffer) (\<lambda>(_, _, b) _. length b = 256) w"
  using assms(2) image_world_reads_at_most [OF assms(1), of "i32uStartByteProcessData act" act w]
  by (auto simp: write_single_register_case_def write_multiple_registers_case_def wp_simps
      case_prod_unfold register_bytes_unat register_count_bounds)

lemma write_coils_return:
  assumes "length buffer = 256" "unat (i16uRegisterCount act) \<le> 256"
  shows "register_count act = 1 \<Longrightarrow>
           wp (write_single_coil_case E ctx act buffer) (\<lambda>(_, _, b) _. length b = 256) w"
    and "register_count act \<le> MODBUS_MAX_WRITE_BITS E \<Longrightarrow>
           wp (write_multiple_coils_case E ctx act buffer) (\<lambda>(_, _, b) _. length b = 256) w"
proof -
  have get: "wp (get_coils E act [0..<unat (i16uRegisterCount act)] 0 buffer)
               (\<lambda>(_, b) _. length b = 256) w"
    using get_coils_returns [of "[0..<unat (i16uRegisterCount act)]" buffer E act 0 w] assms by simp
  show "wp (write_single_coil_case E ctx act buffer) (\<lambda>(_, _, b) _. length b = 256) w"
    if "register_count act = 1"
    using that unfolding write_single_coil_case_def
    by (auto simp: wp_simps case_prod_unfold intro!: wp_mono [OF get])
  show "wp (write_multiple_coils_case E ctx act buffer) (\<lambda>(_, _, b) _. length b = 256) w"
    if "register_count act \<le> MODBUS_MAX_WRITE_BITS E"
    using that assms(2) unfolding write_multiple_coils_case_def
    by (auto simp: wp_simps case_prod_unfold intro!: wp_mono [OF get])
qed

lemma report_slave_id_returns:
  assumes "modbus_read_laws E" "length buffer = 256" "unat (i16uRegisterCount act) \<le> 253"
    "register_count act \<le> MODBUS_MAX_PDU_LENGTH E"
  shows "wp (report_slave_id_case E ctx act buffer) (\<lambda>(_, _, b) _. length b = 256) w"
proof -
  have "length (snd (fst (modbus_report_slave_id E ctx 256 w))) \<le> 256"
    using assms(1) unfolding modbus_read_laws_def by (simp add: case_prod_unfold)
  then show ?thesis
    using assms(2-4)
    by (auto simp: report_slave_id_case_def wp_simps case_prod_unfold MAX_REGISTER_SIZE_PER_ACTION_def)
qed

lemma process_function_returns:
  assumes "modbus_limits E" "modbus_read_laws E" "image_world E img" "length buffer = 256"
    and "action_fits f (unat (i16uRegisterCount act))"
  shows "wp (process_function E ctx f act buffer) (\<lambda>(_, _, b) _. length b = 256) w"
  using assms
  by (cases f)
     (auto simp: wp_simps modbus_limits_def modbus_read_laws_def register_count_bounds
       intro!: read_bits_returns read_registers_returns report_slave_id_returns [unfolded modbus_read_laws_def]
         write_registers_return write_coils_return)

lemma report_outcome_returns: "wp (report_outcome E act len successful) (\<lambda>_ _. True) w"
  by (simp add: report_outcome_def writeErrorMessage_def wp_simps)

section \<open>Effect on the process image\<close>

lemma available_simps:
  assumes "image_available E"
  shows "\<not> fst (piControlWrite E off len d w) < 0"
    and "len \<noteq> 0 \<Longrightarrow> 0 < fst (fst (piControlRead E off len w))"
    and "\<not> fst (piControlSetBitValue E v w) < 0"
    and "\<not> fst (fst (piControlGetBitValue E v w)) < 0"
  using assms by (simp_all add: image_available_def not_less)

lemma wp_processModbusAction:
  "wp (processModbusAction E ctx ev buffer) Q w \<longleftrightarrow>
     wp (process_function E ctx (eFunctionCode (eventModbusAction ev)) (eventModbusAction ev) buffer)
       (\<lambda>r w2. wp (report_outcome E (eventModbusAction ev) (fst r) (fst (snd r)))
          (\<lambda>_ w3. Q (fst r, snd (snd r)) (snd (mutex_unlock E w3))) w2)
       (snd (mutex_lock E w))"
  "wlp (processModbusAction E ctx ev buffer) Q w \<longleftrightarrow>
     wlp (process_function E ctx (eFunctionCode (eventModbusAction ev)) (eventModbusAction ev) buffer)
       (\<lambda>r w2. wlp (report_outcome E (eventModbusAction ev) (fst r) (fst (snd r)))
          (\<lambda>_ w3. Q (fst r, snd (snd r)) (snd (mutex_unlock E w3))) w2)
       (snd (mutex_lock E w))"
  by (simp_all add: processModbusAction_def Let_def wp_simps case_prod_unfold)

text \<open>The image after the status has been reported.\<close>

definition status_written :: "'w env \<Rightarrow> TModbusAction \<Rightarrow> image \<Rightarrow> image \<Rightarrow> bool" where
  "status_written E act m m' \<longleftrightarrow>
     (\<exists>err. m' = patch_image m (unat (i32uStatusByteProcessImageOffset act)) [status_of_errno E err])"

lemma report_outcome_image:
  assumes "image_world E img"
  shows "wp (report_outcome E act len successful)
           (\<lambda>_ w'. (0 \<le> len \<longrightarrow> img w' = img w)
              \<and> (len < 0 \<longrightarrow> img w' = img w \<or> status_written E act (img w) (img w'))
              \<and> (len < 0 \<longrightarrow> image_available E \<longrightarrow> status_written E act (img w) (img w'))) w"
  unfolding report_outcome_def writeErrorMessage_def
  using image_world_simps [OF assms]
  by (auto simp: wp_simps status_written_def available_simps)

text \<open>As long as the request fails, the switch leaves the process image alone.\<close>

lemma set_coils_frame: "wlp (set_coils E act buffer is s) (\<lambda>_ _. True) w"
  by (simp add: wlp_def split: outcome.splits prod.splits)

lemma get_coils_image:
  assumes "image_world E img"
  shows "wlp (get_coils E act is s buffer) (\<lambda>_ w'. img w' = img w) w"
proof (induction "is" arbitrary: s buffer w)
  case (Cons i "is")
  show ?case
    using image_world_simps [OF assms] Cons.IH
    by (auto simp: wp_simps case_prod_unfold intro!: wlp_mono [OF Cons.IH])
qed (simp add: wp_simps)

lemma failing_function_image:
  assumes "image_world E img"
  shows "wlp (process_function E ctx f act buffer) (\<lambda>r w'. fst r < 0 \<longrightarrow> img w' = img w) w"
proof -
  note frame = image_world_simps [OF assms]
  have get: "wlp (get_coils E act is 0 buffer) (\<lambda>_ w'. img w' = img w) w" for "is"
    by (rule get_coils_image [OF assms])
  have pos: "\<not> n < register_count act \<Longrightarrow> 0 \<le> n" for n
    using register_count_nonneg [of act] by linarith
  show ?thesis
  proof (cases f)
    case eWRITE_SINGLE_COIL
    then show ?thesis
      by (auto simp: write_single_coil_case_def wp_simps case_prod_unfold frame intro!: wlp_mono [OF get])
  next
    case eWRITE_MULTIPLE_COILS
    then show ?thesis
      by (auto simp: write_multiple_coils_case_def wp_simps case_prod_unfold frame intro!: wlp_mono [OF get])
  qed (auto simp: read_bits_case_def read_registers_case_def write_single_register_case_def
         write_multiple_registers_case_def report_slave_id_case_def wp_simps case_prod_unfold frame
         dest: pos intro!: wlp_mono [OF set_coils_frame])
qed

text \<open>The coil loops, when no access fails.\<close>

definition coil_byte :: "TModbusAction \<Rightarrow> nat \<Rightarrow> nat" where
  "coil_byte act i = unat (i16uAddress (coil_data act i 0))"

definition coil_bit :: "TModbusAction \<Rightarrow> nat \<Rightarrow> nat" where
  "coil_bit act i = unat (i8uBit (coil_data act i 0))"

lemma coil_data_fields:
  "unat (i16uAddress (coil_data act i v)) = coil_byte act i"
  "unat (i8uBit (coil_data act i v)) = coil_bit act i"
  "i8uValue (coil_data act i v) = v"
  by (simp_all add: coil_byte_def coil_bit_def coil_data_def)

text \<open>The bit of a coil lies in its byte, so every access to a coil is one to a bit.\<close>

lemma coil_bit_less: "coil_bit act i < 8"
proof -
  have "(unat (i8uStartBitProcessData act) + i) mod 8 < 8" by simp
  then show ?thesis
    by (simp add: coil_bit_def coil_data_def unsigned_of_nat take_bit_nat_eq_self del: mod_less_divisor)
qed

lemma coil_bit_eq: "coil_bit act i = (unat (i8uStartBitProcessData act) + i) mod 8"
proof -
  have "(unat (i8uStartBitProcessData act) + i) mod 8 < 256"
    by (rule less_trans [of _ 8]) simp_all
  then show ?thesis
    by (simp add: coil_bit_def coil_data_def unsigned_of_nat take_bit_nat_eq_self)
qed

definition put_coil :: "TModbusAction \<Rightarrow> u8 list \<Rightarrow> nat \<Rightarrow> image \<Rightarrow> image" where
  "put_coil act buffer i m = patch_bit m (coil_byte act i) (coil_bit act i) (buffer ! i \<noteq> 0)"

lemma set_coils_image:
  assumes "image_world E img" "image_available E" "\<forall>i \<in> set is. i < length buffer" "0 \<le> s"
  shows "wp (set_coils E act buffer is s)
           (\<lambda>r w'. 0 \<le> r \<and> img w' = fold (put_coil act buffer) is (img w)) w"
  using assms(3,4)
proof (induction "is" arbitrary: s w)
  case (Cons i "is")
  let ?v = "coil_data act i (buffer ! i)"
  have "0 \<le> fst (piControlSetBitValue E ?v w)"
    using available_simps(3) [OF assms(2)] by (simp add: not_less)
  moreover have "img (snd (piControlSetBitValue E ?v w)) = put_coil act buffer i (img w)"
    using image_world_access(5) [OF assms(1), of ?v w] available_simps(3) [OF assms(2)]
    by (simp add: put_coil_def coil_data_fields patch_value_bit [OF coil_bit_less])
  ultimately show ?case
    using Cons by (auto simp: wp_simps case_prod_unfold elim!: wp_mono [OF Cons.IH])
qed (simp add: wp_simps)

definition image_coil :: "TModbusAction \<Rightarrow> image \<Rightarrow> nat \<Rightarrow> u8" where
  "image_coil act m i = of_bool (bit (m (coil_byte act i)) (coil_bit act i))"

lemma get_coils_values:
  assumes "image_world E img" "image_available E" "0 \<le> s"
  shows "a \<le> b \<Longrightarrow> b \<le> length buffer \<Longrightarrow> wp (get_coils E act [a..<b] s buffer)
           (\<lambda>r w'. 0 \<le> fst r \<and> img w' = img w
              \<and> snd r = take a buffer @ map (image_coil act (img w)) [a..<b] @ drop b buffer) w"
  using assms(3)
proof (induction "b - a" arbitrary: a s buffer w)
  case 0
  then show ?case by (simp add: wp_simps)
next
  case (Suc k)
  let ?get = "piControlGetBitValue E (coil_data act a 0) w"
  let ?buf = "buffer[a := image_coil act (img w) a]"
  have get: "\<not> fst (fst ?get) < 0" "img (snd ?get) = img w"
    "i8uValue (snd (fst ?get)) = image_coil act (img w) a"
    using available_simps(4) [OF assms(2)] image_world_access(6,9) [OF assms(1)]
    by (simp_all add: image_coil_def coil_data_fields not_less value_at_bit [OF coil_bit_less])
  have "[a..<b] = a # [Suc a..<b]"
    using Suc.hyps(2) by (simp add: upt_conv_Cons)
  moreover have "take (Suc a) ?buf = take a buffer @ [image_coil act (img w) a]" "drop b ?buf = drop b buffer"
    using Suc.hyps(2) Suc.prems by (simp_all add: take_Suc_conv_app_nth)
  moreover note Suc.hyps(1) [of "Suc a" ?buf "fst (fst ?get)" "snd ?get"]
  ultimately show ?case
    using Suc.hyps(2) Suc.prems get
    by (auto simp: wp_simps case_prod_unfold not_less elim!: wp_mono)
qed

section \<open>The buffer keeps its length\<close>

lemma get_coils_length:
  "wlp (get_coils E act is s buffer) (\<lambda>r _. length (snd r) = length buffer) w"
proof (induction "is" arbitrary: s buffer w)
  case (Cons i "is")
  show ?case
    by (auto simp: wp_simps case_prod_unfold intro!: wlp_mono [OF Cons.IH])
qed (simp add: wp_simps)

lemma process_function_length:
  "wlp (process_function E ctx f act buffer) (\<lambda>r _. length (snd (snd r)) = length buffer) w"
proof (cases f)
  case eWRITE_SINGLE_COIL
  then show ?thesis
    by (auto simp: write_single_coil_case_def wp_simps case_prod_unfold intro!: wlp_mono [OF get_coils_length])
next
  case eWRITE_MULTIPLE_COILS
  then show ?thesis
    by (auto simp: write_multiple_coils_case_def wp_simps case_prod_unfold intro!: wlp_mono [OF get_coils_length])
qed (auto simp: read_bits_case_def read_registers_case_def write_single_register_case_def
       write_multiple_registers_case_def report_slave_id_case_def wp_simps case_prod_unfold
       intro!: wlp_mono [OF set_coils_frame])

lemma processModbusAction_length:
  "wlp (processModbusAction E ctx ev buffer) (\<lambda>r _. length (snd r) = length buffer) w"
  unfolding wp_processModbusAction
  by (auto intro!: wlp_mono [OF process_function_length] intro: wlp_True)

section \<open>State predicates that an action preserves\<close>

text \<open>The calls that \<open>process_function\<close> and \<open>report_outcome\<close> make preserve \<open>I\<close>.\<close>

definition action_preserves :: "'w env \<Rightarrow> ('w \<Rightarrow> bool) \<Rightarrow> bool" where
  "action_preserves E I \<longleftrightarrow>
     (\<forall>c a n w. I w \<longrightarrow> I (snd (modbus_read_bits E c a n w)) \<and> I (snd (modbus_read_input_bits E c a n w))
        \<and> I (snd (modbus_read_registers E c a n w)) \<and> I (snd (modbus_read_input_registers E c a n w))
        \<and> I (snd (modbus_write_bit E c a n w)) \<and> I (snd (modbus_write_register E c a n w)))
   \<and> (\<forall>c a n d w. I w \<longrightarrow> I (snd (modbus_write_bits E c a n d w)))
   \<and> (\<forall>c a n d w. I w \<longrightarrow> I (snd (modbus_write_registers E c a n d w)))
   \<and> (\<forall>c n w. I w \<longrightarrow> I (snd (modbus_report_slave_id E c n w)))
   \<and> (\<forall>off len d w. I w \<longrightarrow> I (snd (piControlWrite E off len d w)))
   \<and> (\<forall>off len w. I w \<longrightarrow> I (snd (piControlRead E off len w)))
   \<and> (\<forall>v w. I w \<longrightarrow> I (snd (piControlSetBitValue E v w)) \<and> I (snd (piControlGetBitValue E v w)))
   \<and> (\<forall>t w. I w \<longrightarrow> I (snd (sleep_for E t w)))"

lemma action_preservesD:
  assumes "action_preserves E I" "I w"
  shows "I (snd (modbus_read_bits E c a n w))" "I (snd (modbus_read_input_bits E c a n w))"
    and "I (snd (modbus_read_registers E c a n w))" "I (snd (modbus_read_input_registers E c a n w))"
    and "I (snd (modbus_write_bit E c a n w))" "I (snd (modbus_write_register E c a n w))"
    and "I (snd (modbus_write_bits E c a n bs w))" "I (snd (modbus_write_registers E c a n rs w))"
    and "I (snd (modbus_report_slave_id E c k w))" "I (snd (sleep_for E t w))"
    and "I (snd (piControlWrite E off len d w))" "I (snd (piControlRead E off len w))"
    and "I (snd (piControlSetBitValue E v w))" "I (snd (piControlGetBitValue E v w))"
  using assms unfolding action_preserves_def by simp_all

lemma coil_loops_keep:
  assumes "action_preserves E I"
  shows "keeps I (set_coils E act buffer is s)" and "keeps I (get_coils E act is s buf)"
proof -
  show "keeps I (set_coils E act buffer is s)"
    by (induction "is" arbitrary: s) (auto intro!: keeps_intros simp: action_preservesD [OF assms])
  show "keeps I (get_coils E act is s buf)"
    by (induction "is" arbitrary: s buf) (auto intro!: keeps_intros simp: action_preservesD [OF assms])
qed

lemma process_function_keeps:
  assumes "action_preserves E I"
  shows "keeps I (process_function E ctx f act buffer)"
  by (cases f)
     (auto simp: read_bits_case_def read_registers_case_def write_single_register_case_def
       write_single_coil_case_def write_multiple_coils_case_def write_multiple_registers_case_def
       report_slave_id_case_def action_preservesD [OF assms]
       intro!: keeps_intros coil_loops_keep [OF assms])

lemma report_outcome_keeps:
  assumes "action_preserves E I"
  shows "keeps I (report_outcome E act len s)"
  by (auto simp: report_outcome_def writeErrorMessage_def action_preservesD [OF assms] intro!: keeps_intros)

lemma reset_status_keeps:
  assumes "action_preserves E I"
  shows "keeps I (reset_modbus_action_status E a b c)"
  by (auto simp: reset_modbus_action_status_def action_preservesD [OF assms] intro!: keeps_intros)

lemma mutex_action_preserves: "mutex_laws E held \<Longrightarrow> action_preserves E held"
  by (simp add: mutex_laws_def requests_keep_def clock_keeps_def image_access_keeps_def action_preserves_def)

end
