(* ===== verification/Action_Semantics.thy ===== *)
theory Action_Semantics
  imports ComAndDataProcessor Plant
begin

text \<open>
  What one call of \<^verbatim>\<open>processModbusAction\<close> does, stated over the process image as the world shows it
  (\<open>img\<close>): which calls return, which abort, what they transfer, and what a failure leaves behind.
  The request itself is a call of the environment, so the data the slave answered with, or was
  sent, appear in the statements as what that call yields or gets.
\<close>

section \<open>Transfer lemmas\<close>

lemma negative_is_short:
  "n < 0 \<Longrightarrow> n < register_count act"
  "register_count act \<le> n \<Longrightarrow> 0 \<le> n"
  using register_count_nonneg [of act] by linarith+

lemma read_registers_transfer:
  assumes "image_world E img" "image_available E" "stores_at_most read" "length buffer = 256"
    "unat (i16uRegisterCount act) \<le> 125" "register_count act \<le> MODBUS_MAX_READ_REGISTERS E"
    and r: "r = fst (read (wire_address act) (register_count act) w)"
    and keep: "img (snd (read (wire_address act) (register_count act) w)) = img w"
  shows "wp (read_registers_case E read act buffer)
           (\<lambda>q w'. fst q = fst r \<and> img w' =
              (if fst r < register_count act then img w
               else patch_image (img w) (unat (i32uStartByteProcessData act)) (regs_bytes (snd r)))) w"
proof -
  have le: "length (snd r) \<le> unat (i16uRegisterCount act)"
    using stores_register_count [OF assms(3)] r by simp
  have full: "length (snd r) = unat (i16uRegisterCount act)" if "\<not> fst r < register_count act"
    using stores_at_mostD(2) [OF assms(3), of "wire_address act" "register_count act" w] that le
    unfolding r register_count_eq by linarith
  show ?thesis
    using assms(4-6) le full keep image_world_simps [OF assms(1)] available_simps [OF assms(2)]
    unfolding r
    by (auto simp: read_registers_case_def wp_simps case_prod_unfold register_bytes_unat)
qed

lemma write_registers_transfer:
  assumes "image_world E img" "image_available E" "length buffer = 256"
    "unat (i16uRegisterCount act) \<le> 123" "i16uRegisterCount act \<noteq> 0"
    "MODBUS_MAX_WRITE_REGISTERS E = 123"
  shows "wp (write_multiple_registers_case E ctx act buffer)
           (\<lambda>q w'. img w' = img w \<and> (\<exists>v. fst q = fst (modbus_write_registers E ctx (wire_address act)
              (register_count act)
              (bytes_regs (slice_image (img w) (unat (i32uStartByteProcessData act))
                                        (2 * unat (i16uRegisterCount act)))) v))) w"
proof -
  let ?off = "i32uStartByteProcessData act" and ?n = "register_bytes act"
  have "?n \<noteq> 0"
    using register_bytes_unat [of act] assms(5) by (auto simp: unat_eq_zero)
  then have rd: "0 < fst (fst (piControlRead E ?off ?n w))"
    "snd (fst (piControlRead E ?off ?n w)) = slice_image (img w) (unat ?off) (2 * unat (i16uRegisterCount act))"
    using available_simps(2) [OF assms(2)] image_world_access(4) [OF assms(1), of ?off ?n w]
    by (simp_all add: register_bytes_unat)
  show ?thesis
    using assms(3,4,6) rd image_world_simps [OF assms(1)]
    by (auto simp: write_multiple_registers_case_def wp_simps case_prod_unfold register_bytes_unat
        register_count_bounds)
qed

lemma read_bits_transfer:
  assumes "image_world E img" "image_available E" "stores_at_most read" "length buffer = 256"
    "unat (i16uRegisterCount act) \<le> 256" "register_count act \<le> MODBUS_MAX_READ_BITS E"
    and r: "r = fst (read (wire_address act) (register_count act) w)"
    and keep: "img (snd (read (wire_address act) (register_count act) w)) = img w"
  shows "wp (read_bits_case E read act buffer)
           (\<lambda>q w'. fst q = fst r \<and> img w' =
              (if fst r < register_count act then img w
               else fold (put_coil act (snd r)) [0..<unat (i16uRegisterCount act)] (img w))) w"
proof -
  let ?n = "unat (i16uRegisterCount act)"
  let ?buf = "snd r @ drop (length (snd r)) buffer"
  have le: "length (snd r) \<le> ?n"
    using stores_register_count [OF assms(3)] r by simp
  have full: "length (snd r) = ?n" if "\<not> fst r < register_count act"
    using stores_at_mostD(2) [OF assms(3), of "wire_address act" "register_count act" w] that le
    unfolding r register_count_eq by linarith
  have set: "wp (set_coils E act ?buf [0..<?n] 0)
      (\<lambda>_ w'. img w' = fold (put_coil act (snd r)) [0..<?n] (img v)) v" if "\<not> fst r < register_count act" for v
  proof -
    have "fold (put_coil act ?buf) [0..<?n] m = fold (put_coil act (snd r)) [0..<?n] m" for m
      by (rule fold_cong) (auto simp: put_coil_def nth_append full [OF that])
    moreover have "\<forall>i \<in> set [0..<?n]. i < length ?buf"
      using assms(4,5) le by simp
    ultimately show ?thesis
      using set_coils_image [OF assms(1,2), of "[0..<?n]" ?buf 0 act v] by (auto elim!: wp_mono)
  qed
  show ?thesis
    using assms(4-6) le keep
    by (auto simp: read_bits_case_def wp_simps case_prod_unfold r [symmetric] not_less [symmetric]
        intro!: wp_mono [OF set])
qed

section \<open>Where the coils of an action lie\<close>

lemma coil_byte_mod: "coil_byte act i = (unat (i32uStartByteProcessData act) + i div 8) mod 65536"
proof -
  have "unat (ucast w :: u16) = unat w mod 65536" for w :: u32
    by (simp add: unsigned_ucast_eq take_bit_eq_mod)
  moreover have "unat (w + word_of_nat k :: u32) mod 65536 = (unat w + k) mod 65536" for w k
    unfolding unat_word_ariths unsigned_of_nat take_bit_eq_mod
    by (simp add: mod_mod_cancel mod_add_right_eq)
  ultimately show ?thesis
    by (simp add: coil_byte_def coil_data_def del: add.assoc)
qed

lemma coil_byte_eq:
  "unat (i32uStartByteProcessData act) + i div 8 < 65536 \<Longrightarrow>
     coil_byte act i = unat (i32uStartByteProcessData act) + i div 8"
  by (simp add: coil_byte_mod)

lemma mod8_add_cancel:
  assumes "(s + i) mod 8 = (s + j) mod (8 :: nat)"
  shows "i mod 8 = j mod 8"
proof -
  have "int (s + i) mod 8 = int (s + j) mod 8"
    using assms zmod_int [of "s + i" 8] zmod_int [of "s + j" 8] by (simp del: of_nat_add)
  from mod_diff_cong [OF this, of "int s" "int s"] have "int i mod 8 = int j mod 8"
    by simp
  then show ?thesis
    using zmod_int [of i 8] zmod_int [of j 8] by simp
qed

text \<open>Within one action no two coils share a bit.\<close>

lemma coil_positions_distinct:
  assumes "i < n" "j < n" "i \<noteq> j" "unat (i32uStartByteProcessData act) + n div 8 < 65536"
  shows "\<not> (coil_byte act i = coil_byte act j \<and> coil_bit act i = coil_bit act j)"
proof
  assume same: "coil_byte act i = coil_byte act j \<and> coil_bit act i = coil_bit act j"
  have bound: "unat (i32uStartByteProcessData act) + k div 8 < 65536" if "k < n" for k
    using assms(4) div_le_mono [of k n 8] that by linarith
  from same have "i div 8 = j div 8"
    using bound assms(1,2) by (simp add: coil_byte_eq)
  moreover from same have "i mod 8 = j mod 8"
    unfolding coil_bit_eq by (blast intro: mod8_add_cancel)
  ultimately show False
    using assms(3) by (metis div_mult_mod_eq)
qed

lemma put_coils_bits:
  assumes "unat (i32uStartByteProcessData act) + n div 8 < 65536"
  shows "k \<le> n \<Longrightarrow> (\<forall>i<k. bit (fold (put_coil act vs) [0..<k] m (coil_byte act i)) (coil_bit act i) = (vs ! i \<noteq> 0))
     \<and> (\<forall>a b. b < 8 \<longrightarrow> (\<forall>i<k. \<not> (a = coil_byte act i \<and> b = coil_bit act i)) \<longrightarrow>
              bit (fold (put_coil act vs) [0..<k] m a) b = bit (m a) b)"
proof (induction k)
  case (Suc k)
  have "\<not> (coil_byte act i = coil_byte act k \<and> coil_bit act i = coil_bit act k)" if "i < k" for i
    using coil_positions_distinct [OF _ _ _ assms, of i k] that Suc.prems by simp
  with Suc show ?case
    by (auto simp: put_coil_def bit_patch_bit coil_bit_less less_Suc_eq)
qed simp

text \<open>The transfer of a reading action, as bits of the image.\<close>

lemma put_coils_layout:
  assumes "unat (i32uStartByteProcessData act) + unat (i16uRegisterCount act) div 8 < 65536"
  shows "let start = unat (i32uStartByteProcessData act); s = unat (i8uStartBitProcessData act);
             n = unat (i16uRegisterCount act);
             m' = fold (put_coil act vs) [0..<n] m
         in (\<forall>i<n. bit (m' (start + i div 8)) ((s + i) mod 8) = (vs ! i \<noteq> 0))
          \<and> (\<forall>a b. b < 8 \<longrightarrow> (\<forall>i<n. \<not> (a = start + i div 8 \<and> b = (s + i) mod 8)) \<longrightarrow>
                bit (m' a) b = bit (m a) b)"
proof -
  let ?n = "unat (i16uRegisterCount act)"
  have "coil_byte act i = unat (i32uStartByteProcessData act) + i div 8" if "i < ?n" for i
    using assms div_le_mono [of i ?n 8] that by (intro coil_byte_eq) linarith
  then show ?thesis
    using put_coils_bits [OF assms, of ?n vs m] by (auto simp: Let_def coil_bit_eq)
qed

lemma write_coils_transfer:
  assumes "image_world E img" "image_available E" "length buffer = 256"
    "unat (i16uRegisterCount act) \<le> 256" "register_count act \<le> MODBUS_MAX_WRITE_BITS E"
  shows "wp (write_multiple_coils_case E ctx act buffer)
           (\<lambda>q w'. img w' = img w \<and> (\<exists>v. fst q = fst (modbus_write_bits E ctx (wire_address act)
              (register_count act) (map (image_coil act (img w)) [0..<unat (i16uRegisterCount act)]) v))) w"
proof -
  have get: "wp (get_coils E act [0..<unat (i16uRegisterCount act)] 0 buffer)
           (\<lambda>r w'. 0 \<le> fst r \<and> img w' = img w
              \<and> snd r = map (image_coil act (img w)) [0..<unat (i16uRegisterCount act)]
                        @ drop (unat (i16uRegisterCount act)) buffer) w"
    using get_coils_values [OF assms(1,2), of 0 0 "unat (i16uRegisterCount act)" buffer act w] assms(3,4)
    by simp
  show ?thesis
    using assms(3-5) image_world_simps [OF assms(1)]
    by (auto simp: write_multiple_coils_case_def wp_simps case_prod_unfold intro!: wp_mono [OF get])
qed

text \<open>From the effect of the switch to the effect of the whole call.\<close>

lemma processModbusAction_effect:
  assumes "image_world E img" "image_available E"
    and "wp (process_function E ctx (eFunctionCode (eventModbusAction ev)) (eventModbusAction ev) buffer)
           (\<lambda>q w'. R (fst q) (img w')) (snd (mutex_lock E w))"
  shows "wp (processModbusAction E ctx ev buffer) (\<lambda>r w'. \<exists>m. R (fst r) m
           \<and> (0 \<le> fst r \<longrightarrow> img w' = m)
           \<and> (fst r < 0 \<longrightarrow> status_written E (eventModbusAction ev) m (img w'))) w"
  using assms(2,3) unfolding wp_processModbusAction
  by (auto simp: image_world_frame(12) [OF assms(1)]
      elim!: wp_mono intro!: wp_mono [OF report_outcome_image [OF assms(1)]])

lemma read_registers_action:
  assumes "modbus_limits E" "modbus_read_laws E" "image_world E img" "image_available E"
    and "length buffer = 256" "unat (i16uRegisterCount (eventModbusAction ev)) \<le> 125"
    and "eFunctionCode (eventModbusAction ev) = eREAD_HOLDING_REGISTERS \<and> read = modbus_read_registers E ctx
       \<or> eFunctionCode (eventModbusAction ev) = eREAD_INPUT_REGISTERS \<and> read = modbus_read_input_registers E ctx"
    and r: "r = fst (read (wire_address (eventModbusAction ev)) (register_count (eventModbusAction ev))
                   (snd (mutex_lock E w)))"
  shows "wp (processModbusAction E ctx ev buffer) (\<lambda>q w'. fst q = fst r \<and>
     (if fst r < 0 then status_written E (eventModbusAction ev) (img w) (img w')
      else img w' = (if fst r < register_count (eventModbusAction ev) then img w
        else patch_image (img w) (unat (i32uStartByteProcessData (eventModbusAction ev))) (regs_bytes (snd r))))) w"
proof -
  let ?act = "eventModbusAction ev" and ?w = "snd (mutex_lock E w)"
  have "stores_at_most read" "img (snd (read (wire_address ?act) (register_count ?act) ?w)) = img ?w"
    and f: "process_function E ctx (eFunctionCode ?act) ?act buffer = read_registers_case E read ?act buffer"
    using assms(2,7) image_world_frame(3,4) [OF assms(3)] unfolding modbus_read_laws_def by auto
  from read_registers_transfer [OF assms(3,4) this(1) assms(5,6) _ refl this(2)]
  have "wp (process_function E ctx (eFunctionCode ?act) ?act buffer)
     (\<lambda>q w'. fst q = fst (fst (read (wire_address ?act) (register_count ?act) ?w)) \<and> img w' =
        (if fst q < register_count ?act then img w
         else patch_image (img w) (unat (i32uStartByteProcessData ?act))
                (regs_bytes (snd (fst (read (wire_address ?act) (register_count ?act) ?w)))))) ?w"
    using assms(1,6) unfolding f
    by (auto simp: modbus_limits_def register_count_bounds image_world_frame(11) [OF assms(3)] elim!: wp_mono)
  from processModbusAction_effect [OF assms(3,4) this] show ?thesis
    unfolding r by (auto simp: negative_is_short elim!: wp_mono)
qed

lemma write_registers_action:
  assumes "modbus_limits E" "image_world E img" "image_available E" "length buffer = 256"
    and "eFunctionCode (eventModbusAction ev) = eWRITE_MULTIPLE_REGISTERS"
    and "0 < unat (i16uRegisterCount (eventModbusAction ev))"
    and "unat (i16uRegisterCount (eventModbusAction ev)) \<le> 123"
  shows "wp (processModbusAction E ctx ev buffer) (\<lambda>q w'.
     (\<exists>v. fst q = fst (modbus_write_registers E ctx (wire_address (eventModbusAction ev))
        (register_count (eventModbusAction ev))
        (bytes_regs (slice_image (img w) (unat (i32uStartByteProcessData (eventModbusAction ev)))
                       (2 * unat (i16uRegisterCount (eventModbusAction ev))))) v))
     \<and> (if fst q < 0 then status_written E (eventModbusAction ev) (img w) (img w') else img w' = img w)) w"
proof -
  have "MODBUS_MAX_WRITE_REGISTERS E = 123" "i16uRegisterCount (eventModbusAction ev) \<noteq> 0"
    using assms(1,6) by (auto simp: modbus_limits_def)
  from write_registers_transfer [OF assms(2-4) assms(7) this(2,1), of ctx "snd (mutex_lock E w)"]
  have "wp (process_function E ctx (eFunctionCode (eventModbusAction ev)) (eventModbusAction ev) buffer)
     (\<lambda>q w'. img w' = img w \<and> (\<exists>v. fst q = fst (modbus_write_registers E ctx
        (wire_address (eventModbusAction ev)) (register_count (eventModbusAction ev))
        (bytes_regs (slice_image (img w) (unat (i32uStartByteProcessData (eventModbusAction ev)))
           (2 * unat (i16uRegisterCount (eventModbusAction ev))))) v))) (snd (mutex_lock E w))"
    using assms(5) by (auto simp: image_world_frame(11) [OF assms(2)] elim!: wp_mono)
  from processModbusAction_effect [OF assms(2,3) this] show ?thesis
    by (auto elim!: wp_mono)
qed


section \<open>Properties\<close>

text \<open>
  C4: An action whose register count the limits of its function code and the thread's buffer of
  256 bytes admit is processed to the end, whatever the slave answers and whichever accesses to
  the process image fail: no \<^verbatim>\<open>assert\<close> fails and no access leaves the buffer.
\<close>

theorem processModbusAction_returns:
  assumes "modbus_limits E" "modbus_read_laws E" "image_world E img"
    and "length buffer = MAX_REGISTER_SIZE_PER_ACTION"
    and "action_fits (eFunctionCode (eventModbusAction ev))
           (unat (i16uRegisterCount (eventModbusAction ev)))"
  shows "wp (processModbusAction E ctx ev buffer)
           (\<lambda>(_, buffer') _. length buffer' = MAX_REGISTER_SIZE_PER_ACTION) w"
  using process_function_returns [OF assms(1-3) _ assms(5), of buffer ctx "snd (mutex_lock E w)"]
    assms(4) report_outcome_returns
  by (auto simp: wp_processModbusAction MAX_REGISTER_SIZE_PER_ACTION_def elim!: wp_mono)
     (auto intro: wp_mono [OF report_outcome_returns])

definition plant_event :: "EModbusFunction \<Rightarrow> u16 \<Rightarrow> u32 \<Rightarrow> u8 \<Rightarrow> tModbusEvent" where
  "plant_event f n byte b = \<lparr>eventTriggerTime = \<lparr>tv_sec = 0, tv_nsec = 0\<rparr>,
     eventModbusAction = (demo_action 1 f n 1000000)
       \<lparr>i32uStartByteProcessData := byte, i8uStartBitProcessData := b\<rparr>\<rparr>"

lemma all_less_3: "(\<forall>i<(3 :: nat). P i) \<longleftrightarrow> P 0 \<and> P 1 \<and> P 2"
  by (auto simp: numeral_eq_Suc less_Suc_eq)

lemma plant_bytes: "(258 :: u8) = 2" "(259 :: u8) = 3" "(260 :: u8) = 4"
  by simp_all

lemmas plant_event_defs = plant_event_def demo_action_def

theorem processModbusAction_returns_witness:
  "wp (processModbusAction plant_env 0 (plant_event eREAD_HOLDING_REGISTERS 125 10 0) (replicate 256 0))
     (\<lambda>(_, buffer') _. length buffer' = 256) plant0"
  using processModbusAction_returns [OF plant_limits plant_reads plant_image_world,
      of "replicate 256 0" "plant_event eREAD_HOLDING_REGISTERS 125 10 0" 0 plant0]
  by (simp add: MAX_REGISTER_SIZE_PER_ACTION_def plant_event_defs)

text \<open>
  C28: A register action above the limit of \<^verbatim>\<open>libmodbus\<close> (125 registers to read, 123 to write)
  aborts the process, before any request is sent and with the mutex locked, for every environment
  and in every state.
\<close>

theorem processModbusAction_aborts_over_limit:
  assumes "modbus_limits E"
    and "eFunctionCode (eventModbusAction ev) \<in> {eREAD_HOLDING_REGISTERS, eREAD_INPUT_REGISTERS}
           \<and> 125 < unat (i16uRegisterCount (eventModbusAction ev))
         \<or> eFunctionCode (eventModbusAction ev) = eWRITE_MULTIPLE_REGISTERS
           \<and> 123 < unat (i16uRegisterCount (eventModbusAction ev))"
  shows "processModbusAction E ctx ev buffer w = (Aborted, snd (mutex_lock E w))"
  using assms
  by (auto simp: processModbusAction_def Let_def run_simps read_registers_case_def
      write_multiple_registers_case_def modbus_limits_def register_count_bounds case_prod_unfold)

theorem processModbusAction_aborts_over_limit_witness:
  "processModbusAction plant_env 0 (plant_event eREAD_HOLDING_REGISTERS 126 10 0) (replicate 256 0) plant0
     = (Aborted, plant0\<lparr>p_held := True\<rparr>)"
  using processModbusAction_aborts_over_limit [OF plant_limits,
      of "plant_event eREAD_HOLDING_REGISTERS 126 10 0" 0 "replicate 256 0" plant0]
  by (simp add: plant_event_defs plant_env_def)

lemma processModbusAction_mutex:
  assumes "mutex_laws E held"
  shows "\<not> held (snd (processModbusAction E ctx ev buffer w))
         \<longleftrightarrow> (\<exists>r. fst (processModbusAction E ctx ev buffer w) = Ret r)"
  using process_function_keeps [OF mutex_action_preserves [OF assms]]
    report_outcome_keeps [OF mutex_action_preserves [OF assms]] assms
  unfolding mutex_laws_def keeps_def processModbusAction_def Let_def run_simps
  by (auto simp: case_prod_unfold run_simps split: outcome.splits prod.splits)

text \<open>
  C7: An action that reads holding or input registers returns what the request returned. When
  the slave delivered all registers, the image bytes from the action's start byte on become these
  registers, low byte first, and no other byte changes; when it delivered fewer, the image is
  unchanged; when the request failed, only the action's status byte is written, with the error.
\<close>

theorem read_registers_effect:
  assumes "modbus_limits E" "modbus_read_laws E" "image_world E img" "image_available E"
    and "length buffer = 256" "unat (i16uRegisterCount (eventModbusAction ev)) \<le> 125"
    and "eFunctionCode (eventModbusAction ev) = eREAD_HOLDING_REGISTERS \<and> read = modbus_read_registers E ctx
       \<or> eFunctionCode (eventModbusAction ev) = eREAD_INPUT_REGISTERS \<and> read = modbus_read_input_registers E ctx"
  shows "wp (processModbusAction E ctx ev buffer) (\<lambda>(len, _) w'.
    let act = eventModbusAction ev;
        (rc, regs) = fst (read (wire_address act) (register_count act) (snd (mutex_lock E w)))
    in len = rc
     \<and> (register_count act \<le> rc \<longrightarrow> img w' =
          patch_image (img w) (unat (i32uStartByteProcessData act)) (regs_bytes regs))
     \<and> (0 \<le> rc \<and> rc < register_count act \<longrightarrow> img w' = img w)
     \<and> (rc < 0 \<longrightarrow> status_written E act (img w) (img w'))) w"
  using read_registers_action [OF assms refl, of w]
  by (auto simp: case_prod_unfold Let_def negative_is_short split: if_splits elim!: wp_mono)

theorem read_registers_effect_witness:
  "wp (processModbusAction plant_env 0 (plant_event eREAD_HOLDING_REGISTERS 3 10 0) (replicate 256 0))
     (\<lambda>(len, _) w'. len = 3 \<and> p_image w' = patch_image (\<lambda>_. 0) 10 [2, 1, 3, 1, 4, 1]) plant0"
  using read_registers_effect [OF plant_limits plant_reads plant_image_world plant_available,
      of "replicate 256 0" "plant_event eREAD_HOLDING_REGISTERS 3 10 0" "modbus_read_registers plant_env 0" 0 plant0]
    plant_bytes
  by (simp add: plant_event_defs plant_defs Let_def register_count_def wire_address_def
      MODBUS_ADDRESS_OFFSET_def upt_conv_Cons u16_bytes_def case_prod_unfold)

text \<open>
  C23: An action that writes multiple registers sends the slave exactly the image bytes from the
  action's start byte on, two per register and low byte first, and returns what the request
  returned. The image is unchanged when the request succeeds; only the status byte is written when
  it fails.
\<close>

theorem write_registers_effect:
  assumes "modbus_limits E" "image_world E img" "image_available E" "length buffer = 256"
    and "eFunctionCode (eventModbusAction ev) = eWRITE_MULTIPLE_REGISTERS"
    and "0 < unat (i16uRegisterCount (eventModbusAction ev))"
    and "unat (i16uRegisterCount (eventModbusAction ev)) \<le> 123"
  shows "wp (processModbusAction E ctx ev buffer) (\<lambda>(len, _) w'.
    let act = eventModbusAction ev;
        data = slice_image (img w) (unat (i32uStartByteProcessData act)) (2 * unat (i16uRegisterCount act))
    in (\<exists>v. len = fst (modbus_write_registers E ctx (wire_address act) (register_count act) (bytes_regs data) v))
     \<and> (0 \<le> len \<longrightarrow> img w' = img w)
     \<and> (len < 0 \<longrightarrow> status_written E act (img w) (img w'))) w"
  using write_registers_action [OF assms, of ctx w]
  by (auto simp: case_prod_unfold Let_def elim!: wp_mono)

theorem write_registers_effect_witness:
  "wp (processModbusAction plant_env 0 (plant_event eWRITE_MULTIPLE_REGISTERS 2 10 0) (replicate 256 0))
     (\<lambda>(len, _) w'. len \<in> {2, -1} \<and> (len = 2 \<longrightarrow> p_image w' = p_image plant0)) plant0"
  using write_registers_effect [OF plant_limits plant_image_world plant_available,
      of "replicate 256 0" "plant_event eWRITE_MULTIPLE_REGISTERS 2 10 0" 0 plant0]
  by (simp add: plant_event_defs plant_env_def accept_write_def Let_def register_count_def)
     (auto elim!: wp_mono split: if_splits)

text \<open>
  Two masters on one process image form a register gateway: when one action reads registers
  from a slave into the image and another writes the same number of registers from the same
  offset, the second slave is sent exactly the registers the first one delivered.
\<close>

lemma register_gateway_roundtrip:
  assumes "modbus_limits E" "modbus_read_laws E" "image_world E img" "image_available E"
    and "length buffer = 256" "length buffer' = 256"
    and "eFunctionCode a = eREAD_HOLDING_REGISTERS" "eFunctionCode b = eWRITE_MULTIPLE_REGISTERS"
    and "i32uStartByteProcessData b = i32uStartByteProcessData a"
    and "i16uRegisterCount b = i16uRegisterCount a"
    and "0 < unat (i16uRegisterCount a)" "unat (i16uRegisterCount a) \<le> 123"
  shows "wp (bindM (processModbusAction E ctx \<lparr>eventTriggerTime = ta, eventModbusAction = a\<rparr> buffer)
              (\<lambda>(la, _). bindM (processModbusAction E ctx' \<lparr>eventTriggerTime = tb, eventModbusAction = b\<rparr> buffer')
              (\<lambda>(lb, _). ret (la, lb))))
     (\<lambda>(la, lb) _. register_count a \<le> la \<longrightarrow> (\<exists>v. lb =
        fst (modbus_write_registers E ctx' (wire_address b) (register_count b)
               (snd (fst (modbus_read_registers E ctx (wire_address a) (register_count a)
                  (snd (mutex_lock E w))))) v))) w"
proof -
  let ?rd = "fst (modbus_read_registers E ctx (wire_address a) (register_count a) (snd (mutex_lock E w)))"
  have st: "stores_at_most (modbus_read_registers E ctx)"
    using assms(2) by (simp add: modbus_read_laws_def)
  have len: "length (snd ?rd) = unat (i16uRegisterCount a)" if "register_count a \<le> fst ?rd"
    using stores_at_mostD(2) [OF st, of "wire_address a" "register_count a" "snd (mutex_lock E w)"] that
      stores_register_count [OF st, of "wire_address a" a "snd (mutex_lock E w)"]
    unfolding register_count_eq by linarith
  have second: "wp (processModbusAction E ctx' \<lparr>eventTriggerTime = tb, eventModbusAction = b\<rparr> buffer')
     (\<lambda>(lb, _) _. fst ?rd = la \<and> register_count a \<le> la \<longrightarrow>
        (\<exists>v. lb = fst (modbus_write_registers E ctx' (wire_address b) (register_count b) (snd ?rd) v))) v"
    if "fst ?rd = la \<and> register_count a \<le> la \<longrightarrow>
          img v = patch_image m (unat (i32uStartByteProcessData a)) (regs_bytes (snd ?rd))" for la m v
    using write_registers_action [OF assms(1,3,4,6), of "\<lparr>eventTriggerTime = tb, eventModbusAction = b\<rparr>" ctx' v]
      that len slice_patch_image [of m "unat (i32uStartByteProcessData a)" "regs_bytes (snd ?rd)"] assms(8-12)
    by (auto simp: Let_def bytes_regs_inverse elim!: wp_mono)
  have "\<not> n < 0" if "register_count a \<le> n" for n
    using negative_is_short(2) [OF that] by simp
  then show ?thesis
    using read_registers_action [OF assms(1-5) _ _ refl, of "\<lparr>eventTriggerTime = ta, eventModbusAction = a\<rparr>"
        "modbus_read_registers E ctx" ctx w] assms(7,12)
    by (auto simp: wp_simps case_prod_unfold negative_is_short split: if_splits elim!: wp_mono
        intro!: wp_mono [OF second [where m = "img w"]])
qed

lemma register_gateway_roundtrip_example:
  "wp (bindM (processModbusAction plant_env 0 (plant_event eREAD_HOLDING_REGISTERS 3 10 0) (replicate 256 0))
        (\<lambda>(la, _). bindM (processModbusAction plant_env 1 (plant_event eWRITE_MULTIPLE_REGISTERS 3 10 0) (replicate 256 0))
        (\<lambda>(lb, _). ret (la, lb))))
     (\<lambda>(la, lb) _. 3 \<le> la \<longrightarrow> lb \<in> {3, -1}) plant0"
  using register_gateway_roundtrip [OF plant_limits plant_reads plant_image_world plant_available,
      of "replicate 256 0" "replicate 256 0"
        "eventModbusAction (plant_event eREAD_HOLDING_REGISTERS 3 10 0)"
        "eventModbusAction (plant_event eWRITE_MULTIPLE_REGISTERS 3 10 0)" 0 "\<lparr>tv_sec = 0, tv_nsec = 0\<rparr>"
        1 "\<lparr>tv_sec = 0, tv_nsec = 0\<rparr>" plant0]
  by (simp add: plant_event_defs register_count_def)
     (auto simp: plant_env_def accept_write_def elim!: wp_mono split: if_splits)

text \<open>
  C24: An action that reads coils or discrete inputs stores coil \<open>i\<close> in bit
  \<open>(start bit + i) mod 8\<close> of byte \<open>start byte + i div 8\<close> when the slave delivered all of them, and
  changes no other bit of the image. A short answer leaves the image unchanged, a failed request
  writes the status byte only. This is not the layout that \<^verbatim>\<open>README.md\<close> describes, one byte of the
  image for each coil or discrete input: the code packs eight of them into a byte, and from a
  start bit other than 0 those that do not fit go to the low bits of the same byte.
\<close>

theorem read_coils_effect:
  assumes "modbus_limits E" "modbus_read_laws E" "image_world E img" "image_available E"
    and "length buffer = 256" "unat (i16uRegisterCount (eventModbusAction ev)) \<le> 256"
    and "unat (i32uStartByteProcessData (eventModbusAction ev))
           + unat (i16uRegisterCount (eventModbusAction ev)) div 8 < 65536"
    and "eFunctionCode (eventModbusAction ev) = eREAD_COILS \<and> read = modbus_read_bits E ctx
       \<or> eFunctionCode (eventModbusAction ev) = eREAD_DISCRETE_INPUTS \<and> read = modbus_read_input_bits E ctx"
  shows "wp (processModbusAction E ctx ev buffer) (\<lambda>(len, _) w'.
    let act = eventModbusAction ev;
        (rc, coils) = fst (read (wire_address act) (register_count act) (snd (mutex_lock E w)));
        start = unat (i32uStartByteProcessData act);
        s = unat (i8uStartBitProcessData act);
        n = unat (i16uRegisterCount act)
    in len = rc
     \<and> (register_count act \<le> rc \<longrightarrow>
          (\<forall>i<n. bit (img w' (start + i div 8)) ((s + i) mod 8) = (coils ! i \<noteq> 0))
        \<and> (\<forall>a b. b < 8 \<longrightarrow> (\<forall>i<n. \<not> (a = start + i div 8 \<and> b = (s + i) mod 8)) \<longrightarrow>
              bit (img w' a) b = bit (img w a) b))
     \<and> (0 \<le> rc \<and> rc < register_count act \<longrightarrow> img w' = img w)
     \<and> (rc < 0 \<longrightarrow> status_written E act (img w) (img w'))) w"
proof -
  let ?act = "eventModbusAction ev" and ?w = "snd (mutex_lock E w)"
  let ?r = "fst (read (wire_address ?act) (register_count ?act) ?w)"
  have "stores_at_most read" "img (snd (read (wire_address ?act) (register_count ?act) ?w)) = img ?w"
    and f: "process_function E ctx (eFunctionCode ?act) ?act buffer = read_bits_case E read ?act buffer"
    using assms(2,8) image_world_frame(1,2) [OF assms(3)] unfolding modbus_read_laws_def by auto
  from read_bits_transfer [OF assms(3,4) this(1) assms(5,6) _ refl this(2)]
  have "wp (process_function E ctx (eFunctionCode ?act) ?act buffer)
     (\<lambda>q w'. fst q = fst ?r \<and> img w' = (if fst q < register_count ?act then img w
         else fold (put_coil ?act (snd ?r)) [0..<unat (i16uRegisterCount ?act)] (img w))) ?w"
    using assms(1,6) unfolding f
    by (auto simp: modbus_limits_def register_count_bounds image_world_frame(11) [OF assms(3)] elim!: wp_mono)
  from processModbusAction_effect [OF assms(3,4) this] show ?thesis
    using put_coils_layout [OF assms(7), of "snd ?r" "img w"]
    by (auto simp: case_prod_unfold Let_def negative_is_short split: if_splits elim!: wp_mono)
qed

theorem read_coils_effect_witness:
  "wp (processModbusAction plant_env 0 (plant_event eREAD_COILS 3 10 0) (replicate 256 0))
     (\<lambda>(len, _) w'. len = 3 \<and> \<not> bit (p_image w' 10) 0 \<and> bit (p_image w' 10) 1 \<and> \<not> bit (p_image w' 10) 5) plant0"
  using read_coils_effect [OF plant_limits plant_reads plant_image_world plant_available,
      of "replicate 256 0" "plant_event eREAD_COILS 3 10 0" "modbus_read_bits plant_env 0" 0 plant0]
  by (simp add: plant_event_defs plant_defs Let_def register_count_def wire_address_def
      MODBUS_ADDRESS_OFFSET_def upt_conv_Cons case_prod_unfold all_less_3 nth_Cons')
     (auto elim!: wp_mono)

text \<open>
  The linear bit position of coil \<open>i\<close> is the linear position of the action's first bit plus
  \<open>i\<close> as long as start bit and coil index together do not pass a byte boundary of the image, and
  eight bits less whenever \<open>start bit + i mod 8\<close> reaches 8: the byte is computed from \<open>i\<close> alone, not from
  \<open>start bit + i\<close>. With a start bit other than 0 such coils land below the first bit of the action.
\<close>

lemma coil_position:
  assumes "unat (i32uStartByteProcessData act) + i div 8 < 65536"
  shows "8 * unat (i16uAddress (coil_data act i v)) + unat (i8uBit (coil_data act i v))
           + (if 8 \<le> unat (i8uStartBitProcessData act) mod 8 + i mod 8 then 8 else 0)
         = 8 * unat (i32uStartByteProcessData act) + unat (i8uStartBitProcessData act) mod 8 + i"
proof -
  have "(s + i) mod 8 + (if 8 \<le> s mod 8 + i mod 8 then 8 else 0) = s mod 8 + i mod 8" for s :: nat
    using mod_add_eq [of s 8 i] mod_less_divisor [of 8 s] mod_less_divisor [of 8 i]
    by (auto simp: mod_if [of "s mod 8 + i mod 8"])
  from this [of "unat (i8uStartBitProcessData act)"] show ?thesis
    using coil_byte_eq [OF assms] div_mult_mod_eq [of i 8]
    unfolding coil_data_fields coil_bit_eq by linarith
qed

lemma coil_position_witness:
  "8 * unat (i16uAddress (coil_data (eventModbusAction (plant_event eREAD_COILS 8 10 4)) 4 0))
     + unat (i8uBit (coil_data (eventModbusAction (plant_event eREAD_COILS 8 10 4)) 4 0)) = 80"
  using coil_position [of "eventModbusAction (plant_event eREAD_COILS 8 10 4)" 4 0]
  by (simp add: plant_event_defs)

text \<open>
  C25: An action that writes multiple coils sends one byte per coil, 1 or 0 as the coil's bit of
  the image stands when the action starts, and returns what the request returned; the image keeps
  all its bits unless the request fails, which writes the status byte. The bit of a coil is that of the
  reading actions: eight coils in a byte of the image, where \<^verbatim>\<open>README.md\<close> has one byte for each.
\<close>

theorem write_coils_effect:
  assumes "modbus_limits E" "image_world E img" "image_available E" "length buffer = 256"
    and "eFunctionCode (eventModbusAction ev) = eWRITE_MULTIPLE_COILS"
    and "unat (i16uRegisterCount (eventModbusAction ev)) \<le> 256"
    and "unat (i32uStartByteProcessData (eventModbusAction ev))
           + unat (i16uRegisterCount (eventModbusAction ev)) div 8 < 65536"
  shows "wp (processModbusAction E ctx ev buffer) (\<lambda>(len, _) w'.
    let act = eventModbusAction ev;
        start = unat (i32uStartByteProcessData act);
        s = unat (i8uStartBitProcessData act);
        coils = map (\<lambda>i. of_bool (bit (img w (start + i div 8)) ((s + i) mod 8)))
                  [0..<unat (i16uRegisterCount act)]
    in (\<exists>v. len = fst (modbus_write_bits E ctx (wire_address act) (register_count act) coils v))
     \<and> (0 \<le> len \<longrightarrow> img w' = img w)
     \<and> (len < 0 \<longrightarrow> status_written E act (img w) (img w'))) w"
proof -
  let ?act = "eventModbusAction ev"
  let ?n = "unat (i16uRegisterCount ?act)"
  have "coil_byte ?act i = unat (i32uStartByteProcessData ?act) + i div 8" if "i < ?n" for i
    using assms(7) div_le_mono [of i ?n 8] that by (intro coil_byte_eq) linarith
  then have coils: "map (image_coil ?act (img w)) [0..<?n]
      = map (\<lambda>i. of_bool (bit (img w (unat (i32uStartByteProcessData ?act) + i div 8))
                           ((unat (i8uStartBitProcessData ?act) + i) mod 8))) [0..<?n]"
    by (simp add: image_coil_def coil_bit_eq)
  have "register_count ?act \<le> MODBUS_MAX_WRITE_BITS E"
    using assms(1,6) by (simp add: modbus_limits_def register_count_bounds)
  from write_coils_transfer [OF assms(2-4,6) this, of ctx "snd (mutex_lock E w)"]
  have "wp (process_function E ctx (eFunctionCode ?act) ?act buffer)
     (\<lambda>q w'. img w' = img w \<and> (\<exists>v. fst q = fst (modbus_write_bits E ctx (wire_address ?act)
        (register_count ?act) (map (image_coil ?act (img w)) [0..<?n]) v))) (snd (mutex_lock E w))"
    using assms(5) by (auto simp: image_world_frame(11) [OF assms(2)] elim!: wp_mono)
  from processModbusAction_effect [OF assms(2,3) this] show ?thesis
    unfolding coils by (auto simp: case_prod_unfold Let_def elim!: wp_mono)
qed

theorem write_coils_effect_witness:
  "wp (processModbusAction plant_env 0 (plant_event eWRITE_MULTIPLE_COILS 16 10 0) (replicate 256 0))
     (\<lambda>(len, _) w'. len \<in> {16, -1} \<and> (len = 16 \<longrightarrow> p_image w' = p_image plant0)) plant0"
  using write_coils_effect [OF plant_limits plant_image_world plant_available,
      of "replicate 256 0" "plant_event eWRITE_MULTIPLE_COILS 16 10 0" 0 plant0]
  by (simp add: plant_event_defs plant_env_def accept_write_def Let_def register_count_def)
     (auto elim!: wp_mono split: if_splits)

text \<open>
  C33: A call that returns a failed request (a negative length) has changed nothing in the process
  image but, at most, the action's status byte, which then holds the error number of the request;
  this holds for every function code and whichever accesses to the image fail.
\<close>

theorem failed_request_writes_status_only:
  assumes "image_world E img"
  shows "wlp (processModbusAction E ctx ev buffer) (\<lambda>(len, _) w'. len < 0 \<longrightarrow>
           img w' = img w \<or> status_written E (eventModbusAction ev) (img w) (img w')) w"
proof -
  have report: "wlp (report_outcome E act len s) (\<lambda>_ w'. len < 0 \<longrightarrow>
      img w' = img v \<or> status_written E act (img v) (img w')) v" for act len s v
    using report_outcome_image [OF assms, of act len s v] by (auto simp: wp_def wlp_def split: outcome.splits prod.splits)
  show ?thesis
    unfolding wp_processModbusAction
    by (auto simp: image_world_frame(11,12) [OF assms]
        intro!: wlp_mono [OF failing_function_image [OF assms]] wlp_mono [OF report])
qed

theorem failed_request_writes_status_only_witness:
  "wlp (processModbusAction plant_env 0 (plant_event eREAD_COILS 3 10 0) (replicate 256 0))
     (\<lambda>(len, _) w'. len < 0 \<longrightarrow> p_image w' = p_image (plant0\<lparr>p_up := False\<rparr>)
        \<or> (\<exists>err. p_image w' = patch_image (\<lambda>_. 0) 70 [status_of_errno plant_env err])) (plant0\<lparr>p_up := False\<rparr>)"
  using failed_request_writes_status_only [OF plant_image_world, of 0 "plant_event eREAD_COILS 3 10 0"
      "replicate 256 0" "plant0\<lparr>p_up := False\<rparr>"]
  by (simp add: plant_event_defs status_written_def plant0_def)

text \<open>
  Resetting the status of an action: when its reset bit is set, the status byte becomes 0 and
  the reset bit is cleared, nothing else changes; when it is not set, nothing changes. The address
  of the reset byte is truncated to 16 bits. A reset bit of 8 or more stands for the whole byte.
\<close>

lemma reset_status_effect:
  assumes "image_world E img" "image_available E"
  shows "wp (reset_modbus_action_status E reset_byte reset_bit status_byte) (\<lambda>rc w'.
    let a = unat (ucast reset_byte :: u16); b = unat reset_bit
    in 0 \<le> rc \<and> img w' =
         (if value_at (img w) a b \<noteq> 0 then patch_value (patch_image (img w) (unat status_byte) [0]) a b 0
          else img w)) w"
  using available_simps(4) [OF assms(2)]
  by (simp add: reset_modbus_action_status_def wp_simps case_prod_unfold Let_def
      available_simps [OF assms(2)] available_simps [OF assms(2), unfolded not_less]
      image_world_access [OF assms(1)])

lemma reset_status_effect_example:
  "wp (reset_modbus_action_status plant_env 80 3 70)
     (\<lambda>rc w'. 0 \<le> rc \<and> p_image w' 70 = 0 \<and> p_image w' 80 = 0 \<and> p_image w' 81 = 7)
     (plant0\<lparr>p_image := (\<lambda>_. 0)(70 := 17, 80 := 8, 81 := 7)\<rparr>)"
  using reset_status_effect [OF plant_image_world plant_available, of 80 3 70
      "plant0\<lparr>p_image := (\<lambda>_. 0)(70 := 17, 80 := 8, 81 := 7)\<rparr>"]
  by (simp add: Let_def patch_bit_def patch_value_def value_at_def patch_image_def) (auto elim!: wp_mono simp: bit_simps)

text \<open>
  With a reset bit of 8 or more any request in the byte, whosever it is, resets the status of this
  action, and all the requests of the byte are gone afterwards.
\<close>

lemma reset_takes_whole_byte:
  assumes "image_world E img" "image_available E" "8 \<le> unat reset_bit"
    and "img w (unat (ucast reset_byte :: u16)) \<noteq> 0"
  shows "wp (reset_modbus_action_status E reset_byte reset_bit status_byte) (\<lambda>_ w'.
    img w' (unat status_byte) = 0 \<and> img w' (unat (ucast reset_byte :: u16)) = 0) w"
  by (rule wp_mono [OF reset_status_effect [OF assms(1,2)]])
     (use assms(3,4) in \<open>auto simp: Let_def value_at_def patch_value_def patch_image_def\<close>)

lemma reset_takes_whole_byte_example:
  "wp (reset_modbus_action_status plant_env 80 12 70)
     (\<lambda>_ w'. p_image w' 70 = 0 \<and> p_image w' 80 = 0) (plant0\<lparr>p_image := (\<lambda>_. 0)(70 := 17, 80 := 8)\<rparr>)"
  using reset_takes_whole_byte [OF plant_image_world plant_available, of 12
      "plant0\<lparr>p_image := (\<lambda>_. 0)(70 := 17, 80 := 8)\<rparr>" 80 70] by simp

text \<open>
  C32: A request to reset a status is never lost, whichever accesses fail: when the reset bit was
  set before the call, then after it the bit is still set or the status byte is 0.
\<close>

theorem reset_request_not_lost:
  assumes "image_world E img" "reset_bit < 8"
    and "bit (img w (unat (ucast reset_byte :: u16))) (unat reset_bit)"
  shows "wp (reset_modbus_action_status E reset_byte reset_bit status_byte) (\<lambda>_ w'.
    bit (img w' (unat (ucast reset_byte :: u16))) (unat reset_bit) \<or> img w' (unat status_byte) = 0) w"
  using assms(3) image_world_access [OF assms(1)]
  by (auto simp: reset_modbus_action_status_def wp_simps case_prod_unfold not_less
      patch_value_def value_at_def word_less_nat_alt patch_bit_def patch_image_def)

theorem reset_request_not_lost_witness:
  "wp (reset_modbus_action_status plant_env 80 3 70)
     (\<lambda>_ w'. bit (p_image w' 80) 3 \<or> p_image w' 70 = 0) (plant0\<lparr>p_image := (\<lambda>_. 0)(70 := 17, 80 := 8)\<rparr>)"
  using reset_request_not_lost [OF plant_image_world, of 3 "plant0\<lparr>p_image := (\<lambda>_. 0)(70 := 17, 80 := 8)\<rparr>" 80 70]
  by (simp add: bit_simps)

end
