(* ===== verification/ProcessImageAccess.thy ===== *)
theory ProcessImageAccess
  imports ComAndDataProcessor Plant
begin

text \<open>
  Exchange between the data of a modbus slave and the process image,
  \<^verbatim>\<open>src/src/piProcessImageAccess.c\<close>. The slave's data lie in the mapping structure of
  \<^verbatim>\<open>libmodbus\<close>: arrays of bits (one byte each) and of registers.
\<close>

section \<open>Operations\<close>

text \<open>
  The lengths are computed on \<^verbatim>\<open>int\<close> (\<open>nb_bits >> 3\<close>, \<open>nb_registers << 1\<close>) and converted to
  \<^verbatim>\<open>uint32_t\<close> for the call. The bytes at the pointers are those of the arrays.
\<close>

definition bits_length :: "int \<Rightarrow> u32" where
  "bits_length nb = word_of_int (drop_bit 3 nb)"

definition registers_length :: "int \<Rightarrow> u32" where
  "registers_length nb = word_of_int (push_bit 1 nb)"

definition writeModbusDataToProcessImage ::
  "'w env \<Rightarrow> modbus_mapping_t \<Rightarrow> TProcessImageConfiguration \<Rightarrow> ('w, int) prog" where
  "writeModbusDataToProcessImage E mbMapping offs =
     bindM (if nb_bits mbMapping > 0 then
              bindM (liftO (load_buf (tab_bits mbMapping) (unat (bits_length (nb_bits mbMapping))))) (\<lambda>data.
              ext (piControlWrite E (u32CoilsInputOffset offs) (bits_length (nb_bits mbMapping)) data))
            else ret 0) (\<lambda>successful.
     if nb_bits mbMapping > 0 \<and> successful \<le> 0 then ret successful
     else if nb_registers mbMapping > 0 then
       bindM (liftO (load_buf (regs_bytes (tab_registers mbMapping))
                       (unat (registers_length (nb_registers mbMapping))))) (\<lambda>data.
       ext (piControlWrite E (u32HoldingRegistersInputOffset offs)
              (registers_length (nb_registers mbMapping)) data))
     else ret successful)"

definition readModbusDataFromProcessImage ::
  "'w env \<Rightarrow> modbus_mapping_t \<Rightarrow> TProcessImageConfiguration \<Rightarrow> ('w, int \<times> modbus_mapping_t) prog" where
  "readModbusDataFromProcessImage E mbMapping offs =
     bindM (if nb_input_bits mbMapping > 0 then
              bindM (ext (piControlRead E (u32DiscreteInputsOffset offs)
                            (bits_length (nb_input_bits mbMapping)))) (\<lambda>(successful, data).
              bindM (liftO (store_buf (tab_input_bits mbMapping) data)) (\<lambda>bits.
              ret (successful, mbMapping\<lparr>tab_input_bits := bits\<rparr>)))
            else ret (0, mbMapping)) (\<lambda>(successful, mbMapping).
     if nb_input_bits mbMapping > 0 \<and> successful \<le> 0 then ret (successful, mbMapping)
     else if nb_input_registers mbMapping > 0 then
       bindM (ext (piControlRead E (u32InputRegistersOffset offs)
                     (registers_length (nb_input_registers mbMapping)))) (\<lambda>(successful, data).
       bindM (liftO (store_buf (regs_bytes (tab_input_registers mbMapping)) data)) (\<lambda>bytes.
       ret (successful, mbMapping\<lparr>tab_input_registers := bytes_regs bytes\<rparr>)))
     else ret (successful, mbMapping))"

section \<open>Well-formed mappings\<close>

text \<open>What \<^verbatim>\<open>modbus_mapping_new\<close> allocates: arrays of the sizes stored beside them.\<close>

definition mapping_ok :: "modbus_mapping_t \<Rightarrow> bool" where
  "mapping_ok m \<longleftrightarrow>
     nb_bits m = int (length (tab_bits m)) \<and> nb_input_bits m = int (length (tab_input_bits m))
   \<and> nb_registers m = int (length (tab_registers m))
   \<and> nb_input_registers m = int (length (tab_input_registers m))
   \<and> length (tab_bits m) < 65536 \<and> length (tab_input_bits m) < 65536
   \<and> length (tab_registers m) < 65536 \<and> length (tab_input_registers m) < 65536"

lemma unat_lengths:
  "n < 65536 \<Longrightarrow> unat (bits_length (int n)) = n div 8"
  "n < 65536 \<Longrightarrow> unat (registers_length (int n)) = 2 * n"
proof -
  have "unat (word_of_nat k :: u32) = k" if "k < 2 ^ 32" for k
    using that by (simp add: unsigned_of_nat take_bit_nat_eq_self)
  note this [of "n div 8"] this [of "2 * n"]
  moreover have "bits_length (int n) = word_of_nat (n div 8)"
  proof -
    have "drop_bit 3 (int n) = int (n div 8)"
      by (simp add: drop_bit_eq_div zdiv_int)
    then show ?thesis
      unfolding bits_length_def by (simp only: of_int_of_nat_eq)
  qed
  moreover have "registers_length (int n) = word_of_nat (2 * n)"
    by (simp add: registers_length_def push_bit_eq_mult mult.commute)
  ultimately show "n < 65536 \<Longrightarrow> unat (bits_length (int n)) = n div 8"
    "n < 65536 \<Longrightarrow> unat (registers_length (int n)) = 2 * n"
    by simp_all
qed

lemma mapping_lengths:
  assumes "mapping_ok m"
  shows "unat (bits_length (nb_bits m)) = length (tab_bits m) div 8"
    and "unat (bits_length (nb_input_bits m)) = length (tab_input_bits m) div 8"
    and "unat (registers_length (nb_registers m)) = 2 * length (tab_registers m)"
    and "unat (registers_length (nb_input_registers m)) = 2 * length (tab_input_registers m)"
    and "0 < nb_bits m \<longleftrightarrow> tab_bits m \<noteq> []" "0 < nb_input_bits m \<longleftrightarrow> tab_input_bits m \<noteq> []"
    and "0 < nb_registers m \<longleftrightarrow> tab_registers m \<noteq> []"
    and "0 < nb_input_registers m \<longleftrightarrow> tab_input_registers m \<noteq> []"
  using assms unat_lengths unfolding mapping_ok_def by simp_all

lemma load_buf_all: "load_buf bs n = Ret (take n bs) \<longleftrightarrow> n \<le> length bs"
  by (simp add: load_buf_def)

lemma available_le:
  assumes "image_available E"
  shows "len \<noteq> 0 \<Longrightarrow> \<not> fst (fst (piControlRead E off len w)) \<le> 0"
  using available_simps(2) [OF assms] by (simp add: not_le)

section \<open>Effects\<close>

lemma writeModbusData_returns:
  assumes "mapping_ok m"
  shows "wp (writeModbusDataToProcessImage E m offs) (\<lambda>_ _. True) w"
  by (auto simp: writeModbusDataToProcessImage_def wp_simps mapping_lengths [OF assms])

text \<open>The image after a complete transfer of coils and holding registers.\<close>

definition slave_output_image :: "modbus_mapping_t \<Rightarrow> TProcessImageConfiguration \<Rightarrow> image \<Rightarrow> image" where
  "slave_output_image m offs im =
     patch_image (patch_image im (unat (u32CoilsInputOffset offs)) (take (length (tab_bits m) div 8) (tab_bits m)))
       (unat (u32HoldingRegistersInputOffset offs)) (regs_bytes (tab_registers m))"

lemma patch_image_Nil [simp]: "patch_image im off [] = im"
  by (rule HOL.ext) (auto simp: patch_image_def)

text \<open>\<open>writes_count\<close>: a successful write of a nonempty block returns a positive code.\<close>

definition writes_count :: "'w env \<Rightarrow> bool" where
  "writes_count E \<longleftrightarrow> (\<forall>off len d w. len \<noteq> 0 \<longrightarrow> 0 < fst (piControlWrite E off len d w))"

lemma plant_writes_count: "writes_count plant_env"
proof -
  have "0 < uint len" if "len \<noteq> 0" for len :: u32
    using that uint_ge_0 [of len] uint_0_iff [of len] by linarith
  then show ?thesis
    by (simp add: writes_count_def plant_env_def)
qed

lemma writes_count_simps:
  assumes "writes_count E" "n \<noteq> 0"
  shows "\<not> fst (piControlWrite E off n d w) < 0" "\<not> fst (piControlWrite E off n d w) \<le> 0"
    and "0 \<le> fst (piControlWrite E off n d w)"
  using assms by (auto simp: writes_count_def not_le not_less less_imp_le)

lemma bits_length_nonzero:
  assumes "mapping_ok m" "8 \<le> length (tab_bits m)"
  shows "bits_length (nb_bits m) \<noteq> 0"
proof
  assume "bits_length (nb_bits m) = 0"
  then have "length (tab_bits m) div 8 = 0"
    using mapping_lengths(1) [OF assms(1)] by simp
  then show False using assms(2) by simp
qed

lemma registers_length_nonzero:
  assumes "mapping_ok m" "tab_registers m \<noteq> []"
  shows "registers_length (nb_registers m) \<noteq> 0"
proof
  assume "registers_length (nb_registers m) = 0"
  then have "2 * length (tab_registers m) = 0"
    using mapping_lengths(3) [OF assms(1)] by simp
  then show False using assms(2) by simp
qed

lemma writeModbusData_image:
  assumes "mapping_ok m" "image_world E img" "writes_count E"
    and "tab_bits m = [] \<or> 8 \<le> length (tab_bits m)"
  shows "wp (writeModbusDataToProcessImage E m offs)
           (\<lambda>rc w'. 0 \<le> rc \<and> img w' = slave_output_image m offs (img w)) w"
proof -
  note simps = writeModbusDataToProcessImage_def slave_output_image_def wp_simps
    mapping_lengths [OF assms(1)] image_world_access(1) [OF assms(2)] writes_count_simps [OF assms(3)]
  show ?thesis
  proof (cases "tab_bits m = []")
    case True
    then show ?thesis
      by (cases "tab_registers m = []") (simp_all add: simps registers_length_nonzero [OF assms(1)])
  next
    case False
    then show ?thesis
      using bits_length_nonzero [OF assms(1)] assms(4)
      by (cases "tab_registers m = []") (simp_all add: simps registers_length_nonzero [OF assms(1)])
  qed
qed

lemma image_world_reads_lengths:
  assumes "image_world E img" "n < 65536"
  shows "length (snd (fst (piControlRead E off (bits_length (int n)) v))) \<le> n"
    and "length (snd (fst (piControlRead E off (registers_length (int n)) v))) \<le> 2 * n"
proof -
  show "length (snd (fst (piControlRead E off (bits_length (int n)) v))) \<le> n"
    using image_world_access(3) [OF assms(1), of off "bits_length (int n)" v]
    unfolding unat_lengths [OF assms(2)] by linarith
  show "length (snd (fst (piControlRead E off (registers_length (int n)) v))) \<le> 2 * n"
    using image_world_access(3) [OF assms(1), of off "registers_length (int n)" v]
    unfolding unat_lengths [OF assms(2)] .
qed

lemma readModbusData_returns:
  assumes "mapping_ok m" "image_world E img"
  shows "wp (readModbusDataFromProcessImage E m offs) (\<lambda>(_, m') _. mapping_ok m') w"
  using assms(1) unfolding readModbusDataFromProcessImage_def
  by (auto simp: wp_simps case_prod_unfold mapping_ok_def length_bytes_regs
      image_world_reads_lengths [OF assms(2)])

text \<open>The mapping after a complete refresh of discrete inputs and input registers.\<close>

definition refreshed_mapping :: "image \<Rightarrow> TProcessImageConfiguration \<Rightarrow> modbus_mapping_t \<Rightarrow> modbus_mapping_t" where
  "refreshed_mapping im offs m =
     m\<lparr>tab_input_bits := slice_image im (unat (u32DiscreteInputsOffset offs)) (length (tab_input_bits m) div 8)
          @ drop (length (tab_input_bits m) div 8) (tab_input_bits m),
       tab_input_registers := bytes_regs (slice_image im (unat (u32InputRegistersOffset offs))
          (2 * length (tab_input_registers m)))\<rparr>"

lemma bytes_regs_Nil: "bytes_regs (slice_image im off 0) = []"
  by (simp add: slice_image_def)

lemma input_lengths_nonzero:
  assumes "mapping_ok m"
  shows "8 \<le> length (tab_input_bits m) \<Longrightarrow> bits_length (nb_input_bits m) \<noteq> 0"
    and "tab_input_registers m \<noteq> [] \<Longrightarrow> registers_length (nb_input_registers m) \<noteq> 0"
proof -
  show "bits_length (nb_input_bits m) \<noteq> 0" if "8 \<le> length (tab_input_bits m)"
    using mapping_lengths(2) [OF assms] div_le_mono [OF that, of 8] by auto
  show "registers_length (nb_input_registers m) \<noteq> 0" if "tab_input_registers m \<noteq> []"
    using mapping_lengths(4) [OF assms] that by auto
qed

lemma readModbusData_mapping:
  assumes "mapping_ok m" "image_world E img" "image_available E"
    and "tab_input_bits m = [] \<or> 8 \<le> length (tab_input_bits m)"
  shows "wp (readModbusDataFromProcessImage E m offs)
           (\<lambda>(rc, m') w'. 0 \<le> rc \<and> img w' = img w \<and> m' = refreshed_mapping (img w) offs m) w"
proof -
  have rd: "0 < fst (fst (piControlRead E off n v))" "\<not> fst (fst (piControlRead E off n v)) \<le> 0"
    "snd (fst (piControlRead E off n v)) = slice_image (img v) (unat off) (unat n)" if "n \<noteq> 0" for off n v
    using available_simps(2) [OF assms(3) that] image_world_access(4) [OF assms(2), of off n v] that
    by (simp_all add: not_le)
  note simps = readModbusDataFromProcessImage_def refreshed_mapping_def wp_simps case_prod_unfold
    mapping_lengths [OF assms(1)] image_world_access(2) [OF assms(2)] rd less_imp_le bytes_regs_Nil
  show ?thesis
  proof (cases "tab_input_bits m = []")
    case True
    then show ?thesis
      by (cases "tab_input_registers m = []")
         (simp_all add: simps input_lengths_nonzero [OF assms(1)] slice_image_def)
  next
    case False
    then show ?thesis
      using input_lengths_nonzero(1) [OF assms(1)] assms(4)
      by (cases "tab_input_registers m = []")
         (simp_all add: simps input_lengths_nonzero [OF assms(1)])
  qed
qed

section \<open>Properties\<close>

definition demo_mapping :: "u16 list \<Rightarrow> modbus_mapping_t" where
  "demo_mapping regs = \<lparr>nb_bits = 0, nb_input_bits = 0, nb_input_registers = int (length regs),
     nb_registers = int (length regs), tab_bits = [], tab_input_bits = [],
     tab_input_registers = replicate (length regs) 0, tab_registers = regs\<rparr>"

definition demo_offsets :: "u32 \<Rightarrow> u32 \<Rightarrow> TProcessImageConfiguration" where
  "demo_offsets hold inp = \<lparr>u32DiscreteInputsOffset = 0, u32DiscreteInputsLength = 0, u32CoilsInputOffset = 0,
     u32CoilsLength = 0, u32InputRegistersOffset = inp, u32InputRegistersLength = 4,
     u32HoldingRegistersInputOffset = hold, u32HoldingRegistersLength = 4\<rparr>"

text \<open>
  Registers travel between slaves through the process image: when one slave writes its data
  to the image and another, whose input registers lie at the offset of the first one's holding
  registers, refreshes its mapping from it, the input registers of the second are exactly the
  holding registers of the first.
\<close>

lemma slave_registers_roundtrip:
  assumes "image_world E img" "image_available E" "writes_count E" "mapping_ok m" "mapping_ok m'"
    and "tab_bits m = []" "tab_input_bits m' = []"
    and "length (tab_input_registers m') = length (tab_registers m)"
    and "u32InputRegistersOffset offs' = u32HoldingRegistersInputOffset offs"
  shows "wp (seqM (writeModbusDataToProcessImage E m offs) (readModbusDataFromProcessImage E m' offs'))
           (\<lambda>(rc, m'') _. 0 \<le> rc \<and> m'' = m'\<lparr>tab_input_registers := tab_registers m\<rparr>) w"
proof -
  let ?off = "unat (u32HoldingRegistersInputOffset offs)"
  have "slice_image (slave_output_image m offs im) ?off (2 * length (tab_registers m)) = regs_bytes (tab_registers m)" for im
    using slice_patch_image [of _ ?off "regs_bytes (tab_registers m)"] by (simp add: slave_output_image_def)
  then have "refreshed_mapping (slave_output_image m offs im) offs' m' = m'\<lparr>tab_input_registers := tab_registers m\<rparr>" for im
    using assms(7-9) by (simp add: refreshed_mapping_def bytes_regs_inverse slice_image_def)
  then show ?thesis
    unfolding wp_bind
    by (intro wp_mono [OF writeModbusData_image [OF assms(4,1,3)]]
        wp_mono [OF readModbusData_mapping [OF assms(5,1,2)]]) (auto simp: assms(6,7))
qed

lemma slave_registers_roundtrip_example:
  "wp (seqM (writeModbusDataToProcessImage plant_env (demo_mapping [1000, 2000]) (demo_offsets 40 0))
            (readModbusDataFromProcessImage plant_env (demo_mapping [0, 0]) (demo_offsets 90 40)))
     (\<lambda>(rc, m'') _. tab_input_registers m'' = [1000, 2000]) plant0"
  using slave_registers_roundtrip [OF plant_image_world plant_available plant_writes_count,
      of "demo_mapping [1000, 2000]" "demo_mapping [0, 0]" "demo_offsets 90 40" "demo_offsets 40 0" plant0]
  by (simp add: demo_mapping_def demo_offsets_def mapping_ok_def) (auto elim!: wp_mono)

text \<open>
  What a slave writes to the image for its coils: the bytes of the first eighth of them, one
  byte per coil. The array holds one coil per byte, but the length is computed as if it held eight:
  with \<open>n\<close> coils, byte \<open>k\<close> of the coil area is coil \<open>k\<close> for \<open>k < n div 8\<close>, and everything behind it
  is left as it was, so no other coil reaches the image.
\<close>

lemma slave_coils_truncated:
  assumes "image_world E img" "writes_count E" "mapping_ok m" "8 \<le> length (tab_bits m)"
    and "tab_registers m = []"
  shows "wp (writeModbusDataToProcessImage E m offs) (\<lambda>_ w'.
     (\<forall>k < length (tab_bits m) div 8. img w' (unat (u32CoilsInputOffset offs) + k) = tab_bits m ! k)
   \<and> (\<forall>a. a < unat (u32CoilsInputOffset offs)
        \<or> unat (u32CoilsInputOffset offs) + length (tab_bits m) div 8 \<le> a \<longrightarrow> img w' a = img w a)) w"
proof (rule wp_mono [OF writeModbusData_image [OF assms(3,1,2)]])
  let ?n = "length (tab_bits m) div 8" and ?off = "unat (u32CoilsInputOffset offs)"
  have "length (take ?n (tab_bits m)) = ?n"
    by simp
  then show "(\<forall>k < ?n. img w' (?off + k) = tab_bits m ! k)
      \<and> (\<forall>a. a < ?off \<or> ?off + ?n \<le> a \<longrightarrow> img w' a = img w a)"
    if "0 \<le> rc \<and> img w' = slave_output_image m offs (img w)" for rc w'
    using that patch_image_inside [of _ "take ?n (tab_bits m)" "img w" ?off]
      patch_image_outside [of _ ?off "take ?n (tab_bits m)" "img w"] assms(5)
    by (auto simp: slave_output_image_def)
qed (use assms(4) in simp)

lemma slave_coils_truncated_witness:
  "wp (writeModbusDataToProcessImage plant_env ((demo_mapping [])\<lparr>nb_bits := 16, tab_bits := replicate 16 1\<rparr>)
         (demo_offsets 40 0))
     (\<lambda>_ w'. p_image w' 0 = 1 \<and> p_image w' 1 = 1 \<and> p_image w' 2 = 0) plant0"
  using slave_coils_truncated [OF plant_image_world plant_writes_count,
      of "(demo_mapping [])\<lparr>nb_bits := 16, tab_bits := replicate 16 1\<rparr>" "demo_offsets 40 0" plant0]
  by (simp add: demo_mapping_def demo_offsets_def mapping_ok_def plant0_def)
     (auto elim!: wp_mono simp: numeral_2_eq_2 less_Suc_eq)

end
