(* ===== verification/ModbusSlaveThread.thy ===== *)
theory ModbusSlaveThread
  imports ProcessImageAccess
begin

text \<open>
  The slave threads, \<^verbatim>\<open>src/src/ModbusSlaveThread.c\<close>. A thread is a step function on the phases of
  its start routine: one step is one pass through a retry loop or through the main loop. The
  structures registered with \<^verbatim>\<open>pthread_cleanup_push\<close> are run when a step calls \<^verbatim>\<open>pthread_exit\<close>; the
  final phase records, in order, what has been released on that way.
\<close>

section \<open>One request\<close>

definition request_code :: "EModbusFunction \<Rightarrow> u8" where
  "request_code f = ucast (function_code f)"

definition reading_code :: "u8 \<Rightarrow> bool" where
  "reading_code c \<longleftrightarrow> c = request_code eREAD_INPUT_REGISTERS \<or> c = request_code eREAD_DISCRETE_INPUTS"

definition writing_code :: "u8 \<Rightarrow> bool" where
  "writing_code c \<longleftrightarrow> c = request_code eWRITE_MULTIPLE_COILS \<or> c = request_code eWRITE_MULTIPLE_REGISTERS
     \<or> c = request_code eWRITE_SINGLE_COIL \<or> c = request_code eWRITE_SINGLE_REGISTER
     \<or> c = request_code eWRITE_AND_READ_REGISTERS \<or> c = request_code eWRITE_MASK_REGISTER"

text \<open>
  The request buffer has \<^verbatim>\<open>MODBUS_TCP_MAX_ADU_LENGTH\<close> bytes; \<open>req\<close> is the part of it that
  \<open>modbus_receive\<close> has written, reading behind it is a fault.
\<close>

definition process_modbus_request ::
  "'w env \<Rightarrow> modbus_t \<Rightarrow> modbus_mapping_t \<Rightarrow> TModbusSlaveConfiguration \<Rightarrow> ('w, int \<times> modbus_mapping_t) prog" where
  "process_modbus_request E mb_slave mapping cfg =
     bindM (ext (modbus_receive E mb_slave)) (\<lambda>(len, req).
     if MODBUS_TCP_MAX_ADU_LENGTH E < length req then faultM
     else if len > 0 then
       bindM (ext (modbus_get_header_length E mb_slave)) (\<lambda>header.
       if header < 0 \<or> int (length req) \<le> header then faultM
       else let mb_function_code = req ! nat header in
         bindM (if reading_code mb_function_code
                then bindM (readModbusDataFromProcessImage E mapping (tProcessImageConfig cfg)) (\<lambda>(_, m). ret m)
                else ret mapping) (\<lambda>mapping.
         bindM (ext (modbus_reply E mb_slave req len mapping)) (\<lambda>(len, mapping).
         if len = -1 then ret (-1, mapping)
         else seqM (if writing_code mb_function_code
                    then bindM (writeModbusDataToProcessImage E mapping (tProcessImageConfig cfg)) (\<lambda>_. ret ())
                    else ret ())
              (ret (0, mapping)))))
     else if len = -1 then ret (-1, mapping)
     else ret (0, mapping))"

section \<open>Releasing resources\<close>

datatype release = FreeMapping | CloseContext modbus_t | FreeContext modbus_t | CloseFd nat

text \<open>\<^verbatim>\<open>__FD_SETSIZE\<close> of the C library: descriptors that fit into a set for \<^verbatim>\<open>select\<close>.\<close>

definition FD_SETSIZE :: nat where
  "FD_SETSIZE = 1024"

definition release_context :: "'w env \<Rightarrow> modbus_t option \<Rightarrow> ('w, release list) prog" where
  "release_context E ctx = (case ctx of None \<Rightarrow> ret []
     | Some c \<Rightarrow> seqM (ext (modbus_close E c)) (seqM (ext (modbus_free E c)) (ret [CloseContext c, FreeContext c])))"

fun close_fds :: "'w env \<Rightarrow> nat set \<Rightarrow> nat list \<Rightarrow> ('w, release list) prog" where
  "close_fds E fdset [] = ret []"
| "close_fds E fdset (fd # fds) =
     (if fd \<in> fdset
      then seqM (ext (close_fd E fd)) (bindM (close_fds E fdset fds) (\<lambda>t. ret (CloseFd fd # t)))
      else close_fds E fdset fds)"

definition cleanupTcpSlaveThread ::
  "'w env \<Rightarrow> modbus_mapping_t option \<Rightarrow> modbus_t option \<Rightarrow> nat set \<Rightarrow> ('w, release list) prog" where
  "cleanupTcpSlaveThread E mapping ctx fdset =
     bindM (release_context E ctx) (\<lambda>t.
     bindM (close_fds E fdset [0..<FD_SETSIZE]) (\<lambda>u.
     ret ((if mapping = None then [] else [FreeMapping]) @ t @ u)))"

definition cleanupRtuSlaveThread ::
  "'w env \<Rightarrow> modbus_mapping_t option \<Rightarrow> modbus_t option \<Rightarrow> ('w, release list) prog" where
  "cleanupRtuSlaveThread E mapping ctx =
     bindM (release_context E ctx) (\<lambda>t. ret ((if mapping = None then [] else [FreeMapping]) @ t))"

section \<open>TCP slave\<close>

record tcp_slave =
  mbMapping :: modbus_mapping_t
  mb_slave :: modbus_t
  server_socket :: nat
  refset :: "nat set"
  fdmax :: nat

datatype tcp_slave_phase =
    TS_start
  | TS_listen modbus_mapping_t modbus_t
  | TS_loop tcp_slave
  | TS_exit "release list"

definition tcp_config :: "TModbusDeviceConfiguration \<Rightarrow> TTcpConfig outcome" where
  "tcp_config cfg = (case uProt cfg of tTcpConfig c \<Rightarrow> Ret c | tRtuConfig _ \<Rightarrow> Fault)"

definition rtu_config :: "TModbusDeviceConfiguration \<Rightarrow> TRtuConfig outcome" where
  "rtu_config cfg = (case uProt cfg of tRtuConfig c \<Rightarrow> Ret c | tTcpConfig _ \<Rightarrow> Fault)"

definition new_mapping :: "'w env \<Rightarrow> TModbusSlaveConfiguration \<Rightarrow> ('w, modbus_mapping_t option) prog" where
  "new_mapping E cfg =
     ext (modbus_mapping_new E (uint (u16Coils (tModbusDataConfig cfg)))
            (uint (u16DiscreteInputs (tModbusDataConfig cfg)))
            (uint (u16HoldingRegisters (tModbusDataConfig cfg)))
            (uint (u16InputRegisters (tModbusDataConfig cfg))))"

definition tcp_slave_start :: "'w env \<Rightarrow> TModbusSlaveConfiguration \<Rightarrow> ('w, tcp_slave_phase) prog" where
  "tcp_slave_start E cfg =
     bindM (new_mapping E cfg) (\<lambda>mapping. case mapping of
       None \<Rightarrow> bindM (cleanupTcpSlaveThread E None None {}) (\<lambda>t. ret (TS_exit t))
     | Some m \<Rightarrow> bindM (liftO (tcp_config (slaveDeviceConfig cfg))) (\<lambda>tcp.
         bindM (ext (modbus_new_tcp_pi E (szTcpIpAddress tcp) (i32uPort tcp))) (\<lambda>ctx. case ctx of
           None \<Rightarrow> bindM (cleanupTcpSlaveThread E (Some m) None {}) (\<lambda>t. ret (TS_exit t))
         | Some c \<Rightarrow> ret (TS_listen m c))))"

text \<open>\<^verbatim>\<open>FD_SET\<close> and \<^verbatim>\<open>FD_ISSET\<close> of a descriptor outside the set are faults.\<close>

definition tcp_slave_listen ::
  "'w env \<Rightarrow> TModbusSlaveConfiguration \<Rightarrow> modbus_mapping_t \<Rightarrow> modbus_t \<Rightarrow> ('w, tcp_slave_phase) prog" where
  "tcp_slave_listen E cfg m c =
     bindM (liftO (tcp_config (slaveDeviceConfig cfg))) (\<lambda>tcp.
     bindM (ext (modbus_tcp_pi_listen E c (maxModbusConnections tcp))) (\<lambda>rc.
       if rc = -1 then seqM (ext (sleep_for E \<lparr>tv_sec = 5, tv_nsec = 0\<rparr>)) (ret (TS_listen m c))
       else if rc < 0 \<or> int FD_SETSIZE \<le> rc then faultM
       else ret (TS_loop \<lparr>mbMapping = m, mb_slave = c, server_socket = nat rc,
                          refset = {nat rc}, fdmax = nat rc\<rparr>)))"

text \<open>What the loop over the descriptors does with a ready one.\<close>

definition accept_connection :: "'w env \<Rightarrow> tcp_slave \<Rightarrow> ('w, tcp_slave) prog" where
  "accept_connection E t =
     bindM (ext (accept_fd E (server_socket t))) (\<lambda>newfd.
       if newfd = -1 then ret t
       else if newfd < 0 \<or> int FD_SETSIZE \<le> newfd then faultM
       else ret (t\<lparr>refset := insert (nat newfd) (refset t), fdmax := max (fdmax t) (nat newfd)\<rparr>))"

definition serve_connection ::
  "'w env \<Rightarrow> TModbusSlaveConfiguration \<Rightarrow> nat \<Rightarrow> tcp_slave \<Rightarrow> ('w, tcp_slave) prog" where
  "serve_connection E cfg fd t =
     seqM (ext (modbus_set_socket E (mb_slave t) (int fd)))
     (bindM (process_modbus_request E (mb_slave t) (mbMapping t) cfg) (\<lambda>(rc, m).
        if rc < 0 then
          seqM (ext (close_fd E fd))
          (ret (t\<lparr>mbMapping := m, refset := refset t - {fd},
                  fdmax := (if fd = fdmax t then fdmax t - 1 else fdmax t)\<rparr>))
        else ret (t\<lparr>mbMapping := m\<rparr>)))"

text \<open>
  The loop \<^verbatim>\<open>for (master_socket = 0; master_socket <= fdmax; master_socket++)\<close> over the descriptors
  of the set, which it must leave before the first descriptor outside of it.
\<close>

fun serve_sockets ::
  "'w env \<Rightarrow> TModbusSlaveConfiguration \<Rightarrow> nat set \<Rightarrow> nat list \<Rightarrow> tcp_slave \<Rightarrow> ('w, tcp_slave) prog" where
  "serve_sockets E cfg rdset [] t = (if FD_SETSIZE \<le> fdmax t then faultM else ret t)"
| "serve_sockets E cfg rdset (fd # fds) t =
     (if fdmax t < fd then ret t
      else if fd \<notin> rdset then serve_sockets E cfg rdset fds t
      else bindM (if fd = server_socket t then accept_connection E t else serve_connection E cfg fd t) (\<lambda>t.
             serve_sockets E cfg rdset fds t))"

definition tcp_slave_loop :: "'w env \<Rightarrow> TModbusSlaveConfiguration \<Rightarrow> tcp_slave \<Rightarrow> ('w, tcp_slave_phase) prog" where
  "tcp_slave_loop E cfg t =
     bindM (ext (select_read E (fdmax t + 1) (refset t))) (\<lambda>(rc, rdset).
       if rc = -1 then
         seqM (ext (close_fd E (server_socket t)))
         (bindM (cleanupTcpSlaveThread E (Some (mbMapping t)) (Some (mb_slave t)) (refset t)) (\<lambda>u.
            ret (TS_exit (CloseFd (server_socket t) # u))))
       else bindM (serve_sockets E cfg rdset [0..<FD_SETSIZE] t) (\<lambda>t. ret (TS_loop t)))"

fun startTcpSlaveThread :: "'w env \<Rightarrow> TModbusSlaveConfiguration \<Rightarrow> tcp_slave_phase \<Rightarrow> ('w, tcp_slave_phase) prog" where
  "startTcpSlaveThread E cfg TS_start = tcp_slave_start E cfg"
| "startTcpSlaveThread E cfg (TS_listen m c) = tcp_slave_listen E cfg m c"
| "startTcpSlaveThread E cfg (TS_loop t) = tcp_slave_loop E cfg t"
| "startTcpSlaveThread E cfg (TS_exit u) = ret (TS_exit u)"

section \<open>RTU slave\<close>

datatype rtu_slave_phase =
    RS_wait
  | RS_loop modbus_mapping_t modbus_t
  | RS_exit "release list"

definition rtu_slave_exit :: "'w env \<Rightarrow> modbus_mapping_t option \<Rightarrow> modbus_t option \<Rightarrow> ('w, rtu_slave_phase) prog" where
  "rtu_slave_exit E m c = bindM (cleanupRtuSlaveThread E m c) (\<lambda>t. ret (RS_exit t))"

definition rtu_slave_open :: "'w env \<Rightarrow> TModbusSlaveConfiguration \<Rightarrow> TRtuConfig \<Rightarrow> ('w, rtu_slave_phase) prog" where
  "rtu_slave_open E cfg rtu =
     bindM (new_mapping E cfg) (\<lambda>mapping. case mapping of
       None \<Rightarrow> rtu_slave_exit E None None
     | Some m \<Rightarrow>
         bindM (ext (modbus_new_rtu E (sz8DeviceFilePath rtu) (i32uBaud rtu) (cParity rtu) (i8uDatabits rtu)
                       (i8uStopbits rtu))) (\<lambda>ctx. case ctx of
           None \<Rightarrow> rtu_slave_exit E (Some m) None
         | Some c \<Rightarrow>
             bindM (ext (modbus_set_slave E c (uint (u8DeviceModbusAddress rtu)))) (\<lambda>rc.
             if rc = -1 then rtu_slave_exit E (Some m) (Some c)
             else bindM (ext (modbus_connect E c)) (\<lambda>rc.
               if rc = -1 then rtu_slave_exit E (Some m) (Some c)
               else ret (RS_loop m c)))))"

fun startRtuSlaveThread :: "'w env \<Rightarrow> TModbusSlaveConfiguration \<Rightarrow> rtu_slave_phase \<Rightarrow> ('w, rtu_slave_phase) prog" where
  "startRtuSlaveThread E cfg RS_wait =
     bindM (liftO (rtu_config (slaveDeviceConfig cfg))) (\<lambda>rtu.
     bindM (ext (access_rw E (sz8DeviceFilePath rtu))) (\<lambda>rc.
       if rc \<noteq> 0 then seqM (ext (sleep_for E \<lparr>tv_sec = 1, tv_nsec = 0\<rparr>)) (ret RS_wait)
       else rtu_slave_open E cfg rtu))"
| "startRtuSlaveThread E cfg (RS_loop m c) =
     bindM (process_modbus_request E c m cfg) (\<lambda>(_, m). ret (RS_loop m c))"
| "startRtuSlaveThread E cfg (RS_exit u) = ret (RS_exit u)"

section \<open>Assumptions\<close>

text \<open>
  What the documentation of \<^verbatim>\<open>libmodbus\<close> says of the slave's calls: a received request fits the
  buffer and is longer than its header; answering it changes the coils and holding registers of
  the mapping for writing function codes only, and never the sizes of its arrays.
\<close>

definition slave_laws :: "'w env \<Rightarrow> ('w \<Rightarrow> image) \<Rightarrow> bool" where
  "slave_laws E img \<longleftrightarrow>
     (\<forall>c w. case modbus_receive E c w of ((len, req), w') \<Rightarrow>
        img w' = img w \<and> length req \<le> MODBUS_TCP_MAX_ADU_LENGTH E
        \<and> (0 < len \<longrightarrow> (\<forall>v. 0 \<le> fst (modbus_get_header_length E c v)
                          \<and> fst (modbus_get_header_length E c v) < int (length req))))
   \<and> (\<forall>c w. img (snd (modbus_get_header_length E c w)) = img w)
   \<and> (\<forall>c req len m w. case modbus_reply E c req len m w of ((rc, m'), w') \<Rightarrow>
        img w' = img w \<and> (mapping_ok m \<longrightarrow> mapping_ok m')
        \<and> length (tab_bits m') = length (tab_bits m)
        \<and> length (tab_registers m') = length (tab_registers m))
   \<and> (\<forall>c req len m w v. writing_code (req ! nat (fst (modbus_get_header_length E c v)))
        \<or> tab_bits (snd (fst (modbus_reply E c req len m w))) = tab_bits m
          \<and> tab_registers (snd (fst (modbus_reply E c req len m w))) = tab_registers m)"

lemma slave_lawsD:
  assumes "slave_laws E img"
  shows "img (snd (modbus_receive E c w)) = img w"
    and "length (snd (fst (modbus_receive E c w))) \<le> MODBUS_TCP_MAX_ADU_LENGTH E"
    and "0 < fst (fst (modbus_receive E c w)) \<Longrightarrow> 0 \<le> fst (modbus_get_header_length E c v)"
    and "0 < fst (fst (modbus_receive E c w)) \<Longrightarrow>
           fst (modbus_get_header_length E c v) < int (length (snd (fst (modbus_receive E c w))))"
    and "img (snd (modbus_get_header_length E c w)) = img w"
    and "img (snd (modbus_reply E c req len m w)) = img w"
    and "mapping_ok m \<Longrightarrow> mapping_ok (snd (fst (modbus_reply E c req len m w)))"
    and "length (tab_bits (snd (fst (modbus_reply E c req len m w)))) = length (tab_bits m)"
    and "length (tab_registers (snd (fst (modbus_reply E c req len m w)))) = length (tab_registers m)"
    and "\<not> writing_code (req ! nat (fst (modbus_get_header_length E c v))) \<Longrightarrow>
           tab_bits (snd (fst (modbus_reply E c req len m w))) = tab_bits m
         \<and> tab_registers (snd (fst (modbus_reply E c req len m w))) = tab_registers m"
  using assms unfolding slave_laws_def by (simp_all add: case_prod_unfold) blast

lemma plant_slave: "slave_laws plant_env p_image"
proof -
  have "mapping_ok m \<Longrightarrow> mapping_ok (m\<lparr>tab_registers := map ((+) 1) (tab_registers m)\<rparr>)" for m
    by (simp add: mapping_ok_def)
  then show ?thesis
    by (auto simp: slave_laws_def plant_env_def writing_code_def request_code_def)
qed

lemma plant_slave_calls:
  "modbus_receive plant_env c w = (if 7 < length (p_request w) \<and> length (p_request w) \<le> 260
     then ((int (length (p_request w)), p_request w), w) else ((-1, []), w))"
  "modbus_get_header_length plant_env c w = (7, w)"
  "modbus_reply plant_env c req len m w = ((len,
     if 7 < length req \<and> req ! 7 = 6 then m\<lparr>tab_registers := map ((+) 1) (tab_registers m)\<rparr> else m), w)"
  by (simp_all add: plant_env_def)

section \<open>Requests\<close>

lemma process_modbus_request_returns:
  assumes "slave_laws E img" "image_world E img" "mapping_ok m"
  shows "wp (process_modbus_request E c m cfg) (\<lambda>(rc, m') _. mapping_ok m' \<and> rc \<in> {-1, 0}) w"
proof -
  have rd: "wp (readModbusDataFromProcessImage E m offs) (\<lambda>r _. mapping_ok (snd r)) v" for offs v
    using readModbusData_returns [OF assms(3,2), of offs v] by (auto elim!: wp_mono)
  have wr: "wp (writeModbusDataToProcessImage E m' offs) (\<lambda>_ _. True) v" if "mapping_ok m'" for m' offs v
    using that by (rule writeModbusData_returns)
  note laws = slave_lawsD [OF assms(1)]
  show ?thesis
  proof (cases "0 < fst (fst (modbus_receive E c w))")
    case True
    then have "\<not> fst (modbus_get_header_length E c v) < 0"
      "\<not> int (length (snd (fst (modbus_receive E c w)))) \<le> fst (modbus_get_header_length E c v)" for v
      using laws(3,4) [of c w v] by simp_all
    with True show ?thesis
      using assms(3) laws(2) [of c w] unfolding process_modbus_request_def
      by (auto simp: wp_simps case_prod_unfold Let_def laws(7) intro!: wp_mono [OF rd] wp_mono [OF wr])
  next
    case False
    then show ?thesis
      using assms(3) laws(2) [of c w] unfolding process_modbus_request_def
      by (auto simp: wp_simps case_prod_unfold)
  qed
qed

text \<open>A request that has been received and whose header the buffer holds, step by step.\<close>

lemma process_modbus_request_received:
  assumes "slave_laws E img" "0 < fst (fst (modbus_receive E c w))"
  shows "wp (process_modbus_request E c m cfg) Q w \<longleftrightarrow>
    (let req = snd (fst (modbus_receive E c w));
         w1 = snd (modbus_receive E c w);
         code = req ! nat (fst (modbus_get_header_length E c w1))
     in wp (bindM (if reading_code code
                   then bindM (readModbusDataFromProcessImage E m (tProcessImageConfig cfg)) (\<lambda>(_, m). ret m)
                   else ret m) (\<lambda>m.
            bindM (ext (modbus_reply E c req (fst (fst (modbus_receive E c w))) m)) (\<lambda>(len, m).
            if len = -1 then ret (-1, m)
            else seqM (if writing_code code
                       then bindM (writeModbusDataToProcessImage E m (tProcessImageConfig cfg)) (\<lambda>_. ret ())
                       else ret ()) (ret (0, m)))))
          Q (snd (modbus_get_header_length E c w1)))"
proof -
  have "\<not> fst (modbus_get_header_length E c v) < 0"
    and "\<not> int (length (snd (fst (modbus_receive E c w)))) \<le> fst (modbus_get_header_length E c v)"
    and "\<not> MODBUS_TCP_MAX_ADU_LENGTH E < length (snd (fst (modbus_receive E c w)))" for v
    using slave_lawsD(2-4) [OF assms(1), of c w] assms(2) by (simp_all add: not_less not_le)
  with assms(2) show ?thesis
    unfolding process_modbus_request_def Let_def wp_bind(1) [of "ext (modbus_receive E c)"]
      wp_bind(1) [of "ext (modbus_get_header_length E c)"] wp_prims(4) case_prod_unfold wp_if
    by simp
qed



text \<open>
  When a master asks a slave for input registers or discrete inputs, the answer is made from a
  mapping refreshed from the process image just before: its input registers are the bytes of the
  image at the slave's input offset at the time of the request. Answering changes no byte of the image.
\<close>

lemma input_request_is_fresh:
  assumes "slave_laws E img" "image_world E img" "image_available E" "mapping_ok m"
    and "tab_input_bits m = []"
    and "\<forall>v. fst (modbus_get_header_length E c v) = header"
    and "0 < fst (fst (modbus_receive E c w))"
    and "reading_code (snd (fst (modbus_receive E c w)) ! nat header)"
  shows "wp (process_modbus_request E c m cfg) (\<lambda>(rc, m') w'. img w' = img w \<and>
     (\<exists>v. let (len, m'') = fst (modbus_reply E c (snd (fst (modbus_receive E c w))) (fst (fst (modbus_receive E c w)))
                             (m\<lparr>tab_input_registers := bytes_regs (slice_image (img w)
                                  (unat (u32InputRegistersOffset (tProcessImageConfig cfg)))
                                  (2 * length (tab_input_registers m)))\<rparr>) v)
          in m' = m'' \<and> rc = (if len = -1 then -1 else 0))) w"
proof -
  have notw: "\<not> writing_code (snd (fst (modbus_receive E c w)) ! nat header)"
    using assms(8) by (auto simp: reading_code_def writing_code_def request_code_def)
  have refresh: "refreshed_mapping im offs m = m\<lparr>tab_input_registers := bytes_regs (slice_image im
      (unat (u32InputRegistersOffset offs)) (2 * length (tab_input_registers m)))\<rparr>" for im offs
    using assms(5) by (simp add: refreshed_mapping_def slice_image_def)
  note read = readModbusData_mapping [OF assms(4,2,3), unfolded refresh]
  note frame = slave_lawsD(1,5,6) [OF assms(1)]
  show ?thesis
    unfolding process_modbus_request_received [OF assms(1,7)]
    using assms(5-8) notw
    by (auto simp: Let_def wp_simps case_prod_unfold frame intro!: wp_mono [OF read])
qed


section \<open>Properties of requests\<close>

lemma slice_image_2: "slice_image im off 2 = [im off, im (Suc off)]"
  by (simp add: slice_image_def numeral_2_eq_2)

definition demo_slave :: "u32 \<Rightarrow> u32 \<Rightarrow> TModbusSlaveConfiguration" where
  "demo_slave hold inp =
     \<lparr>slaveDeviceConfig = \<lparr>eProtocol = eProtTCP,
        uProt = tTcpConfig \<lparr>szTcpIpAddress = ''0.0.0.0'', i32uPort = 502, maxModbusConnections = 8\<rparr>,
        i32uDeviceStatusByteProcessImageOffset = 0, i32uDeviceStatusResetByteProcessImageByteOffset = 0\<rparr>,
      tModbusDataConfig = \<lparr>u16DiscreteInputs = 0, u16Coils = 0, u16InputRegisters = 2, u16HoldingRegisters = 2\<rparr>,
      tProcessImageConfig = demo_offsets hold inp\<rparr>"

lemma input_request_is_fresh_example:
  "wp (process_modbus_request plant_env 0 (demo_mapping [7]) (demo_slave 40 20))
     (\<lambda>(rc, m') _. tab_input_registers m' = [0x0201])
     (plant0\<lparr>p_request := [0, 0, 0, 0, 0, 0, 0, 4], p_image := (\<lambda>_. 0)(20 := 1, 21 := 2)\<rparr>)"
  using input_request_is_fresh [OF plant_slave plant_image_world plant_available,
      of "demo_mapping [7]" 0 7
        "plant0\<lparr>p_request := [0, 0, 0, 0, 0, 0, 0, 4], p_image := (\<lambda>_. 0)(20 := 1, 21 := 2)\<rparr>" "demo_slave 40 20"]
  by (simp add: demo_mapping_def demo_slave_def demo_offsets_def mapping_ok_def plant_slave_calls reading_code_def
      request_code_def slice_image_2 u16_of_bytes_def)
     (auto elim!: wp_mono)



section \<open>The descriptors of the TCP slave\<close>

text \<open>
  The descriptors in use as a view \<open>fds\<close> of the world: accepting and listening yield a new one,
  closing releases one, and \<open>select\<close> reports only descriptors it was asked about.
\<close>

definition yields_fd :: "('w \<Rightarrow> nat set) \<Rightarrow> ('w \<Rightarrow> int \<times> 'w) \<Rightarrow> bool" where
  "yields_fd fds f \<longleftrightarrow> (\<forall>w. case f w of (rc, w') \<Rightarrow>
     -1 \<le> rc \<and> (if rc = -1 then fds w' = fds w
                else nat rc \<notin> fds w \<and> fds w' = insert (nat rc) (fds w)))"

definition fd_laws :: "'w env \<Rightarrow> ('w \<Rightarrow> nat set) \<Rightarrow> bool" where
  "fd_laws E fds \<longleftrightarrow>
     (\<forall>s. yields_fd fds (accept_fd E s)) \<and> (\<forall>c n. yields_fd fds (modbus_tcp_pi_listen E c n))
   \<and> (\<forall>s w. fds (snd (close_fd E s w)) = fds w - {s})
   \<and> (\<forall>n A w. case select_read E n A w of ((rc, B), w') \<Rightarrow> fds w' = fds w \<and> B \<subseteq> A)
   \<and> (\<forall>c w. fds (snd (modbus_receive E c w)) = fds w)
   \<and> (\<forall>c w. fds (snd (modbus_get_header_length E c w)) = fds w)
   \<and> (\<forall>c req len m w. fds (snd (modbus_reply E c req len m w)) = fds w)
   \<and> (\<forall>c s w. fds (snd (modbus_set_socket E c s w)) = fds w)
   \<and> (\<forall>a b c d w. fds (snd (modbus_mapping_new E a b c d w)) = fds w)
   \<and> (\<forall>ip port w. fds (snd (modbus_new_tcp_pi E ip port w)) = fds w)
   \<and> image_access_keeps E fds \<and> clock_keeps E fds"

lemma plant_fds: "fd_laws plant_env (\<lambda>w. set (p_fds w))"
  using fresh_fd_greater
  by (auto simp: fd_laws_def yields_fd_def image_access_keeps_def clock_keeps_def plant_env_def)

definition new_mapping_laws :: "'w env \<Rightarrow> bool" where
  "new_mapping_laws E \<longleftrightarrow> (\<forall>(cfg :: TModbusSlaveDataSizeConfig) w. case fst (modbus_mapping_new E (uint (u16Coils cfg)) (uint (u16DiscreteInputs cfg))
      (uint (u16HoldingRegisters cfg)) (uint (u16InputRegisters cfg)) w) of
    None \<Rightarrow> True | Some m \<Rightarrow> mapping_ok m \<and> length (tab_bits m) = unat (u16Coils cfg)
      \<and> length (tab_input_bits m) = unat (u16DiscreteInputs cfg)
      \<and> length (tab_registers m) = unat (u16HoldingRegisters cfg)
      \<and> length (tab_input_registers m) = unat (u16InputRegisters cfg))"

lemma plant_new_mapping: "new_mapping_laws plant_env"
proof -
  have "unat (x :: u16) < 65536" for x
    using unsigned_less [of x, where 'a = nat] by simp
  then show ?thesis
    by (simp add: new_mapping_laws_def plant_env_def mapping_ok_def)
qed

definition tcp_slave_ok :: "nat set \<Rightarrow> nat set \<Rightarrow> tcp_slave \<Rightarrow> bool" where
  "tcp_slave_ok F0 F t \<longleftrightarrow>
     mapping_ok (mbMapping t) \<and> server_socket t \<in> refset t
   \<and> (\<forall>fd \<in> refset t. fd \<le> fdmax t) \<and> fdmax t < FD_SETSIZE
   \<and> F0 \<inter> refset t = {} \<and> F = F0 \<union> refset t"

fun tcp_slave_inv :: "nat set \<Rightarrow> tcp_slave_phase \<Rightarrow> nat set \<Rightarrow> bool" where
  "tcp_slave_inv F0 TS_start F \<longleftrightarrow> F = F0"
| "tcp_slave_inv F0 (TS_listen m c) F \<longleftrightarrow> F = F0 \<and> mapping_ok m"
| "tcp_slave_inv F0 (TS_loop t) F \<longleftrightarrow> tcp_slave_ok F0 F t"
| "tcp_slave_inv F0 (TS_exit u) F \<longleftrightarrow> True"

lemma fd_lawsD:
  assumes "fd_laws E fds"
  shows "fds (snd (close_fd E s w)) = fds w - {s}"
    and "fds (snd (select_read E n A w)) = fds w" and "snd (fst (select_read E n A w)) \<subseteq> A"
    and "fds (snd (modbus_receive E c w)) = fds w"
    and "fds (snd (modbus_get_header_length E c w)) = fds w"
    and "fds (snd (modbus_reply E c req len m w)) = fds w"
    and "fds (snd (modbus_set_socket E c k w)) = fds w"
    and "fds (snd (modbus_mapping_new E a b x d w)) = fds w"
    and "fds (snd (modbus_new_tcp_pi E ip port w)) = fds w"
    and "fds (snd (piControlWrite E off l dat w)) = fds w"
    and "fds (snd (piControlRead E off l w)) = fds w"
    and "fds (snd (sleep_for E ts w)) = fds w"
  using assms unfolding fd_laws_def image_access_keeps_def clock_keeps_def by (auto simp: case_prod_unfold)

lemma yields_fdD:
  assumes "yields_fd fds f"
  shows "-1 \<le> fst (f w)" "fst (f w) = -1 \<Longrightarrow> fds (snd (f w)) = fds w"
    and "fst (f w) \<noteq> -1 \<Longrightarrow> nat (fst (f w)) \<notin> fds w \<and> fds (snd (f w)) = insert (nat (fst (f w))) (fds w)"
  using assms unfolding yields_fd_def by (auto simp: case_prod_unfold split: if_splits)

lemma request_keeps_fds:
  assumes "fd_laws E fds"
  shows "keeps (\<lambda>w. fds w = F) (process_modbus_request E c m cfg)"
  unfolding process_modbus_request_def readModbusDataFromProcessImage_def writeModbusDataToProcessImage_def Let_def
  by (auto intro!: keeps_intros simp: fd_lawsD [OF assms])

lemma accept_connection_ok:
  assumes "fd_laws E fds" "tcp_slave_ok F0 (fds w) t"
  shows "wlp (accept_connection E t) (\<lambda>t' w'. tcp_slave_ok F0 (fds w') t' \<and> refset t \<subseteq> refset t') w"
proof -
  have y: "yields_fd fds (accept_fd E (server_socket t))"
    using assms(1) by (simp add: fd_laws_def)
  show ?thesis
    using assms(2) yields_fdD [OF y, of w]
    by (auto simp: accept_connection_def wp_simps tcp_slave_ok_def nat_less_iff)
qed

lemma serve_connection_ok:
  assumes "fd_laws E fds" "slave_laws E img" "image_world E img" "tcp_slave_ok F0 (fds w) t"
    and "fd \<in> refset t" "fd \<noteq> server_socket t"
  shows "wlp (serve_connection E cfg fd t) (\<lambda>t' w'. tcp_slave_ok F0 (fds w') t' \<and> refset t - {fd} \<subseteq> refset t') w"
proof -
  have m: "mapping_ok (mbMapping t)" using assms(4) by (simp add: tcp_slave_ok_def)
  have req: "wlp (process_modbus_request E (mb_slave t) (mbMapping t) cfg)
      (\<lambda>r w'. mapping_ok (snd r) \<and> fds w' = fds w) v" if "fds v = fds w" for v
    by (rule wlp_mono [OF wlp_conj [OF
          wp_wlp [OF process_modbus_request_returns [OF assms(2,3) m]]
          wlp_keeps [OF request_keeps_fds [OF assms(1)]]]]) (use that in auto)
  have "\<forall>x \<in> refset t - {fd}. x \<le> (if fd = fdmax t then fdmax t - 1 else fdmax t)"
    using assms(4) by (auto simp: tcp_slave_ok_def)
  then show ?thesis
    using assms(4-6)
    by (auto simp: serve_connection_def wp_simps case_prod_unfold fd_lawsD [OF assms(1)] tcp_slave_ok_def
        intro!: wlp_mono [OF req])
qed

lemma serve_sockets_ok:
  assumes "fd_laws E fds" "slave_laws E img" "image_world E img"
  shows "tcp_slave_ok F0 (fds w) t \<Longrightarrow> rdset \<inter> set ds \<subseteq> refset t \<Longrightarrow> distinct ds \<Longrightarrow>
     wlp (serve_sockets E cfg rdset ds t) (\<lambda>t' w'. tcp_slave_ok F0 (fds w') t') w"
proof (induction ds arbitrary: t w)
  case (Cons fd ds)
  have rest: "wlp (serve_sockets E cfg rdset ds t') (\<lambda>t' w'. tcp_slave_ok F0 (fds w') t') w'"
    if "tcp_slave_ok F0 (fds w') t'" "refset t - {fd} \<subseteq> refset t'" for t' w'
    using Cons.IH [OF that(1)] that(2) Cons.prems(2,3) by auto
  have "wlp (accept_connection E t) (\<lambda>t' w'. wlp (serve_sockets E cfg rdset ds t')
      (\<lambda>t' w'. tcp_slave_ok F0 (fds w') t') w') w"
    by (rule wlp_mono [OF accept_connection_ok [OF assms(1) Cons.prems(1)]]) (auto intro: rest)
  moreover have "wlp (serve_connection E cfg fd t) (\<lambda>t' w'. wlp (serve_sockets E cfg rdset ds t')
      (\<lambda>t' w'. tcp_slave_ok F0 (fds w') t') w') w" if "fd \<in> rdset" "fd \<noteq> server_socket t"
    using that Cons.prems(2)
    by (intro wlp_mono [OF serve_connection_ok [OF assms Cons.prems(1)]]) (auto intro: rest)
  ultimately show ?case
    using Cons.IH [OF Cons.prems(1)] Cons.prems by (auto simp: wp_simps)
qed (simp add: wp_simps)

lemma tcp_slave_step_inv:
  assumes "fd_laws E fds" "slave_laws E img" "image_world E img" "new_mapping_laws E"
    and "tcp_slave_inv F0 p (fds w)"
  shows "wlp (startTcpSlaveThread E cfg p) (\<lambda>p' w'. tcp_slave_inv F0 p' (fds w')) w"
proof (cases p)
  case TS_start
  have "mapping_ok m" if "fst (modbus_mapping_new E (uint (u16Coils (tModbusDataConfig cfg)))
      (uint (u16DiscreteInputs (tModbusDataConfig cfg))) (uint (u16HoldingRegisters (tModbusDataConfig cfg)))
      (uint (u16InputRegisters (tModbusDataConfig cfg))) w) = Some m" for m
    using assms(4) that unfolding new_mapping_laws_def by (metis (no_types, lifting) option.case(2))
  then show ?thesis
    using TS_start assms(5)
    by (auto simp: tcp_slave_start_def new_mapping_def wp_simps wp_liftO fd_lawsD [OF assms(1)]
        intro: wlp_True split: option.splits)
next
  case (TS_listen m c)
  have y: "yields_fd fds (modbus_tcp_pi_listen E c n)" for n
    using assms(1) by (simp add: fd_laws_def)
  show ?thesis
    using TS_listen assms(5) yields_fdD [OF y]
    by (auto simp: tcp_slave_listen_def wp_simps wp_liftO fd_lawsD [OF assms(1)] tcp_slave_ok_def nat_less_iff)
next
  case (TS_loop t)
  have serve: "wlp (serve_sockets E cfg rdset [0..<FD_SETSIZE] t) (\<lambda>t' w'. tcp_slave_ok F0 (fds w') t') v"
    if "fds v = fds w" "rdset \<subseteq> refset t" for rdset v
    using serve_sockets_ok [OF assms(1-3), of F0 v t rdset "[0..<FD_SETSIZE]" cfg] TS_loop assms(5) that by auto
  then have "wlp (serve_sockets E cfg (snd (fst (select_read E n (refset t) w))) [0..<FD_SETSIZE] t)
      (\<lambda>t' w'. tcp_slave_ok F0 (fds w') t') (snd (select_read E n (refset t) w))" for n
    using fd_lawsD(2,3) [OF assms(1)] by simp
  then show ?thesis
    using TS_loop by (auto simp: tcp_slave_loop_def wp_simps case_prod_unfold intro: wlp_True)
qed (simp add: wp_simps)

section \<open>Properties of the TCP slave\<close>

text \<open>
  C39: When \<^verbatim>\<open>select\<close> fails, the thread ends by closing the listening socket twice: once itself and
  once more in its cleanup handler, because the socket is still in the set; between the two calls
  another thread may have been given the same descriptor.
\<close>

theorem tcp_slave_double_close:
  assumes "server_socket t \<in> refset t" "server_socket t < 1024"
    and "fst (fst (select_read E (fdmax t + 1) (refset t) w)) = -1"
  shows "wp (startTcpSlaveThread E cfg (TS_loop t)) (\<lambda>p _. \<exists>u. p = TS_exit u \<and>
           filter ((=) (CloseFd (server_socket t))) u = [CloseFd (server_socket t), CloseFd (server_socket t)]) w"
proof -
  have close: "wp (close_fds E F ds) (\<lambda>u _. u = map CloseFd (filter (\<lambda>d. d \<in> F) ds)) v" for F ds v
  proof (induction ds arbitrary: v)
    case (Cons d ds)
    then show ?case by (auto simp: wp_simps intro!: wp_mono [OF Cons.IH])
  qed (simp add: wp_simps)
  have once: "filter ((=) s) ds = [s]" if "s \<in> set ds" "distinct ds" for s and ds :: "nat list"
    using that by (induction ds) (auto simp: filter_empty_conv)
  have "filter ((=) (CloseFd s)) (map CloseFd (filter (\<lambda>d. d \<in> F) ds)) = map CloseFd (filter ((=) s) ds)"
    if "s \<in> F" for s F ds
    using that by (induction ds) auto
  then show ?thesis
    using assms once [of "server_socket t" "[0..<1024]"]
    by (auto simp: tcp_slave_loop_def cleanupTcpSlaveThread_def release_context_def wp_simps case_prod_unfold
        FD_SETSIZE_def intro!: wp_mono [OF close])
qed

theorem tcp_slave_double_close_witness:
  "wp (startTcpSlaveThread (plant_env\<lparr>select_read := (\<lambda>n A w. ((-1, {}), w))\<rparr>) (demo_slave 40 20)
        (TS_loop \<lparr>mbMapping = (demo_mapping [0, 0]), mb_slave = 0, server_socket = 3, refset = {3}, fdmax = 3\<rparr>))
     (\<lambda>p _. \<exists>u. p = TS_exit u \<and> filter ((=) (CloseFd 3)) u = [CloseFd 3, CloseFd 3]) plant0"
  using tcp_slave_double_close [of "\<lparr>mbMapping = (demo_mapping [0, 0]), mb_slave = 0, server_socket = 3,
      refset = {3}, fdmax = 3\<rparr>" "plant_env\<lparr>select_read := (\<lambda>n A w. ((-1, {}), w))\<rparr>" plant0]
  by simp

end
