(* ===== verification/ModbusMasterThread.thy ===== *)
theory ModbusMasterThread
  imports ComAndDataProcessor ModbusSlaveThread
begin

text \<open>
  The master threads, \<^verbatim>\<open>src/src/ModbusMasterThread.c\<close>. As for the slaves, a thread is a step
  function on the phases of its start routine: one step is one attempt to connect or one pass
  through the main loop, which takes the next event from the scheduler, resets status bytes, waits
  for the event's trigger time and for the minimal pause after the previous action, executes the
  action and counts errors.
\<close>

section \<open>Parts shared by both threads\<close>

definition setprio :: "'w env \<Rightarrow> int \<Rightarrow> ('w, int) prog" where
  "setprio E prio = bindM (ext (set_priority E prio)) (\<lambda>rc. ret (if rc < 0 then -1 else 0))"

definition write_device_status :: "'w env \<Rightarrow> TModbusMasterConfiguration \<Rightarrow> EModbusErrors \<Rightarrow> ('w, int) prog" where
  "write_device_status E cfg e =
     writeErrorMessage E (i32uDeviceStatusByteProcessImageOffset (masterDeviceConfig cfg)) (error_byte e)"

text \<open>Half of the minimal interval as the \<^verbatim>\<open>struct timeval\<close> of the timeouts: seconds and microseconds.\<close>

definition modbus_timeout :: "timespec \<Rightarrow> int \<times> int" where
  "modbus_timeout tv_min_interval =
     (let nsec = (if c_mod (tv_sec tv_min_interval) 2 \<noteq> 0
                  then tv_nsec tv_min_interval + s32_nanoseconds_per_second
                  else tv_nsec tv_min_interval);
          sec = c_div (tv_sec tv_min_interval) 2;
          usec = c_div (c_div nsec 1000) 2
      in if sec \<le> 0 \<and> usec \<le> 0 then (sec, 1) else (sec, usec))"

definition set_timeouts :: "'w env \<Rightarrow> modbus_t \<Rightarrow> schedulerEvent list \<Rightarrow> ('w, unit) prog" where
  "set_timeouts E ctx evl =
     bindM (liftO (get_minimal_modbus_action_interval evl)) (\<lambda>tv_min_interval.
     let (sec, usec) = modbus_timeout tv_min_interval
     in bindM (ext (modbus_set_response_timeout E ctx sec usec)) (\<lambda>_.
        bindM (ext (modbus_set_byte_timeout E ctx sec usec)) (\<lambda>_. ret ())))"

text \<open>The variables of a thread in its main loop.\<close>

record master =
  context_of :: modbus_t
  eventList :: "schedulerEvent list"
  minimal_event_offset :: timespec
  earliest_next_trigger :: timespec
  err_cnt :: int
  buffer_of :: "u8 list"

text \<open>
  From the two sleeps to the computation of the earliest next trigger time: the result of the
  action, the buffer, and that time.
\<close>

definition run_action ::
  "'w env \<Rightarrow> modbus_t \<Rightarrow> tModbusEvent \<Rightarrow> timespec \<Rightarrow> timespec \<Rightarrow> u8 list \<Rightarrow> ('w, int \<times> u8 list \<times> timespec) prog" where
  "run_action E ctx nextEvent earliest offset buffer =
     seqM (ext (sleep_until E (eventTriggerTime nextEvent)))
     (seqM (ext (sleep_until E earliest))
     (bindM (ext (modbus_set_slave E ctx (uint (i8uSlaveAddress (eventModbusAction nextEvent))))) (\<lambda>_.
      bindM (processModbusAction E ctx nextEvent buffer) (\<lambda>(rc, buffer).
      bindM (ext (clock_gettime E)) (\<lambda>tv_current.
      bindM (liftO (timespec_add tv_current offset)) (\<lambda>earliest. ret (rc, buffer, earliest)))))))"

definition reset_master_status :: "'w env \<Rightarrow> TModbusMasterConfiguration \<Rightarrow> ('w, int) prog" where
  "reset_master_status E cfg =
     reset_modbus_master_status E
       (i32uDeviceStatusResetByteProcessImageByteOffset (masterDeviceConfig cfg))
       (i32uDeviceStatusByteProcessImageOffset (masterDeviceConfig cfg))"

definition reset_status_of :: "'w env \<Rightarrow> TModbusAction \<Rightarrow> ('w, int) prog" where
  "reset_status_of E act =
     reset_modbus_action_status E (i32uResetStatusProcessImageByteOffset act)
       (i8uResetStatusProcessImageBitOffset act) (i32uStatusByteProcessImageOffset act)"

text \<open>Using the event of a failed \<open>getNextEvent\<close> would read an unset variable.\<close>

definition next_event :: "schedulerEvent list \<Rightarrow> (tModbusEvent \<times> schedulerEvent list) outcome" where
  "next_event evl = obind (getNextEvent evl) (\<lambda>(_, ev, evl').
     case ev of None \<Rightarrow> Fault | Some e \<Rightarrow> Ret (e, evl'))"

section \<open>TCP master\<close>

datatype tcp_master_phase =
    TM_start
  | TM_connect modbus_t "u8 list"
  | TM_loop master
  | TM_exit "release list"

definition cleanupTcpMasterThread :: "'w env \<Rightarrow> modbus_t \<Rightarrow> ('w, release list) prog" where
  "cleanupTcpMasterThread E ctx = release_context E (Some ctx)"

definition tcp_master_start :: "'w env \<Rightarrow> TModbusMasterConfiguration \<Rightarrow> ('w, tcp_master_phase) prog" where
  "tcp_master_start E cfg =
     bindM (setprio E 20) (\<lambda>rc.
     if rc < 0 then bindM (write_device_status E cfg eInternalError) (\<lambda>_. ret (TM_exit []))
     else bindM (liftO (tcp_config (masterDeviceConfig cfg))) (\<lambda>tcp.
          bindM (ext (modbus_new_tcp_pi E (szTcpIpAddress tcp) (i32uPort tcp))) (\<lambda>ctx. case ctx of
            None \<Rightarrow> bindM (write_device_status E cfg eNoDevice) (\<lambda>_. ret (TM_exit []))
          | Some c \<Rightarrow>
              bindM (ext (modbus_set_error_recovery E c)) (\<lambda>_.
              ret (TM_connect c (replicate MAX_REGISTER_SIZE_PER_ACTION 0))))))"

definition tcp_master_connect ::
  "'d double_ops \<Rightarrow> 'w env \<Rightarrow> TModbusMasterConfiguration \<Rightarrow> modbus_t \<Rightarrow> u8 list \<Rightarrow> ('w, tcp_master_phase) prog" where
  "tcp_master_connect D E cfg ctx buffer =
     bindM (ext (modbus_connect E ctx)) (\<lambda>rc.
     if rc < 0 then
       bindM (write_device_status E cfg eNoResponseFromDevice) (\<lambda>_.
       seqM (ext (sleep_for E \<lparr>tv_sec = 5, tv_nsec = 0\<rparr>)) (ret (TM_connect ctx buffer)))
     else
       bindM (initScheduler E (mbActionListHead cfg) []) (\<lambda>(rc, evl).
       if rc < 0 then
         bindM (write_device_status E cfg eInternalError) (\<lambda>_.
         bindM (cleanupTcpMasterThread E ctx) (\<lambda>t. ret (TM_exit t)))
       else
         seqM (set_timeouts E ctx evl)
         (bindM (write_device_status E cfg eNoError) (\<lambda>_.
          ret (TM_loop \<lparr>context_of = ctx, eventList = evl,
                 minimal_event_offset = get_minimal_modbus_event_offset D evl,
                 earliest_next_trigger = \<lparr>tv_sec = 0, tv_nsec = 0\<rparr>, err_cnt = 0, buffer_of = buffer\<rparr>)))))"

definition tcp_master_loop :: "'w env \<Rightarrow> TModbusMasterConfiguration \<Rightarrow> master \<Rightarrow> ('w, tcp_master_phase) prog" where
  "tcp_master_loop E cfg m =
     bindM (liftO (next_event (eventList m))) (\<lambda>(nextEvent, evl).
     bindM (reset_status_of E (eventModbusAction nextEvent)) (\<lambda>_.
     bindM (reset_master_status E cfg) (\<lambda>_.
     bindM (run_action E (context_of m) nextEvent (earliest_next_trigger m) (minimal_event_offset m) (buffer_of m))
       (\<lambda>(rc, buffer, earliest).
        let m' = m\<lparr>eventList := evl, earliest_next_trigger := earliest, buffer_of := buffer\<rparr>
        in if rc < 0 then
             if err_cnt m + 1 > 100
             then seqM (ext (modbus_close E (context_of m))) (ret (TM_connect (context_of m) buffer))
             else ret (TM_loop (m'\<lparr>err_cnt := err_cnt m + 1\<rparr>))
           else ret (TM_loop (m'\<lparr>err_cnt := 0\<rparr>))))))"

fun startTcpMasterThread ::
  "'d double_ops \<Rightarrow> 'w env \<Rightarrow> TModbusMasterConfiguration \<Rightarrow> tcp_master_phase \<Rightarrow> ('w, tcp_master_phase) prog" where
  "startTcpMasterThread D E cfg TM_start = tcp_master_start E cfg"
| "startTcpMasterThread D E cfg (TM_connect c b) = tcp_master_connect D E cfg c b"
| "startTcpMasterThread D E cfg (TM_loop m) = tcp_master_loop E cfg m"
| "startTcpMasterThread D E cfg (TM_exit t) = ret (TM_exit t)"

section \<open>RTU master\<close>

datatype rtu_master_phase =
    RM_wait
  | RM_loop master
  | RM_exit "release list"

definition cleanupRtuMasterThread :: "'w env \<Rightarrow> modbus_t \<Rightarrow> ('w, release list) prog" where
  "cleanupRtuMasterThread E ctx = release_context E (Some ctx)"

text \<open>
  The pause between telegrams, computed in \<^verbatim>\<open>uint64_t\<close>: the minimal interval divided by the number
  of actions and by four. Dividing by an action count of 0 is a fault.
\<close>

definition rtu_event_offset :: "TModbusMasterConfiguration \<Rightarrow> timespec \<Rightarrow> timespec outcome" where
  "rtu_event_offset cfg t =
     (if i32ActionCount cfg = 0 then Fault
      else let minoffset = (word_of_int (tv_sec t) :: u64) * 1000000000 + word_of_int (tv_nsec t);
               minoffset = minoffset div word_of_int (i32ActionCount cfg) div 4
           in Ret \<lparr>tv_sec = uint (minoffset div 1000000000), tv_nsec = uint (minoffset mod 1000000000)\<rparr>)"

definition rtu_master_begin :: "'w env \<Rightarrow> TModbusMasterConfiguration \<Rightarrow> modbus_t \<Rightarrow> ('w, rtu_master_phase) prog" where
  "rtu_master_begin E cfg ctx =
     bindM (initScheduler E (mbActionListHead cfg) []) (\<lambda>(rc, evl).
     if rc < 0 then
       seqM (ext (modbus_close E ctx)) (seqM (ext (modbus_free E ctx))
       (bindM (write_device_status E cfg eInternalError) (\<lambda>_.
        bindM (cleanupRtuMasterThread E ctx) (\<lambda>t.
        ret (RM_exit ([CloseContext ctx, FreeContext ctx] @ t))))))
     else
       seqM (set_timeouts E ctx evl)
       (bindM (liftO (get_minimal_modbus_action_interval evl)) (\<lambda>interval.
        bindM (liftO (rtu_event_offset cfg interval)) (\<lambda>offset.
        bindM (write_device_status E cfg eNoError) (\<lambda>_.
        ret (RM_loop \<lparr>context_of = ctx, eventList = evl, minimal_event_offset = offset,
               earliest_next_trigger = \<lparr>tv_sec = 0, tv_nsec = 0\<rparr>, err_cnt = 0,
               buffer_of = replicate MAX_REGISTER_SIZE_PER_ACTION 0\<rparr>))))))"

definition rtu_master_open :: "'w env \<Rightarrow> TModbusMasterConfiguration \<Rightarrow> TRtuConfig \<Rightarrow> ('w, rtu_master_phase) prog" where
  "rtu_master_open E cfg rtu =
     bindM (setprio E 20) (\<lambda>rc.
     if rc < 0 then bindM (write_device_status E cfg eInternalError) (\<lambda>_. ret (RM_exit []))
     else
       bindM (ext (modbus_new_rtu E (sz8DeviceFilePath rtu) (i32uBaud rtu) (cParity rtu) (i8uDatabits rtu)
                     (i8uStopbits rtu))) (\<lambda>ctx. case ctx of
         None \<Rightarrow> bindM (write_device_status E cfg eNoDevice) (\<lambda>_. ret (RM_exit []))
       | Some c \<Rightarrow>
           bindM (ext (modbus_set_error_recovery E c)) (\<lambda>_.
           bindM (ext (modbus_connect E c)) (\<lambda>rc.
             if rc < 0 then
               seqM (ext (modbus_free E c))
               (bindM (write_device_status E cfg eNoResponseFromDevice) (\<lambda>_. ret (RM_exit [FreeContext c])))
             else rtu_master_begin E cfg c))))"

text \<open>The status of every action in the list is reset when its reset bit is set.\<close>

fun reset_all_status :: "'w env \<Rightarrow> schedulerEvent list \<Rightarrow> ('w, unit) prog" where
  "reset_all_status E [] = ret ()"
| "reset_all_status E (e # es) =
     bindM (reset_status_of E (ptModbusAction e)) (\<lambda>_. reset_all_status E es)"

definition rtu_master_loop :: "'w env \<Rightarrow> TModbusMasterConfiguration \<Rightarrow> master \<Rightarrow> ('w, rtu_master_phase) prog" where
  "rtu_master_loop E cfg m =
     bindM (liftO (next_event (eventList m))) (\<lambda>(nextEvent, evl).
     seqM (reset_all_status E evl)
     (bindM (reset_master_status E cfg) (\<lambda>_.
      bindM (run_action E (context_of m) nextEvent (earliest_next_trigger m) (minimal_event_offset m) (buffer_of m))
        (\<lambda>(rc, buffer, earliest).
         ret (RM_loop (m\<lparr>eventList := evl, earliest_next_trigger := earliest, buffer_of := buffer\<rparr>))))))"

fun startRtuMasterThread :: "'w env \<Rightarrow> TModbusMasterConfiguration \<Rightarrow> rtu_master_phase \<Rightarrow> ('w, rtu_master_phase) prog" where
  "startRtuMasterThread E cfg RM_wait =
     bindM (liftO (rtu_config (masterDeviceConfig cfg))) (\<lambda>rtu.
     bindM (ext (access_rw E (sz8DeviceFilePath rtu))) (\<lambda>rc.
       if rc \<noteq> 0 then seqM (ext (sleep_for E \<lparr>tv_sec = 1, tv_nsec = 0\<rparr>)) (ret RM_wait)
       else rtu_master_open E cfg rtu))"
| "startRtuMasterThread E cfg (RM_loop m) = rtu_master_loop E cfg m"
| "startRtuMasterThread E cfg (RM_exit t) = ret (RM_exit t)"

section \<open>The scheduler in the threads\<close>

lemma initScheduler_ok:
  assumes "\<forall>w. wf_timespec (fst (clock_gettime E w))" "\<forall>a \<in> set acts. i32uInterval_us a \<noteq> 0"
  shows "wp (initScheduler E acts []) (\<lambda>r _. 0 \<le> fst r \<longrightarrow>
           acts \<noteq> [] \<and> scheduler_ok (snd r) \<and> mset (map ptModbusAction (snd r)) = mset acts) w"
proof (cases "acts = []")
  case False
  have "wf_timespec (fst (clock_gettime E w))" using assms(1) by simp
  from initScheduler_loop_wp [OF this assms(2), of "[]" E "snd (clock_gettime E w)"] show ?thesis
    using False by (auto simp: initScheduler_def wp_simps elim!: wp_mono)
qed (simp add: initScheduler_def wp_simps)

lemma initScheduler_enough_memory:
  assumes "\<forall>w. wf_timespec (fst (clock_gettime E w))" "\<forall>a \<in> set acts. i32uInterval_us a \<noteq> 0"
    and "acts \<noteq> []" "\<forall>w. fst (malloc_ok E w)"
  shows "wp (initScheduler E acts []) (\<lambda>r _. fst r = 0) w"
proof -
  have "wf_timespec (fst (clock_gettime E w))" using assms(1) by simp
  from initScheduler_loop_wp [OF this assms(2), of "[]" E "snd (clock_gettime E w)"] show ?thesis
    using assms(3,4) by (auto simp: initScheduler_def wp_simps elim!: wp_mono)
qed

lemma minimal_interval_of_list:
  assumes "scheduler_ok evl" "evl \<noteq> []"
  shows "\<exists>e \<in> set evl. get_minimal_modbus_action_interval evl = Ret (intervalTime e)"
proof -
  let ?m = "\<lparr>tv_sec = 2147483647, tv_nsec = s32_nanoseconds_per_second - 1\<rparr>"
  have wf: "\<forall>e \<in> set evl. wf_event e"
    using assms(1) by (simp add: queue_ok_def)
  obtain e where e: "e \<in> set evl" using assms(2) by (cases evl) auto
  then have "period_of e < ns_of ?m"
    using wf by (auto simp: wf_event_def period_of_def time_defs)
  then show ?thesis
    using minimal_interval_loop [OF wf, of ?m] e
    by (fastforce simp: get_minimal_modbus_action_interval_def time_defs)
qed

lemma next_event_Ret:
  assumes "scheduler_ok evl" "evl \<noteq> []"
  shows "\<exists>e evl'. next_event evl = Ret (event_of e, evl') \<and> e \<in> set evl \<and> scheduler_ok evl'
     \<and> mset (map ptModbusAction evl') = mset (map ptModbusAction evl)"
proof -
  obtain e es where evl: "evl = e # es" using assms(2) by (cases evl) auto
  then have "scheduler_ok (insertEventByDueDate (next_occurrence e) es)"
    using sched.step_inv assms(1) by simp
  moreover have "ptModbusAction (next_occurrence e) = ptModbusAction e"
    by (simp add: next_occurrence_def)
  ultimately show ?thesis
    using getNextEvent_step assms(1) evl
    by (auto simp: next_event_def mset_insertEventByDueDate)
qed

section \<open>Invariant of the main loops\<close>

definition master_ok :: "TModbusMasterConfiguration \<Rightarrow> master \<Rightarrow> bool" where
  "master_ok cfg m \<longleftrightarrow> scheduler_ok (eventList m) \<and> eventList m \<noteq> []
     \<and> mset (map ptModbusAction (eventList m)) = mset (mbActionListHead cfg)
     \<and> 0 \<le> err_cnt m \<and> err_cnt m \<le> 100 \<and> length (buffer_of m) = MAX_REGISTER_SIZE_PER_ACTION"

fun tcp_master_inv :: "TModbusMasterConfiguration \<Rightarrow> tcp_master_phase \<Rightarrow> bool" where
  "tcp_master_inv cfg (TM_connect c b) \<longleftrightarrow> length b = MAX_REGISTER_SIZE_PER_ACTION"
| "tcp_master_inv cfg (TM_loop m) \<longleftrightarrow> master_ok cfg m"
| "tcp_master_inv cfg _ \<longleftrightarrow> True"

fun rtu_master_inv :: "TModbusMasterConfiguration \<Rightarrow> rtu_master_phase \<Rightarrow> bool" where
  "rtu_master_inv cfg (RM_loop m) \<longleftrightarrow> master_ok cfg m"
| "rtu_master_inv cfg _ \<longleftrightarrow> True"

lemma mset_actions_Nil: "mset (map ptModbusAction q) = mset acts \<Longrightarrow> acts \<noteq> [] \<Longrightarrow> q \<noteq> []"
  by auto

lemma run_action_length:
  "wlp (run_action E ctx ev earliest offset buffer) (\<lambda>r _. length (fst (snd r)) = length buffer) w"
  by (auto simp: run_action_def wp_simps case_prod_unfold wp_liftO
      intro!: wlp_mono [OF processModbusAction_length])

lemma master_ok_next:
  assumes "master_ok cfg m"
  obtains e evl where "next_event (eventList m) = Ret (event_of e, evl)" "e \<in> set (eventList m)"
    and "scheduler_ok evl" "evl \<noteq> []" "mset (map ptModbusAction evl) = mset (mbActionListHead cfg)"
proof -
  obtain e evl where "next_event (eventList m) = Ret (event_of e, evl)" "e \<in> set (eventList m)"
    and "scheduler_ok evl" "mset (map ptModbusAction evl) = mset (map ptModbusAction (eventList m))"
    using next_event_Ret assms unfolding master_ok_def by blast
  then show thesis
    using assms by (intro that) (auto simp: master_ok_def)
qed

lemma tcp_master_step_inv:
  assumes "\<forall>w. wf_timespec (fst (clock_gettime E w))" "\<forall>a \<in> set (mbActionListHead cfg). i32uInterval_us a \<noteq> 0"
    and "tcp_master_inv cfg p"
  shows "wlp (startTcpMasterThread D E cfg p) (\<lambda>p' _. tcp_master_inv cfg p') w"
proof (cases p)
  case TM_start
  then show ?thesis
    by (auto simp: tcp_master_start_def wp_simps wp_liftO intro!: wlp_True split: option.splits)
next
  case (TM_connect c b)
  have init: "wlp (initScheduler E (mbActionListHead cfg) []) (\<lambda>r _. 0 \<le> fst r \<longrightarrow>
      mbActionListHead cfg \<noteq> [] \<and> scheduler_ok (snd r)
      \<and> mset (map ptModbusAction (snd r)) = mset (mbActionListHead cfg)) v" for v
    by (rule wp_wlp [OF initScheduler_ok [OF assms(1,2)]])
  show ?thesis
    using TM_connect assms(3)
    by (auto simp: tcp_master_connect_def wp_simps case_prod_unfold master_ok_def
        intro!: wlp_True wlp_mono [OF init] dest: mset_actions_Nil)
next
  case (TM_loop m)
  then have ok: "master_ok cfg m" using assms(3) by simp
  obtain e evl where ev: "next_event (eventList m) = Ret (event_of e, evl)" "scheduler_ok evl" "evl \<noteq> []"
    "mset (map ptModbusAction evl) = mset (mbActionListHead cfg)"
    using master_ok_next [OF ok] by metis
  have run: "wlp (run_action E c ev t off (buffer_of m)) (\<lambda>r _. length (fst (snd r)) = length (buffer_of m)) v" for c ev t off v
    by (rule run_action_length)
  show ?thesis
    using TM_loop ok ev
    by (auto simp: tcp_master_loop_def wp_simps case_prod_unfold Let_def master_ok_def
        intro!: wlp_True wlp_mono [OF run])
qed (simp add: wp_simps)

lemma rtu_master_begin_inv:
  assumes "\<forall>w. wf_timespec (fst (clock_gettime E w))" "\<forall>a \<in> set (mbActionListHead cfg). i32uInterval_us a \<noteq> 0"
  shows "wlp (rtu_master_begin E cfg c) (\<lambda>p' _. rtu_master_inv cfg p') w"
proof -
  have init: "wlp (initScheduler E (mbActionListHead cfg) []) (\<lambda>r _. 0 \<le> fst r \<longrightarrow>
      mbActionListHead cfg \<noteq> [] \<and> scheduler_ok (snd r)
      \<and> mset (map ptModbusAction (snd r)) = mset (mbActionListHead cfg)) v" for v
    by (rule wp_wlp [OF initScheduler_ok [OF assms]])
  show ?thesis
    by (auto simp: rtu_master_begin_def wp_simps case_prod_unfold master_ok_def wp_liftO
        intro!: wlp_True wlp_mono [OF init] dest: mset_actions_Nil)
qed

lemma rtu_master_step_inv:
  assumes "\<forall>w. wf_timespec (fst (clock_gettime E w))" "\<forall>a \<in> set (mbActionListHead cfg). i32uInterval_us a \<noteq> 0"
    and "rtu_master_inv cfg p"
  shows "wlp (startRtuMasterThread E cfg p) (\<lambda>p' _. rtu_master_inv cfg p') w"
proof (cases p)
  case RM_wait
  then show ?thesis
    by (auto simp: rtu_master_open_def wp_simps wp_liftO
        intro!: wlp_True rtu_master_begin_inv [OF assms(1,2)] split: option.splits)
next
  case (RM_loop m)
  then have ok: "master_ok cfg m" using assms(3) by simp
  obtain e evl where ev: "next_event (eventList m) = Ret (event_of e, evl)" "scheduler_ok evl" "evl \<noteq> []"
    "mset (map ptModbusAction evl) = mset (mbActionListHead cfg)"
    using master_ok_next [OF ok] by metis
  have run: "wlp (run_action E c ev t off (buffer_of m)) (\<lambda>r _. length (fst (snd r)) = length (buffer_of m)) v" for c ev t off v
    by (rule run_action_length)
  show ?thesis
    using RM_loop ok ev
    by (auto simp: rtu_master_loop_def wp_simps case_prod_unfold Let_def master_ok_def
        intro!: wlp_True wlp_mono [OF run])
qed (simp add: wp_simps)

section \<open>Time\<close>

text \<open>
  The monotonic clock as a view \<open>now\<close> of the world, in nanoseconds: it is what \<open>clock_gettime\<close>
  reads, an absolute sleep does not return before its time, and no call turns the clock back.
\<close>

definition clock_laws :: "'w env \<Rightarrow> ('w \<Rightarrow> int) \<Rightarrow> bool" where
  "clock_laws E now \<longleftrightarrow>
     (\<forall>w. wf_timespec (fst (clock_gettime E w)) \<and> ns_of (fst (clock_gettime E w)) = now w
        \<and> now (snd (clock_gettime E w)) = now w)
   \<and> (\<forall>t w. ns_of t \<le> now (snd (sleep_until E t w)) \<and> now w \<le> now (snd (sleep_until E t w)))
   \<and> (\<forall>T. action_preserves E (\<lambda>w. T \<le> now w))
   \<and> (\<forall>w. now w \<le> now (snd (mutex_lock E w)) \<and> now w \<le> now (snd (mutex_unlock E w)))
   \<and> (\<forall>c a w. now w \<le> now (snd (modbus_set_slave E c a w)))"

lemma plant_clock_laws: "clock_laws plant_env p_clock"
  by (auto simp: clock_laws_def action_preserves_def plant_env_def answer_def accept_write_def
      wf_timespec_def ns_of_def)

section \<open>Properties\<close>

text \<open>
  In every state a TCP master reaches in its main loop, its event list is ordered by due date and
  holds each configured action exactly once, the error count is between 0 and 100, and its
  buffer has the size for which actions are safe.
\<close>

lemma tcp_master_schedule:
  assumes "\<forall>w. wf_timespec (fst (clock_gettime E w))" "\<forall>a \<in> set (mbActionListHead cfg). i32uInterval_us a \<noteq> 0"
    and "thread_reach (startTcpMasterThread D E cfg) TM_start w0 (TM_loop m) w"
  shows "scheduler_ok (eventList m) \<and> eventList m \<noteq> []
     \<and> mset (map ptModbusAction (eventList m)) = mset (mbActionListHead cfg)
     \<and> 0 \<le> err_cnt m \<and> err_cnt m \<le> 100 \<and> length (buffer_of m) = MAX_REGISTER_SIZE_PER_ACTION"
proof -
  have "tcp_master_inv cfg (TM_loop m)"
    by (rule thread_reach_inv [OF assms(3), where I = "\<lambda>p _. tcp_master_inv cfg p"])
       (simp_all add: tcp_master_step_inv [OF assms(1,2)])
  then show ?thesis
    by (simp add: master_ok_def)
qed

text \<open>The same holds of an RTU master.\<close>

lemma rtu_master_schedule:
  assumes "\<forall>w. wf_timespec (fst (clock_gettime E w))" "\<forall>a \<in> set (mbActionListHead cfg). i32uInterval_us a \<noteq> 0"
    and "thread_reach (startRtuMasterThread E cfg) RM_wait w0 (RM_loop m) w"
  shows "master_ok cfg m"
proof -
  have "rtu_master_inv cfg (RM_loop m)"
    by (rule thread_reach_inv [OF assms(3), where I = "\<lambda>p _. rtu_master_inv cfg p"])
       (simp_all add: rtu_master_step_inv [OF assms(1,2)])
  then show ?thesis by simp
qed

definition demo_master :: "TModbusAction list \<Rightarrow> TModbusMasterConfiguration" where
  "demo_master acts = \<lparr>masterDeviceConfig = \<lparr>eProtocol = eProtTCP,
        uProt = tTcpConfig \<lparr>szTcpIpAddress = ''192.168.0.1'', i32uPort = 502, maxModbusConnections = 0\<rparr>,
        i32uDeviceStatusByteProcessImageOffset = 100, i32uDeviceStatusResetByteProcessImageByteOffset = 101\<rparr>,
      i32ActionCount = int (length acts), mbActionListHead = acts\<rparr>"

lemmas demo_master_run = run_simps plant_env_def plant0_def setprio_def write_device_status_def writeErrorMessage_def
  demo_master_def tcp_config_def

definition demo_loop :: "schedulerEvent list \<Rightarrow> master" where
  "demo_loop evl = \<lparr>context_of = 0, eventList = evl, minimal_event_offset = \<lparr>tv_sec = 0, tv_nsec = 250000\<rparr>,
     earliest_next_trigger = \<lparr>tv_sec = 0, tv_nsec = 0\<rparr>, err_cnt = 0,
     buffer_of = replicate MAX_REGISTER_SIZE_PER_ACTION 0\<rparr>"

text \<open>
  The response and byte timeouts of a master are half of its minimal action interval, to the
  microsecond, never zero, with a microsecond part below one million.
\<close>

lemma modbus_timeout_half:
  assumes "wf_timespec t" "0 \<le> tv_sec t"
  shows "fst (modbus_timeout t) * 1000000 + snd (modbus_timeout t) = max 1 (ns_of t div 2000)
     \<and> 0 \<le> fst (modbus_timeout t) \<and> 0 \<le> snd (modbus_timeout t) \<and> snd (modbus_timeout t) < 1000000"
proof -
  define r where "r = tv_sec t mod 2"
  define q where "q = tv_sec t div 2"
  have sec: "tv_sec t = 2 * q + r" "0 \<le> q" "r = 0 \<or> r = 1"
    using assms(2) by (auto simp: q_def r_def)
  define u where "u = (tv_nsec t + r * 1000000000) div 2000"
  have u: "0 \<le> u" "u < 1000000"
    using assms(1) sec(3) by (auto simp: u_def wf_timespec_def)
  have total: "ns_of t div 2000 = q * 1000000 + u"
    using sec by (simp add: ns_of_def u_def algebra_simps)
  have div: "c_div (tv_sec t) 2 = q" "c_mod (tv_sec t) 2 = r" "c_div (c_div n 1000) 2 = n div 2000" if "0 \<le> n" for n
    using assms(2) that by (simp_all add: c_div_mod_nonneg q_def r_def pos_imp_zdiv_nonneg_iff flip: zdiv_zmult2_eq)
  have "modbus_timeout t = (if q \<le> 0 \<and> u \<le> 0 then (q, 1) else (q, u))"
    using div(1,2) [of 0] div(3) [of "tv_nsec t"] div(3) [of "tv_nsec t + 1000000000"] sec(3) assms(1)
    by (auto simp: modbus_timeout_def u_def wf_timespec_def s32_nanoseconds_per_second_def Let_def)
  then show ?thesis
    using u sec(2) total by auto
qed

lemma modbus_timeout_half_witness:
  "modbus_timeout \<lparr>tv_sec = 3, tv_nsec = 500000000\<rparr> = (1, 750000)"
proof -
  have "fst (modbus_timeout \<lparr>tv_sec = 3, tv_nsec = 500000000\<rparr>) * 1000000
      + snd (modbus_timeout \<lparr>tv_sec = 3, tv_nsec = 500000000\<rparr>) = 1750000
    \<and> snd (modbus_timeout \<lparr>tv_sec = 3, tv_nsec = 500000000\<rparr>) < 1000000
    \<and> 0 \<le> snd (modbus_timeout \<lparr>tv_sec = 3, tv_nsec = 500000000\<rparr>)"
    using modbus_timeout_half [of "\<lparr>tv_sec = 3, tv_nsec = 500000000\<rparr>"]
    by (simp add: wf_timespec_def ns_of_def)
  moreover have "a = 1 \<and> b = 750000" if "a * 1000000 + b = 1750000 \<and> b < 1000000 \<and> 0 \<le> b" for a b :: int
  proof -
    have "a \<le> 1" "1 \<le> a" using that by linarith+
    then show ?thesis using that by linarith
  qed
  ultimately show ?thesis
    by (simp add: prod_eq_iff)
qed

text \<open>
  The pause that an RTU master computes is a normalised time, and as many pauses as there are
  actions fill at most a quarter of the minimal interval.
\<close>

lemma rtu_event_offset_quarter:
  assumes "wf_timespec t" "0 \<le> tv_sec t" "tv_sec t \<le> 4294" "0 < i32ActionCount cfg" "i32ActionCount cfg < 2 ^ 31"
  shows "\<exists>offset. rtu_event_offset cfg t = Ret offset \<and> wf_timespec offset \<and> 0 \<le> ns_of offset
     \<and> 4 * i32ActionCount cfg * ns_of offset \<le> ns_of t"
proof -
  let ?n = "i32ActionCount cfg"
  have t: "0 \<le> ns_of t" "ns_of t < 4295000000000"
    using assms(1-3) by (simp_all add: ns_of_def wf_timespec_def)
  have u: "uint (word_of_int k :: u64) = k" if "0 \<le> k" "k < 2 ^ 63" for k
    using that by (simp add: uint_word_of_int_eq take_bit_int_eq_self del: of_int_uint)
  define m where "m = (word_of_int (tv_sec t) :: u64) * 1000000000 + word_of_int (tv_nsec t)"
  have m: "m = word_of_int (ns_of t)"
    by (simp add: m_def ns_of_def)
  define k where "k = m div word_of_int ?n div 4"
  have k: "uint k = ns_of t div ?n div 4"
    using u [of "ns_of t"] u [of ?n] t assms(4,5) by (simp add: k_def m uint_div)
  have "uint (k div 1000000000) = uint k div 1000000000" "uint (k mod 1000000000) = uint k mod 1000000000"
    by (simp_all add: uint_div uint_mod)
  then have offset: "rtu_event_offset cfg t = Ret (timespec_of_ns (uint k))"
    using assms(4) by (simp add: rtu_event_offset_def Let_def k_def m_def timespec_of_ns_def)
  have "b * (a div b) \<le> a" if "0 < b" for a b :: int
    using mult_div_mod_eq [of b a] pos_mod_sign [OF that, of a] by linarith
  then have "4 * (ns_of t div ?n div 4) \<le> ns_of t div ?n" "?n * (ns_of t div ?n) \<le> ns_of t"
    using assms(4) by simp_all
  then have "?n * (4 * (ns_of t div ?n div 4)) \<le> ns_of t"
    using assms(4) by (meson less_imp_le mult_left_mono order_trans)
  then show ?thesis
    using offset k t assms(4) by (auto simp: algebra_simps pos_imp_zdiv_nonneg_iff)
qed

lemma rtu_event_offset_quarter_witness:
  "\<exists>offset. rtu_event_offset (demo_master [demo_action 1 eREAD_COILS 3 1000000]) \<lparr>tv_sec = 1, tv_nsec = 0\<rparr> = Ret offset
     \<and> 4 * ns_of offset \<le> 1000000000"
  using rtu_event_offset_quarter [of "\<lparr>tv_sec = 1, tv_nsec = 0\<rparr>" "demo_master [demo_action 1 eREAD_COILS 3 1000000]"]
  by (auto simp: wf_timespec_def ns_of_def demo_master_def)

text \<open>
  C37: A device without actions: the TCP master releases its context exactly once when the scheduler
  cannot be initialised, by its cleanup handler. The RTU master closes and frees its context itself
  and then runs the cleanup handler as well, so it uses a freed context and frees it twice.
\<close>

theorem rtu_master_double_free:
  "mbActionListHead cfg = [] \<Longrightarrow>
     wp (rtu_master_begin E cfg ctx)
       (\<lambda>p _. p = RM_exit [CloseContext ctx, FreeContext ctx, CloseContext ctx, FreeContext ctx]) w
   \<and> wlp (tcp_master_connect D E cfg ctx buffer)
       (\<lambda>p _. (\<exists>b. p = TM_connect ctx b) \<or> p = TM_exit [CloseContext ctx, FreeContext ctx]) w"
  by (auto simp: rtu_master_begin_def tcp_master_connect_def initScheduler_def cleanupRtuMasterThread_def
      cleanupTcpMasterThread_def release_context_def wp_simps write_device_status_def writeErrorMessage_def)

theorem rtu_master_double_free_witness:
  "wp (rtu_master_begin plant_env (demo_master []) 7)
     (\<lambda>p _. p = RM_exit [CloseContext 7, FreeContext 7, CloseContext 7, FreeContext 7]) plant0"
  using rtu_master_double_free [of "demo_master []" plant_env 7 plant0 exact_ops "[]"] by (simp add: demo_master_def)

section \<open>A dead link\<close>

text \<open>Every request fails, as it does when the connection is lost.\<close>

definition link_down :: "'w env \<Rightarrow> bool" where
  "link_down E \<longleftrightarrow>
     (\<forall>c a n w. fst (fst (modbus_read_bits E c a n w)) < 0 \<and> fst (fst (modbus_read_input_bits E c a n w)) < 0
        \<and> fst (fst (modbus_read_registers E c a n w)) < 0
        \<and> fst (fst (modbus_read_input_registers E c a n w)) < 0
        \<and> fst (modbus_write_bit E c a n w) < 0 \<and> fst (modbus_write_register E c a n w) < 0)
   \<and> (\<forall>c a n d w. fst (modbus_write_bits E c a n d w) < 0)
   \<and> (\<forall>c a n d w. fst (modbus_write_registers E c a n d w) < 0)
   \<and> (\<forall>c n w. fst (fst (modbus_report_slave_id E c n w)) < 0)"

text \<open>Actions that send a request: their function code is supported and their count fits.\<close>

definition sends_request :: "TModbusAction \<Rightarrow> bool" where
  "sends_request act \<longleftrightarrow> eFunctionCode act \<in> {eREAD_COILS, eREAD_DISCRETE_INPUTS, eREAD_HOLDING_REGISTERS,
       eREAD_INPUT_REGISTERS, eWRITE_SINGLE_COIL, eWRITE_SINGLE_REGISTER, eWRITE_MULTIPLE_COILS,
       eWRITE_MULTIPLE_REGISTERS, eREPORT_SLAVE_ID}
     \<and> 0 < unat (i16uRegisterCount act) \<and> action_fits (eFunctionCode act) (unat (i16uRegisterCount act))"

lemma get_coils_available:
  assumes "image_world E img" "image_available E" "0 \<le> s"
  shows "wlp (get_coils E act is s buffer) (\<lambda>r _. 0 \<le> fst r) w"
  using assms(3)
proof (induction "is" arbitrary: s buffer w)
  case (Cons i "is")
  show ?case
    using available_simps(4) [OF assms(2), unfolded not_less]
    by (auto simp: wp_simps case_prod_unfold intro!: wlp_mono [OF Cons.IH])
qed (simp add: wp_simps)

lemma dead_function_fails:
  assumes "link_down E" "image_world E img" "image_available E" "sends_request act"
  shows "wlp (process_function E ctx (eFunctionCode act) act buffer) (\<lambda>r _. fst r < 0) w"
proof -
  have get: "wlp (get_coils E act is 0 buffer) (\<lambda>r _. 0 \<le> fst r) v" for "is" v
    by (rule get_coils_available [OF assms(2,3)]) simp
  have dead: "fst (fst (modbus_read_bits E c a n v)) < 0" "fst (fst (modbus_read_input_bits E c a n v)) < 0"
    "fst (fst (modbus_read_registers E c a n v)) < 0" "fst (fst (modbus_read_input_registers E c a n v)) < 0"
    "fst (modbus_write_bit E c a n v) < 0" "fst (modbus_write_register E c a n v) < 0"
    "fst (modbus_write_bits E c a n bs v) < 0" "fst (modbus_write_registers E c a n rs v) < 0"
    "fst (fst (modbus_report_slave_id E c k v)) < 0" for c a n v bs rs k
    using assms(1) by (simp_all add: link_down_def)
  have short: "n < register_count act" if "n < 0" for n
    using that register_count_nonneg [of act] by linarith
  have "register_bytes act \<noteq> 0"
    using assms(4) register_bytes_unat [of act] by (auto simp: sends_request_def)
  then have read: "0 < fst (fst (piControlRead E off (register_bytes act) v))" for off v
    using available_simps(2) [OF assms(3)] by simp
  have bit_available: "\<not> fst (fst (piControlGetBitValue E x v)) < 0"
    "0 \<le> fst (fst (piControlGetBitValue E x v))" for x v
    using available_simps(4) [OF assms(3), of x v] by simp_all
  have nread: "\<not> fst (fst (piControlRead E off (register_bytes act) v)) \<le> 0" for off v
    using read [of off v] by simp
  show ?thesis
    using assms(4) short dead nread
    unfolding sends_request_def
    by (auto simp: read_bits_case_def read_registers_case_def write_single_register_case_def
        write_single_coil_case_def write_multiple_coils_case_def bit_available
        write_multiple_registers_case_def report_slave_id_case_def wp_simps case_prod_unfold
        intro!: wlp_mono [OF get])
qed

lemma dead_action_fails:
  assumes "link_down E" "modbus_limits E" "modbus_read_laws E" "image_world E img" "image_available E"
    and "sends_request (eventModbusAction ev)" "length buffer = MAX_REGISTER_SIZE_PER_ACTION"
  shows "wp (processModbusAction E ctx ev buffer)
           (\<lambda>r _. fst r < 0 \<and> length (snd r) = MAX_REGISTER_SIZE_PER_ACTION) w"
proof -
  have fits: "action_fits (eFunctionCode (eventModbusAction ev)) (unat (i16uRegisterCount (eventModbusAction ev)))"
    using assms(6) by (simp add: sends_request_def)
  have len: "length buffer = 256"
    using assms(7) by (simp add: MAX_REGISTER_SIZE_PER_ACTION_def)
  have pf: "wp (process_function E ctx (eFunctionCode (eventModbusAction ev)) (eventModbusAction ev) buffer)
      (\<lambda>r _. length (snd (snd r)) = 256 \<and> fst r < 0) v" for v
    by (rule wp_mono [OF wp_conj [OF process_function_returns [OF assms(2,3,4) len fits]
          dead_function_fails [OF assms(1,4,5,6)]]]) auto
  show ?thesis
    unfolding wp_processModbusAction
    by (auto simp: MAX_REGISTER_SIZE_PER_ACTION_def intro!: wp_mono [OF pf] wp_mono [OF report_outcome_returns])
qed

lemma dead_run_action:
  assumes "link_down E" "modbus_limits E" "modbus_read_laws E" "image_world E img" "image_available E"
    and "clock_laws E now" "wf_timespec offset"
    and "sends_request (eventModbusAction ev)" "length buffer = MAX_REGISTER_SIZE_PER_ACTION"
  shows "wp (run_action E ctx ev earliest offset buffer)
           (\<lambda>r _. fst r < 0 \<and> length (fst (snd r)) = MAX_REGISTER_SIZE_PER_ACTION) w"
proof -
  have clock: "wf_timespec (fst (clock_gettime E v))" for v
    using assms(6) by (simp add: clock_laws_def)
  show ?thesis
    by (auto simp: run_action_def wp_simps case_prod_unfold timespec_add_eq [OF clock assms(7)]
        intro!: wp_mono [OF dead_action_fails [OF assms(1-5,8,9)]])
qed

lemma reset_status_returns: "wp (reset_modbus_action_status E a b c) (\<lambda>_ _. True) w"
  by (simp add: reset_modbus_action_status_def wp_simps case_prod_unfold)

lemma dead_tcp_step:
  assumes "link_down E" "modbus_limits E" "modbus_read_laws E" "image_world E img" "image_available E"
    and "clock_laws E now" "\<forall>a \<in> set (mbActionListHead cfg). sends_request a"
    and "master_ok cfg m" "wf_timespec (minimal_event_offset m)"
  shows "wp (startTcpMasterThread D E cfg (TM_loop m)) (\<lambda>p _.
     if err_cnt m = 100 then \<exists>b. p = TM_connect (context_of m) b
     else \<exists>m'. p = TM_loop m' \<and> master_ok cfg m' \<and> err_cnt m' = err_cnt m + 1
            \<and> context_of m' = context_of m \<and> minimal_event_offset m' = minimal_event_offset m) w"
proof -
  obtain e evl where ev: "next_event (eventList m) = Ret (event_of e, evl)" "e \<in> set (eventList m)"
    "scheduler_ok evl" "evl \<noteq> []" "mset (map ptModbusAction evl) = mset (mbActionListHead cfg)"
    using master_ok_next [OF assms(8)] by metis
  have "set (map ptModbusAction (eventList m)) = set (mbActionListHead cfg)"
    using assms(8) by (intro mset_eq_setD) (simp add: master_ok_def)
  then have "ptModbusAction e \<in> set (mbActionListHead cfg)"
    using ev(2) by auto
  then have sends: "sends_request (eventModbusAction (event_of e))"
    using assms(7) by (simp add: event_of_def)
  have run: "wp (run_action E c (event_of e) t (minimal_event_offset m) (buffer_of m))
      (\<lambda>r _. fst r < 0 \<and> length (fst (snd r)) = MAX_REGISTER_SIZE_PER_ACTION) v" for c t v
    using assms(8) by (intro dead_run_action [OF assms(1-6,9) sends]) (simp add: master_ok_def)
  show ?thesis
    using ev assms(8)
    by (auto simp: tcp_master_loop_def wp_simps case_prod_unfold Let_def reset_status_of_def master_ok_def
        reset_master_status_def reset_modbus_master_status_def
        intro!: wp_mono [OF reset_status_returns] wp_mono [OF run])
qed

lemma dead_tcp_steps:
  assumes "link_down E" "modbus_limits E" "modbus_read_laws E" "image_world E img" "image_available E"
    and "clock_laws E now" "\<forall>a \<in> set (mbActionListHead cfg). sends_request a"
  shows "master_ok cfg m \<Longrightarrow> wf_timespec (minimal_event_offset m) \<Longrightarrow> err_cnt m + int n = 100 \<Longrightarrow>
     wp (run_steps (Suc n) (startTcpMasterThread D E cfg) (TM_loop m))
       (\<lambda>p _. \<exists>b. p = TM_connect (context_of m) b) w"
proof (induction n arbitrary: m w)
  case 0
  then show ?case
    unfolding run_steps.simps wp_bind
    by (intro wp_mono [OF dead_tcp_step [OF assms 0(1,2)]]) (auto simp: wp_prims)
next
  case (Suc n)
  have "err_cnt m \<noteq> 100" using Suc.prems(3) by simp
  moreover have "wp (run_steps (Suc n) (startTcpMasterThread D E cfg) (TM_loop m'))
      (\<lambda>p _. \<exists>b. p = TM_connect (context_of m) b) v"
    if "master_ok cfg m'" "err_cnt m' = err_cnt m + 1" "context_of m' = context_of m"
      "minimal_event_offset m' = minimal_event_offset m" for m' v
    using Suc.IH [of m' v] Suc.prems that by (simp del: run_steps.simps)
  ultimately show ?case
    unfolding run_steps.simps(2) [of "Suc n"] wp_bind
    by (intro wp_mono [OF dead_tcp_step [OF assms Suc.prems(1,2)]]) (auto simp del: run_steps.simps)
qed

section \<open>Reconnecting\<close>

text \<open>
  C34: When the link of a TCP master is dead, so that every request fails, it gives up the
  connection after exactly 101 actions in a row and goes back to connecting, without aborting.
\<close>

theorem tcp_master_reconnects:
  assumes "link_down E" "modbus_limits E" "modbus_read_laws E" "image_world E img" "image_available E"
    and "clock_laws E now" "\<forall>a \<in> set (mbActionListHead cfg). sends_request a"
    and "scheduler_ok (eventList m)" "eventList m \<noteq> []" "err_cnt m = 0"
    and "mset (map ptModbusAction (eventList m)) = mset (mbActionListHead cfg)"
    and "length (buffer_of m) = MAX_REGISTER_SIZE_PER_ACTION" "wf_timespec (minimal_event_offset m)"
  shows "wp (run_steps 101 (startTcpMasterThread D E cfg) (TM_loop m))
           (\<lambda>p _. \<exists>b. p = TM_connect (context_of m) b) w"
proof -
  have "master_ok cfg m"
    using assms(8-12) by (simp add: master_ok_def)
  moreover have "(101 :: nat) = Suc 100"
    by simp
  ultimately show ?thesis
    using dead_tcp_steps [OF assms(1-7) _ assms(13), of 100 D w] assms(10) by (simp del: run_steps.simps)
qed

text \<open>A plant whose link is down for good.\<close>

definition dead_env :: "plant env" where
  "dead_env = plant_env\<lparr>
     modbus_read_bits := (\<lambda>c a n w. ((-1, []), w)), modbus_read_input_bits := (\<lambda>c a n w. ((-1, []), w)),
     modbus_read_registers := (\<lambda>c a n w. ((-1, []), w)),
     modbus_read_input_registers := (\<lambda>c a n w. ((-1, []), w)),
     modbus_write_bit := (\<lambda>c a n w. (-1, w)), modbus_write_register := (\<lambda>c a n w. (-1, w)),
     modbus_write_bits := (\<lambda>c a n d w. (-1, w)), modbus_write_registers := (\<lambda>c a n d w. (-1, w)),
     modbus_report_slave_id := (\<lambda>c n w. ((-1, []), w))\<rparr>"

lemma dead_env_laws:
  "link_down dead_env" "modbus_limits dead_env" "modbus_read_laws dead_env" "image_world dead_env p_image"
  "image_available dead_env" "clock_laws dead_env p_clock"
proof -
  show "link_down dead_env" "modbus_limits dead_env" "modbus_read_laws dead_env"
    using plant_limits
    by (auto simp: link_down_def dead_env_def modbus_limits_def modbus_read_laws_def stores_at_most_def)
  show "image_world dead_env p_image" "image_available dead_env" "clock_laws dead_env p_clock"
    using plant_image_world [where 'a = unit] plant_available plant_clock_laws
    by (simp_all add: dead_env_def image_world_def picontrol_laws_def requests_keep_def clock_keeps_def
        mutex_keeps_def image_available_def clock_laws_def action_preserves_def)
qed

theorem tcp_master_reconnects_witness:
  "wp (run_steps 101 (startTcpMasterThread exact_ops dead_env (demo_master [demo_action 1 eREAD_COILS 3 1000000]))
         (TM_loop (demo_loop [demo_event 1 1 1])))
     (\<lambda>p _. \<exists>b. p = TM_connect 0 b) plant0"
  using tcp_master_reconnects [OF dead_env_laws, of "demo_master [demo_action 1 eREAD_COILS 3 1000000]"
      "demo_loop [demo_event 1 1 1]" exact_ops plant0]
  by (simp add: demo_master_def demo_loop_def demo_event_def demo_action_def sends_request_def queue_ok_def
      wf_event_def wf_timespec_def ns_of_def del: run_steps.simps)

end
