(* ===== verification/Thread_Safety.thy ===== *)
theory Thread_Safety
  imports Action_Semantics ModbusMasterThread ModbusSlaveThread
begin

text \<open>
  Total correctness of the passes of a thread: from which configurations on every step that a thread
  reaches returns, so that no \<^verbatim>\<open>assert\<close> fails, no array bound is left and no pointer that is \<^verbatim>\<open>NULL\<close> is
  used in any of them.
\<close>

section \<open>Masters\<close>

text \<open>
  What a master thread relies on from its configuration: intervals that are not 0, and register
  counts within the limits of the function codes. The parser ensures the former only.
\<close>

definition admissible_action :: "TModbusAction \<Rightarrow> bool" where
  "admissible_action a \<longleftrightarrow>
     i32uInterval_us a \<noteq> 0 \<and> action_fits (eFunctionCode a) (unat (i16uRegisterCount a))"

definition master_world :: "'w env \<Rightarrow> ('w \<Rightarrow> image) \<Rightarrow> bool" where
  "master_world E img \<longleftrightarrow> modbus_limits E \<and> modbus_read_laws E \<and> image_world E img
     \<and> (\<forall>w. wf_timespec (fst (clock_gettime E w)))"

text \<open>The pause is a value that the \<^verbatim>\<open>assert\<close>s of \<open>timespec_add\<close> admit.\<close>

definition safe_master :: "TModbusMasterConfiguration \<Rightarrow> master \<Rightarrow> bool" where
  "safe_master cfg m \<longleftrightarrow> master_ok cfg m \<and> tv_nsec (minimal_event_offset m) < 1000000000"

fun tcp_master_safe :: "TModbusMasterConfiguration \<Rightarrow> tcp_master_phase \<Rightarrow> bool" where
  "tcp_master_safe cfg (TM_connect c b) \<longleftrightarrow> length b = MAX_REGISTER_SIZE_PER_ACTION"
| "tcp_master_safe cfg (TM_loop m) \<longleftrightarrow> safe_master cfg m"
| "tcp_master_safe cfg _ \<longleftrightarrow> True"

fun rtu_master_safe :: "TModbusMasterConfiguration \<Rightarrow> rtu_master_phase \<Rightarrow> bool" where
  "rtu_master_safe cfg (RM_loop m) \<longleftrightarrow> safe_master cfg m"
| "rtu_master_safe cfg _ \<longleftrightarrow> True"

lemma timespec_add_returns:
  "tv_nsec a < 1000000000 \<Longrightarrow> tv_nsec b < 1000000000 \<Longrightarrow> \<exists>s. timespec_add a b = Ret s"
  by (simp add: timespec_add_def s32_nanoseconds_per_second_def Let_def)

lemma c_mod_less:
  assumes "0 < b"
  shows "- b < c_mod a b \<and> c_mod a b < b"
proof -
  have "0 \<le> x mod b \<and> x mod b < b" for x
    using assms by simp
  moreover have "c_mod a b = (if 0 \<le> a then a mod b else - ((- a) mod b))"
    using assms by (simp add: c_mod_def c_div_def sgn_if abs_if minus_mult_div_eq_mod)
      (simp add: minus_mult_div_eq_mod [symmetric])
  ultimately show ?thesis
    using assms by (smt (verit))
qed

lemma event_offset_nsec: "tv_nsec (get_minimal_modbus_event_offset D evl) < 1000000000"
proof -
  have "to_i32 (c_mod q 1000000000) < 1000000000" for q
    using c_mod_less [of 1000000000 q] by (simp add: to_i32_id)
  then show ?thesis
    by (simp add: get_minimal_modbus_event_offset_def s32_nanoseconds_per_second_def Let_def)
qed

lemma run_action_returns:
  assumes "master_world E img" "length buffer = MAX_REGISTER_SIZE_PER_ACTION" "tv_nsec offset < 1000000000"
    and "action_fits (eFunctionCode (eventModbusAction ev)) (unat (i16uRegisterCount (eventModbusAction ev)))"
  shows "wp (run_action E ctx ev earliest offset buffer)
           (\<lambda>r _. length (fst (snd r)) = MAX_REGISTER_SIZE_PER_ACTION) w"
proof -
  have len: "length buffer = 256"
    using assms(2) by (simp add: MAX_REGISTER_SIZE_PER_ACTION_def)
  have W: "modbus_limits E" "modbus_read_laws E" "image_world E img"
    using assms(1) by (simp_all add: master_world_def)
  have process: "wp (processModbusAction E ctx ev buffer)
      (\<lambda>r _. length (snd r) = MAX_REGISTER_SIZE_PER_ACTION) v" for v
    unfolding wp_processModbusAction
    by (rule wp_mono [OF process_function_returns [OF W len assms(4)]])
       (auto simp: MAX_REGISTER_SIZE_PER_ACTION_def intro: wp_mono [OF report_outcome_returns])
  have "tv_nsec (fst (clock_gettime E v)) < 1000000000" for v
    using assms(1) by (simp add: master_world_def wf_timespec_def)
  then have "\<exists>s. timespec_add (fst (clock_gettime E v)) offset = Ret s" for v
    using timespec_add_returns assms(3) by blast
  then show ?thesis
    by (auto simp: run_action_def wp_simps wp_liftO case_prod_unfold intro!: wp_mono [OF process])
qed

lemma set_timeouts_returns:
  "scheduler_ok evl \<Longrightarrow> evl \<noteq> [] \<Longrightarrow> wp (set_timeouts E ctx evl) (\<lambda>_ _. True) w"
  using minimal_interval_of_list [of evl]
  by (auto simp: set_timeouts_def wp_simps wp_liftO case_prod_unfold Let_def)

lemma write_device_status_returns: "wp (write_device_status E cfg e) (\<lambda>_ _. True) w"
  by (simp add: write_device_status_def writeErrorMessage_def wp_simps)

lemma release_context_returns: "wp (release_context E ctx) (\<lambda>_ _. True) w"
  by (simp add: release_context_def wp_simps split: option.splits)

lemma reset_all_status_returns: "wp (reset_all_status E evl) (\<lambda>_ _. True) w"
proof (induction evl arbitrary: w)
  case (Cons e evl)
  show ?case
    by (auto simp: wp_simps reset_status_of_def intro!: wp_mono [OF reset_status_returns] Cons)
qed (simp add: wp_simps)

lemma master_status_returns: "wp (reset_master_status E cfg) (\<lambda>_ _. True) w"
  by (simp add: reset_master_status_def reset_modbus_master_status_def reset_status_returns wp_simps case_prod_unfold)

lemma safe_master_pass:
  assumes "master_world E img" "\<forall>a \<in> set (mbActionListHead cfg). admissible_action a" "safe_master cfg m"
  obtains e evl where "next_event (eventList m) = Ret (event_of e, evl)" "scheduler_ok evl" "evl \<noteq> []"
    and "mset (map ptModbusAction evl) = mset (mbActionListHead cfg)"
    and "\<And>c t v. wp (run_action E c (event_of e) t (minimal_event_offset m) (buffer_of m))
      (\<lambda>r _. length (fst (snd r)) = MAX_REGISTER_SIZE_PER_ACTION) v"
proof -
  have m: "master_ok cfg m" "tv_nsec (minimal_event_offset m) < 1000000000"
    using assms(3) by (simp_all add: safe_master_def)
  obtain e evl where ev: "next_event (eventList m) = Ret (event_of e, evl)" "e \<in> set (eventList m)"
    "scheduler_ok evl" "evl \<noteq> []" "mset (map ptModbusAction evl) = mset (mbActionListHead cfg)"
    using master_ok_next [OF m(1)] by metis
  have "set (map ptModbusAction (eventList m)) = set (mbActionListHead cfg)"
    using m(1) by (intro mset_eq_setD) (simp add: master_ok_def)
  then have "ptModbusAction e \<in> set (mbActionListHead cfg)"
    using ev(2) by auto
  then have fits: "action_fits (eFunctionCode (eventModbusAction (event_of e)))
      (unat (i16uRegisterCount (eventModbusAction (event_of e))))"
    using assms(2) by (simp add: event_of_def admissible_action_def)
  have "wp (run_action E c (event_of e) t (minimal_event_offset m) (buffer_of m))
      (\<lambda>r _. length (fst (snd r)) = MAX_REGISTER_SIZE_PER_ACTION) v" for c t v
    using m by (intro run_action_returns [OF assms(1) _ _ fits]) (simp_all add: master_ok_def)
  with ev show thesis by (intro that)
qed

lemma tcp_master_step_safe:
  assumes "master_world E img" "\<forall>a \<in> set (mbActionListHead cfg). admissible_action a"
    and "uProt (masterDeviceConfig cfg) = tTcpConfig t" "tcp_master_safe cfg p"
  shows "wp (startTcpMasterThread D E cfg p) (\<lambda>p' _. tcp_master_safe cfg p') w"
proof (cases p)
  case TM_start
  then show ?thesis
    using assms(3)
    by (auto simp: tcp_master_start_def wp_simps tcp_config_def setprio_def
        intro!: wp_mono [OF write_device_status_returns] split: option.splits)
next
  case (TM_connect c b)
  have W: "\<forall>w. wf_timespec (fst (clock_gettime E w))" "\<forall>a \<in> set (mbActionListHead cfg). i32uInterval_us a \<noteq> 0"
    using assms(1,2) by (simp_all add: master_world_def admissible_action_def)
  show ?thesis
    using TM_connect assms(4)
    by (auto simp: tcp_master_connect_def wp_simps case_prod_unfold master_ok_def safe_master_def event_offset_nsec
        cleanupTcpMasterThread_def
        intro!: wp_mono [OF write_device_status_returns] wp_mono [OF initScheduler_ok [OF W]]
          wp_mono [OF set_timeouts_returns] wp_mono [OF release_context_returns] dest: mset_actions_Nil)
next
  case (TM_loop m)
  then have m: "safe_master cfg m"
    using assms(4) by simp
  obtain e evl where ev: "next_event (eventList m) = Ret (event_of e, evl)" "scheduler_ok evl" "evl \<noteq> []"
      "mset (map ptModbusAction evl) = mset (mbActionListHead cfg)"
    and run: "\<And>c t v. wp (run_action E c (event_of e) t (minimal_event_offset m) (buffer_of m))
        (\<lambda>r _. length (fst (snd r)) = MAX_REGISTER_SIZE_PER_ACTION) v"
    using safe_master_pass [OF assms(1,2) m] by metis
  show ?thesis
    using TM_loop ev m
    by (auto simp: tcp_master_loop_def wp_simps case_prod_unfold Let_def reset_status_of_def master_ok_def
        safe_master_def intro!: wp_mono [OF reset_status_returns] wp_mono [OF master_status_returns] wp_mono [OF run])
qed (simp add: wp_simps)

lemma rtu_event_offset_nsec:
  "i32ActionCount cfg \<noteq> 0 \<Longrightarrow> \<exists>offset. rtu_event_offset cfg t = Ret offset \<and> tv_nsec offset < 1000000000"
proof -
  have "uint (v mod 1000000000) < 1000000000" for v :: u64
    by (simp add: uint_mod)
  then show "i32ActionCount cfg \<noteq> 0 \<Longrightarrow> \<exists>offset. rtu_event_offset cfg t = Ret offset \<and> tv_nsec offset < 1000000000"
    by (simp add: rtu_event_offset_def Let_def)
qed

lemma rtu_master_begin_safe:
  assumes "master_world E img" "\<forall>a \<in> set (mbActionListHead cfg). admissible_action a"
    and "i32ActionCount cfg = int (length (mbActionListHead cfg))"
  shows "wp (rtu_master_begin E cfg ctx) (\<lambda>p' _. rtu_master_safe cfg p') w"
proof -
  have W: "\<forall>w. wf_timespec (fst (clock_gettime E w))" "\<forall>a \<in> set (mbActionListHead cfg). i32uInterval_us a \<noteq> 0"
    using assms(1,2) by (simp_all add: master_world_def admissible_action_def)
  have start: "\<exists>t. get_minimal_modbus_action_interval evl = Ret t \<and> (\<exists>offset. rtu_event_offset cfg t = Ret offset
      \<and> wp (write_device_status E cfg eNoError) (\<lambda>_ _. evl \<noteq> [] \<and> tv_nsec offset < 1000000000) v)"
    if list: "scheduler_ok evl" "mset (map ptModbusAction evl) = mset (mbActionListHead cfg)" "mbActionListHead cfg \<noteq> []"
    for evl v
  proof -
    have "evl \<noteq> []"
      using mset_actions_Nil [OF list(2,3)] .
    obtain e :: schedulerEvent where e: "get_minimal_modbus_action_interval evl = Ret (intervalTime e)"
      using minimal_interval_of_list [OF list(1) \<open>evl \<noteq> []\<close>] by blast
    have "i32ActionCount cfg \<noteq> 0"
      using assms(3) list(3) by simp
    then obtain offset where "rtu_event_offset cfg (intervalTime e) = Ret offset" "tv_nsec offset < 1000000000"
      using rtu_event_offset_nsec by blast
    with e \<open>evl \<noteq> []\<close> show ?thesis
      by (auto intro: wp_mono [OF write_device_status_returns])
  qed
  show ?thesis
    by (auto simp: rtu_master_begin_def wp_simps wp_liftO case_prod_unfold master_ok_def safe_master_def
        cleanupRtuMasterThread_def
        intro!: start wp_mono [OF write_device_status_returns] wp_mono [OF initScheduler_ok [OF W]]
          wp_mono [OF set_timeouts_returns] wp_mono [OF release_context_returns] dest: mset_actions_Nil)
qed

lemma rtu_master_step_safe:
  assumes "master_world E img" "\<forall>a \<in> set (mbActionListHead cfg). admissible_action a"
    and "i32ActionCount cfg = int (length (mbActionListHead cfg))"
    and "uProt (masterDeviceConfig cfg) = tRtuConfig t" "rtu_master_safe cfg p"
  shows "wp (startRtuMasterThread E cfg p) (\<lambda>p' _. rtu_master_safe cfg p') w"
proof (cases p)
  case RM_wait
  then show ?thesis
    using assms(4)
    by (auto simp: rtu_config_def rtu_master_open_def wp_simps setprio_def
        intro!: wp_mono [OF write_device_status_returns] rtu_master_begin_safe [OF assms(1-3)] split: option.splits)
next
  case (RM_loop m)
  then have m: "safe_master cfg m"
    using assms(5) by simp
  obtain e evl where ev: "next_event (eventList m) = Ret (event_of e, evl)" "scheduler_ok evl" "evl \<noteq> []"
      "mset (map ptModbusAction evl) = mset (mbActionListHead cfg)"
    and run: "\<And>c t v. wp (run_action E c (event_of e) t (minimal_event_offset m) (buffer_of m))
        (\<lambda>r _. length (fst (snd r)) = MAX_REGISTER_SIZE_PER_ACTION) v"
    using safe_master_pass [OF assms(1,2) m] by metis
  show ?thesis
    using RM_loop ev m
    by (auto simp: rtu_master_loop_def wp_simps case_prod_unfold Let_def master_ok_def
        safe_master_def intro!: wp_mono [OF reset_all_status_returns] wp_mono [OF master_status_returns] wp_mono [OF run])
qed (simp add: wp_simps)

section \<open>Slaves\<close>

text \<open>
  What a TCP slave relies on from the system, and does not check: that its descriptors fit into a
  set for \<^verbatim>\<open>select\<close>.
\<close>

definition few_descriptors :: "'w env \<Rightarrow> bool" where
  "few_descriptors E \<longleftrightarrow> (\<forall>s w. fst (accept_fd E s w) < int FD_SETSIZE)
     \<and> (\<forall>c n w. fst (modbus_tcp_pi_listen E c n w) < int FD_SETSIZE)"

definition slave_world :: "'w env \<Rightarrow> ('w \<Rightarrow> image) \<Rightarrow> ('w \<Rightarrow> nat set) \<Rightarrow> bool" where
  "slave_world E img fds \<longleftrightarrow> fd_laws E fds \<and> slave_laws E img \<and> image_world E img \<and> new_mapping_laws E
     \<and> few_descriptors E"

lemma slave_worldD:
  assumes "slave_world E img fds"
  shows "fd_laws E fds" "slave_laws E img" "image_world E img" "new_mapping_laws E" "few_descriptors E"
  using assms by (simp_all add: slave_world_def)

lemma descriptor_results:
  assumes "fd_laws E fds"
  shows "fst (accept_fd E s w) < 0 \<longleftrightarrow> fst (accept_fd E s w) = -1"
    and "fst (modbus_tcp_pi_listen E c n w) < 0 \<longleftrightarrow> fst (modbus_tcp_pi_listen E c n w) = -1"
proof -
  have y: "yields_fd fds (accept_fd E s)" "yields_fd fds (modbus_tcp_pi_listen E c n)"
    using assms by (simp_all add: fd_laws_def)
  show "fst (accept_fd E s w) < 0 \<longleftrightarrow> fst (accept_fd E s w) = -1"
    "fst (modbus_tcp_pi_listen E c n w) < 0 \<longleftrightarrow> fst (modbus_tcp_pi_listen E c n w) = -1"
    using yields_fdD(1) [OF y(1), of w] yields_fdD(1) [OF y(2), of w] by linarith+
qed

lemma accept_connection_safe:
  assumes "slave_world E img fds" "tcp_slave_ok F0 (fds w) t"
  shows "wp (accept_connection E t) (\<lambda>t' w'. tcp_slave_ok F0 (fds w') t' \<and> refset t \<subseteq> refset t') w"
proof -
  note W = slave_worldD [OF assms(1)]
  have "wp (accept_connection E t) (\<lambda>_ _. True) w"
    using W(5) descriptor_results(1) [OF W(1)]
    by (auto simp: accept_connection_def wp_simps few_descriptors_def not_le)
  from wp_conj [OF this accept_connection_ok [OF W(1) assms(2)]] show ?thesis by simp
qed

lemma serve_connection_safe:
  assumes "slave_world E img fds" "tcp_slave_ok F0 (fds w) t" "fd \<in> refset t" "fd \<noteq> server_socket t"
  shows "wp (serve_connection E cfg fd t) (\<lambda>t' w'. tcp_slave_ok F0 (fds w') t' \<and> refset t - {fd} \<subseteq> refset t') w"
proof -
  note W = slave_worldD [OF assms(1)]
  have "mapping_ok (mbMapping t)" using assms(2) by (simp add: tcp_slave_ok_def)
  then have "wp (serve_connection E cfg fd t) (\<lambda>_ _. True) w"
    by (auto simp: serve_connection_def wp_simps case_prod_unfold
        intro!: wp_mono [OF process_modbus_request_returns [OF W(2,3)]])
  from wp_conj [OF this serve_connection_ok [OF W(1-3) assms(2-4)]] show ?thesis by simp
qed

lemma serve_sockets_safe:
  assumes "slave_world E img fds"
  shows "tcp_slave_ok F0 (fds w) t \<Longrightarrow> rdset \<inter> set ds \<subseteq> refset t \<Longrightarrow> distinct ds \<Longrightarrow>
     wp (serve_sockets E cfg rdset ds t) (\<lambda>t' w'. tcp_slave_ok F0 (fds w') t') w"
proof (induction ds arbitrary: t w)
  case Nil
  then show ?case by (simp add: wp_simps tcp_slave_ok_def)
next
  case (Cons fd ds)
  have rest: "wp (serve_sockets E cfg rdset ds t') (\<lambda>t' w'. tcp_slave_ok F0 (fds w') t') w'"
    if "tcp_slave_ok F0 (fds w') t'" "refset t - {fd} \<subseteq> refset t'" for t' w'
    using Cons.IH [OF that(1)] that(2) Cons.prems(2,3) by auto
  have "wp (accept_connection E t) (\<lambda>t' w'. wp (serve_sockets E cfg rdset ds t')
      (\<lambda>t' w'. tcp_slave_ok F0 (fds w') t') w') w"
    by (rule wp_mono [OF accept_connection_safe [OF assms Cons.prems(1)]]) (auto intro: rest)
  moreover have "wp (serve_connection E cfg fd t) (\<lambda>t' w'. wp (serve_sockets E cfg rdset ds t')
      (\<lambda>t' w'. tcp_slave_ok F0 (fds w') t') w') w" if "fd \<in> rdset" "fd \<noteq> server_socket t"
    using that Cons.prems(2)
    by (intro wp_mono [OF serve_connection_safe [OF assms Cons.prems(1)]]) (auto intro: rest)
  ultimately show ?case
    using Cons.IH [OF Cons.prems(1)] Cons.prems by (auto simp: wp_simps)
qed

lemma close_fds_returns: "wp (close_fds E A ds) (\<lambda>_ _. True) w"
proof (induction ds arbitrary: w)
  case (Cons d ds)
  then show ?case by (auto simp: wp_simps intro!: wp_mono [OF Cons])
qed (simp add: wp_simps)

lemma cleanup_slave_returns:
  "wp (cleanupTcpSlaveThread E m c A) (\<lambda>_ _. True) w" "wp (cleanupRtuSlaveThread E m c) (\<lambda>_ _. True) w"
  by (auto simp: cleanupTcpSlaveThread_def cleanupRtuSlaveThread_def wp_simps
      intro!: wp_mono [OF release_context_returns] wp_mono [OF close_fds_returns])

lemma new_mapping_ok:
  assumes "new_mapping_laws E"
  shows "wp (new_mapping E cfg) (\<lambda>r _. \<forall>m. r = Some m \<longrightarrow> mapping_ok m) w"
proof -
  have "mapping_ok m" if "fst (modbus_mapping_new E (uint (u16Coils (tModbusDataConfig cfg)))
      (uint (u16DiscreteInputs (tModbusDataConfig cfg))) (uint (u16HoldingRegisters (tModbusDataConfig cfg)))
      (uint (u16InputRegisters (tModbusDataConfig cfg))) w) = Some m" for m
    using assms that unfolding new_mapping_laws_def by (metis (no_types, lifting) option.case(2))
  then show ?thesis
    by (simp add: new_mapping_def wp_simps)
qed

lemma tcp_slave_step_safe:
  assumes "slave_world E img fds" "uProt (slaveDeviceConfig cfg) = tTcpConfig tcp" "tcp_slave_inv F0 p (fds w)"
  shows "wp (startTcpSlaveThread E cfg p) (\<lambda>p' w'. tcp_slave_inv F0 p' (fds w')) w"
proof -
  note W = slave_worldD [OF assms(1)]
  have "wp (startTcpSlaveThread E cfg p) (\<lambda>_ _. True) w"
  proof (cases p)
    case TS_start
    then show ?thesis
      using assms(2)
      by (auto simp: tcp_slave_start_def new_mapping_def wp_simps tcp_config_def
          intro!: wp_mono [OF cleanup_slave_returns(1)] split: option.splits)
  next
    case (TS_listen m c)
    show ?thesis
      using TS_listen assms(2) W(5) descriptor_results(2) [OF W(1)]
      by (auto simp: tcp_slave_listen_def wp_simps tcp_config_def few_descriptors_def not_le)
  next
    case (TS_loop t)
    have "wp (serve_sockets E cfg (snd (fst (select_read E n (refset t) w))) [0..<FD_SETSIZE] t)
        (\<lambda>_ _. True) (snd (select_read E n (refset t) w))" for n
      using fd_lawsD(2) [OF W(1)] TS_loop assms(3)
      by (intro wp_mono [OF serve_sockets_safe [OF assms(1), of F0]]) (auto dest!: subsetD [OF fd_lawsD(3) [OF W(1)]])
    then show ?thesis
      using TS_loop by (auto simp: tcp_slave_loop_def wp_simps case_prod_unfold intro!: wp_mono [OF cleanup_slave_returns(1)])
  qed (simp add: wp_simps)
  from wp_conj [OF this tcp_slave_step_inv [OF W(1-4) assms(3)]] show ?thesis by simp
qed

fun rtu_slave_safe :: "rtu_slave_phase \<Rightarrow> bool" where
  "rtu_slave_safe (RS_loop m c) \<longleftrightarrow> mapping_ok m"
| "rtu_slave_safe _ \<longleftrightarrow> True"

lemma rtu_slave_step_safe:
  assumes "slave_laws E img" "image_world E img" "new_mapping_laws E"
    and "uProt (slaveDeviceConfig cfg) = tRtuConfig rtu" "rtu_slave_safe p"
  shows "wp (startRtuSlaveThread E cfg p) (\<lambda>p' _. rtu_slave_safe p') w"
proof (cases p)
  case RS_wait
  then show ?thesis
    using assms(4)
    by (auto simp: rtu_config_def rtu_slave_open_def rtu_slave_exit_def wp_simps
        intro!: wp_mono [OF new_mapping_ok [OF assms(3)]] wp_mono [OF cleanup_slave_returns(2)] split: option.splits)
next
  case (RS_loop m c)
  then show ?thesis
    using assms(5)
    by (auto simp: wp_simps case_prod_unfold intro!: wp_mono [OF process_modbus_request_returns [OF assms(1,2)]])
qed (simp add: wp_simps)

end
