(* ===== verification/Parsing_Error.thy ===== *)
theory Parsing_Error
  imports Main
begin

text \<open>
  The error codes of the configuration parser, \<^verbatim>\<open>src/src/piConfigParser/piConfigParser.c\<close>, their
  numeric values and the messages they are logged with.
\<close>

section \<open>Errors\<close>

datatype parsing_error =
    ACTION_ADDRESS_WRONG_FORMAT | ACTION_DATA_SECTION_NOT_FOUND | ACTION_FUNCTION_CODE_WRONG_FORMAT
  | ACTION_ID_WRONG_FORMAT | ACTION_INTERVALL_WRONG_FORMAT | ACTION_REGISTER_ADDRESS_WRONG_FORMAT
  | ACTION_REGISTER_QUANTITY_WRONG_FORMAT | DEVICE_RESET_ENTRIES_NOT_FOUND | DEVICES_SECTION_EMPTY
  | DEVICES_SECTION_NOT_FOUND | EXTEND_SECTION_NOT_FOUND | GENERAL_EXCEPTION
  | INPUT_PARAMETER_SECTION_NOT_FOUND | INTERFACE_SECTION_NOT_FOUND | LENGTH_POSITION_PARAMETER_NOT_FOUND
  | LENGTH_POSITION_PARAMETER_WRONG_TYPE | MAX_CONNECTIONS_LIMIT_EXCEEDED | MAX_CONNECTIONS_NOT_FOUND
  | OFFSET_POSITION_PARAMETER_NOT_FOUND | OFFSET_POSITION_PARAMETER_WRONG_TYPE
  | OUTPUT_PARAMETER_SECTION_NOT_FOUND | PROCESS_IMAGE_OBJECT_EMPTY | PROCESS_IMAGE_WRONG_TYPE
  | PRODUCT_NAME_NOT_FOUND | PRODUCT_TYPE_SECTION_EMPTY | PRODUCT_TYPE_SECTION_NOT_FOUND
  | RTU_BAUDRATE_NOT_FOUND | RTU_BAUDRATE_WRONG_FORMAT | RTU_DATABITS_NOT_FOUND | RTU_DATABITS_SIZE
  | RTU_DEVICE_PATH_LENGTH_EXCEEDED | RTU_DEVICE_PATH_NOT_FOUND | RTU_MODBUS_ADDRESS_NOT_FOUND
  | RTU_MODBUS_ADDRESS_SIZE | RTU_PARITY_LENGTH_EXCEEDED | RTU_PARITY_NOT_FOUND | RTU_PARITY_WRONG_FORMAT
  | RTU_STOPBITS_NOT_FOUND | RTU_STOPBITS_SIZE | TCP_ADDRESS_NOT_FOUND | TCP_ADDRESS_WRONG_FORMAT
  | TCP_PORT_NOT_FOUND | TCP_PORT_WRONG_FORMAT | UNKNOWN_MODBUS_DEVICE | SUCCESS

text \<open>The enumerators in the order of their declaration; they count up from \<open>-100\<close>.\<close>

definition error_enumerators :: "parsing_error list" where
  "error_enumerators =
     [ACTION_ADDRESS_WRONG_FORMAT, ACTION_DATA_SECTION_NOT_FOUND, ACTION_FUNCTION_CODE_WRONG_FORMAT,
      ACTION_ID_WRONG_FORMAT, ACTION_INTERVALL_WRONG_FORMAT, ACTION_REGISTER_ADDRESS_WRONG_FORMAT,
      ACTION_REGISTER_QUANTITY_WRONG_FORMAT, DEVICE_RESET_ENTRIES_NOT_FOUND, DEVICES_SECTION_EMPTY,
      DEVICES_SECTION_NOT_FOUND, EXTEND_SECTION_NOT_FOUND, GENERAL_EXCEPTION,
      INPUT_PARAMETER_SECTION_NOT_FOUND, INTERFACE_SECTION_NOT_FOUND, LENGTH_POSITION_PARAMETER_NOT_FOUND,
      LENGTH_POSITION_PARAMETER_WRONG_TYPE, MAX_CONNECTIONS_LIMIT_EXCEEDED, MAX_CONNECTIONS_NOT_FOUND,
      OFFSET_POSITION_PARAMETER_NOT_FOUND, OFFSET_POSITION_PARAMETER_WRONG_TYPE,
      OUTPUT_PARAMETER_SECTION_NOT_FOUND, PROCESS_IMAGE_OBJECT_EMPTY, PROCESS_IMAGE_WRONG_TYPE,
      PRODUCT_NAME_NOT_FOUND, PRODUCT_TYPE_SECTION_EMPTY, PRODUCT_TYPE_SECTION_NOT_FOUND,
      RTU_BAUDRATE_NOT_FOUND, RTU_BAUDRATE_WRONG_FORMAT, RTU_DATABITS_NOT_FOUND, RTU_DATABITS_SIZE,
      RTU_DEVICE_PATH_LENGTH_EXCEEDED, RTU_DEVICE_PATH_NOT_FOUND, RTU_MODBUS_ADDRESS_NOT_FOUND,
      RTU_MODBUS_ADDRESS_SIZE, RTU_PARITY_LENGTH_EXCEEDED, RTU_PARITY_NOT_FOUND, RTU_PARITY_WRONG_FORMAT,
      RTU_STOPBITS_NOT_FOUND, RTU_STOPBITS_SIZE, TCP_ADDRESS_NOT_FOUND, TCP_ADDRESS_WRONG_FORMAT,
      TCP_PORT_NOT_FOUND, TCP_PORT_WRONG_FORMAT, UNKNOWN_MODBUS_DEVICE]"

definition error_code :: "parsing_error \<Rightarrow> int" where
  "error_code e = (if e = SUCCESS then 0 else int (length (takeWhile (\<lambda>x. x \<noteq> e) error_enumerators)) - 100)"

lemma error_code_range: "e \<noteq> SUCCESS \<Longrightarrow> -100 \<le> error_code e \<and> error_code e < 0"
proof -
  have "length (takeWhile P error_enumerators) \<le> 44" for P
    using length_takeWhile_le [of P error_enumerators] by (simp add: error_enumerators_def)
  from this [of "\<lambda>x. x \<noteq> e"] show "e \<noteq> SUCCESS \<Longrightarrow> -100 \<le> error_code e \<and> error_code e < 0"
    by (simp add: error_code_def)
qed

lemma error_code_neg [simp]: "error_code e < 0 \<longleftrightarrow> e \<noteq> SUCCESS"
  using error_code_range [of e] by (auto simp: error_code_def)

lemma error_code_neq_0 [simp]: "error_code e = 0 \<longleftrightarrow> e = SUCCESS"
  using error_code_range [of e] by (auto simp: error_code_def)

text \<open>The text that \<^verbatim>\<open>print_err\<close> sends to the log.\<close>

fun get_parsing_error_translation :: "parsing_error \<Rightarrow> string" where
  "get_parsing_error_translation ACTION_ADDRESS_WRONG_FORMAT = ''Action address has wrong format''"
| "get_parsing_error_translation ACTION_DATA_SECTION_NOT_FOUND = ''Action data object not found''"
| "get_parsing_error_translation ACTION_FUNCTION_CODE_WRONG_FORMAT = ''Action fuction code has wrong format''"
| "get_parsing_error_translation ACTION_ID_WRONG_FORMAT = ''Action data object id has wrong format''"
| "get_parsing_error_translation ACTION_INTERVALL_WRONG_FORMAT = ''Action intervall has wrong format''"
| "get_parsing_error_translation ACTION_REGISTER_ADDRESS_WRONG_FORMAT = ''Action register address has wrong format''"
| "get_parsing_error_translation ACTION_REGISTER_QUANTITY_WRONG_FORMAT = ''Action register quantity has wrong format''"
| "get_parsing_error_translation DEVICE_RESET_ENTRIES_NOT_FOUND = ''Device reset object not found''"
| "get_parsing_error_translation DEVICES_SECTION_NOT_FOUND = ''Device object not found''"
| "get_parsing_error_translation DEVICES_SECTION_EMPTY = ''Device list empty''"
| "get_parsing_error_translation EXTEND_SECTION_NOT_FOUND = ''Configuration object not found''"
| "get_parsing_error_translation GENERAL_EXCEPTION = ''Unknown error''"
| "get_parsing_error_translation INPUT_PARAMETER_SECTION_NOT_FOUND = ''Input parameter object not found''"
| "get_parsing_error_translation INTERFACE_SECTION_NOT_FOUND = ''Interface object not found''"
| "get_parsing_error_translation LENGTH_POSITION_PARAMETER_NOT_FOUND = ''Device position parameter not found''"
| "get_parsing_error_translation LENGTH_POSITION_PARAMETER_WRONG_TYPE = ''Device position parameter has wrong type''"
| "get_parsing_error_translation MAX_CONNECTIONS_NOT_FOUND = ''Max connections object not found''"
| "get_parsing_error_translation MAX_CONNECTIONS_LIMIT_EXCEEDED = ''Limit of connections exceeded''"
| "get_parsing_error_translation OFFSET_POSITION_PARAMETER_NOT_FOUND = ''Offset position parameter not found''"
| "get_parsing_error_translation OFFSET_POSITION_PARAMETER_WRONG_TYPE = ''Offset position parameter has wrong type''"
| "get_parsing_error_translation OUTPUT_PARAMETER_SECTION_NOT_FOUND = ''Output parameter object not found''"
| "get_parsing_error_translation PROCESS_IMAGE_OBJECT_EMPTY = ''Process image object empty''"
| "get_parsing_error_translation PROCESS_IMAGE_WRONG_TYPE = ''Process image image has wrong type''"
| "get_parsing_error_translation PRODUCT_NAME_NOT_FOUND = ''Product type not found''"
| "get_parsing_error_translation PRODUCT_TYPE_SECTION_EMPTY = ''Product name not found''"
| "get_parsing_error_translation PRODUCT_TYPE_SECTION_NOT_FOUND = ''Product type empty''"
| "get_parsing_error_translation TCP_ADDRESS_NOT_FOUND = ''IP address not found''"
| "get_parsing_error_translation TCP_ADDRESS_WRONG_FORMAT = ''IP address has wrong format''"
| "get_parsing_error_translation TCP_PORT_NOT_FOUND = ''TCP port not found''"
| "get_parsing_error_translation TCP_PORT_WRONG_FORMAT = ''TCP port has wrong format''"
| "get_parsing_error_translation RTU_BAUDRATE_NOT_FOUND = ''Baud rate for RTU connection not found''"
| "get_parsing_error_translation RTU_BAUDRATE_WRONG_FORMAT = ''Baud rate for RTU connection has wrong format''"
| "get_parsing_error_translation RTU_DATABITS_NOT_FOUND = ''Data bits for RTU connection not found''"
| "get_parsing_error_translation RTU_DATABITS_SIZE = ''Data bits for RTU connection has wrong size''"
| "get_parsing_error_translation RTU_DEVICE_PATH_NOT_FOUND = ''Device path for RTU connection not found''"
| "get_parsing_error_translation RTU_DEVICE_PATH_LENGTH_EXCEEDED = ''Device path for RTU connection length exceeded''"
| "get_parsing_error_translation RTU_PARITY_LENGTH_EXCEEDED = ''Parity for RTU connection length exceeded''"
| "get_parsing_error_translation RTU_PARITY_NOT_FOUND = ''Parity for RTU connection not found''"
| "get_parsing_error_translation RTU_PARITY_WRONG_FORMAT = ''Parity for RTU connection has wrong format''"
| "get_parsing_error_translation RTU_STOPBITS_NOT_FOUND = ''Stop bits for RTU connection not found''"
| "get_parsing_error_translation RTU_STOPBITS_SIZE = ''Stop bits for RTU connection has wrong size''"
| "get_parsing_error_translation RTU_MODBUS_ADDRESS_NOT_FOUND = ''Modbus address for RTU connection not found''"
| "get_parsing_error_translation RTU_MODBUS_ADDRESS_SIZE = ''Modbus address for RTU connection has wrong size''"
| "get_parsing_error_translation UNKNOWN_MODBUS_DEVICE = ''Modbus device is unknown''"
| "get_parsing_error_translation SUCCESS = ''Success''"

end
