(* ===== verification/CString.thy ===== *)
theory CString
  imports Prelude "HOL-Library.Char_ord"
begin

text \<open>
  The string functions of the C library that the configuration parser uses, on C strings as
  lists of characters without their terminating zero byte: \<^verbatim>\<open>strtoul\<close> and \<^verbatim>\<open>strtoumax\<close> with base
  10, comparison of leading bytes with \<^verbatim>\<open>memcmp\<close>, and the match of the regular expression
  \<^verbatim>\<open>_([^_]+)_\<close>.
\<close>

section \<open>Numbers\<close>

definition c_isspace :: "char \<Rightarrow> bool" where
  "c_isspace c \<longleftrightarrow> of_char c = (32 :: nat) \<or> (9 \<le> (of_char c :: nat) \<and> of_char c \<le> (13 :: nat))"

definition c_isdigit :: "char \<Rightarrow> bool" where
  "c_isdigit c \<longleftrightarrow> 48 \<le> (of_char c :: nat) \<and> of_char c \<le> (57 :: nat)"

definition digit_of :: "char \<Rightarrow> nat" where
  "digit_of c = of_char c - 48"

fun digits_value :: "nat \<Rightarrow> string \<Rightarrow> nat" where
  "digits_value acc [] = acc"
| "digits_value acc (c # cs) = digits_value (10 * acc + digit_of c) cs"

text \<open>
  The number and whether \<^verbatim>\<open>errno\<close> is set to \<^verbatim>\<open>ERANGE\<close>. Leading white space and a sign are skipped;
  what follows the digits is ignored; no digits yield 0 without an error; a minus sign negates the
  value in the unsigned type with the greatest value \<open>limit\<close>.
\<close>

definition skip_sign :: "string \<Rightarrow> bool \<times> string" where
  "skip_sign s = (case s of [] \<Rightarrow> (False, [])
     | c # cs \<Rightarrow> if c = CHR ''-'' then (True, cs) else if c = CHR ''+'' then (False, cs) else (False, s))"

definition strtou :: "nat \<Rightarrow> string \<Rightarrow> nat \<times> bool" where
  "strtou limit s =
     (let (neg, digits) = skip_sign (dropWhile c_isspace s);
          v = digits_value 0 (takeWhile c_isdigit digits)
      in if limit < v then (limit, True)
         else (if neg \<and> 0 < v then limit + 1 - v else v, False))"

definition UINTMAX_MAX :: nat where
  "UINTMAX_MAX = 2 ^ 64 - 1"

text \<open>Assigning the result to an \<^verbatim>\<open>uint32_t\<close> keeps its lower 32 bits.\<close>

definition strtou32 :: "nat \<Rightarrow> string \<Rightarrow> u32 \<times> bool" where
  "strtou32 limit s = (case strtou limit s of (v, err) \<Rightarrow> (word_of_nat v, err))"

text \<open>Decimal numerals, to state what is parsed.\<close>

definition digit_char :: "nat \<Rightarrow> char" where
  "digit_char d = char_of (48 + d)"

fun decimal :: "nat \<Rightarrow> string" where
  "decimal n = (if n < 10 then [digit_char n] else decimal (n div 10) @ [digit_char (n mod 10)])"

declare decimal.simps [simp del]

lemma of_char_digit: "d < 10 \<Longrightarrow> of_char (digit_char d) = 48 + d"
  by (simp add: digit_char_def)

lemma digit_char_facts:
  "d < 10 \<Longrightarrow> c_isdigit (digit_char d)" "d < 10 \<Longrightarrow> digit_of (digit_char d) = d"
  "d < 10 \<Longrightarrow> \<not> c_isspace (digit_char d)"
  by (simp_all add: c_isdigit_def c_isspace_def digit_of_def of_char_digit)

lemma digits_value_append: "digits_value acc (xs @ ys) = digits_value (digits_value acc xs) ys"
  by (induction xs arbitrary: acc) simp_all

lemma decimal_digits: "\<forall>c \<in> set (decimal n). c_isdigit c"
proof (induction n rule: decimal.induct)
  case (1 n)
  then show ?case
    by (subst decimal.simps) (auto simp: digit_char_facts)
qed

lemma decimal_not_Nil: "decimal n \<noteq> []"
  by (subst decimal.simps) simp

lemma digits_value_decimal: "digits_value 0 (decimal n) = n"
proof (induction n rule: decimal.induct)
  case (1 n)
  then show ?case
    by (subst decimal.simps) (auto simp: digits_value_append digit_char_facts)
qed

lemma c_isdigit_not: "c_isdigit c \<Longrightarrow> \<not> c_isspace c \<and> c \<noteq> CHR ''-'' \<and> c \<noteq> CHR ''+''"
  by (auto simp: c_isdigit_def c_isspace_def)

lemma strtou_decimal_append:
  assumes "n \<le> limit" "rest = [] \<or> \<not> c_isdigit (hd rest)"
  shows "strtou limit (decimal n @ rest) = (n, False)"
proof -
  obtain c cs where d: "decimal n = c # cs" using decimal_not_Nil [of n] by (cases "decimal n") auto
  then have c: "\<not> c_isspace c" "c \<noteq> CHR ''-''" "c \<noteq> CHR ''+''"
    using decimal_digits [of n] c_isdigit_not by auto
  then have "skip_sign (dropWhile c_isspace (decimal n @ rest)) = (False, decimal n @ rest)"
    by (simp add: d skip_sign_def)
  moreover have "takeWhile c_isdigit (decimal n @ rest) = decimal n"
    using decimal_digits [of n] assms(2) by (cases rest) (auto simp: takeWhile_append2)
  ultimately show ?thesis
    using assms(1) by (simp add: strtou_def digits_value_decimal)
qed

lemma strtou_le: "fst (strtou limit s) \<le> limit"
  by (auto simp: strtou_def Let_def split: prod.splits)

section \<open>Comparing the beginning of strings\<close>

text \<open>
  \<^verbatim>\<open>memcmp(a, b, n) == 0\<close> on two C strings, their zero bytes included. Where \<open>n\<close> exceeds one of
  the strings, the first difference lies at its zero byte or before; the result is then \<open>False\<close>.
\<close>

definition memcmp_eq :: "string \<Rightarrow> string \<Rightarrow> nat \<Rightarrow> bool" where
  "memcmp_eq a b n \<longleftrightarrow> take n (a @ [CHR 0x00]) = take n (b @ [CHR 0x00])"

text \<open>Characters of a C string are not zero.\<close>

definition c_string :: "string \<Rightarrow> bool" where
  "c_string s \<longleftrightarrow> CHR 0x00 \<notin> set s"

lemma memcmp_eq_prefix:
  assumes "c_string a"
  shows "memcmp_eq a b (length a) \<longleftrightarrow> take (length a) b = a"
proof -
  have "take (length a) (b @ [CHR 0x00]) = a \<longleftrightarrow> take (length a) b = a"
    using assms by (cases "length a - length b") (auto simp: c_string_def dest: arg_cong [where f = set])
  then show ?thesis
    by (auto simp: memcmp_eq_def)
qed

section \<open>The identifier between underscores\<close>

text \<open>
  The leftmost match of \<^verbatim>\<open>_([^_]+)_\<close> in a string: an underscore, at least one other character, and
  the next underscore. It is the whole match, with both underscores.
\<close>

fun match_identifier :: "string \<Rightarrow> string option" where
  "match_identifier [] = None"
| "match_identifier (c # cs) =
     (if c = CHR ''_'' \<and> takeWhile (\<lambda>x. x \<noteq> CHR ''_'') cs \<noteq> []
         \<and> dropWhile (\<lambda>x. x \<noteq> CHR ''_'') cs \<noteq> []
      then Some (CHR ''_'' # takeWhile (\<lambda>x. x \<noteq> CHR ''_'') cs @ ''_'')
      else match_identifier cs)"

lemma match_identifier_sound:
  "match_identifier s = Some m \<Longrightarrow>
     \<exists>a ident b. s = a @ m @ b \<and> m = ''_'' @ ident @ ''_'' \<and> ident \<noteq> [] \<and> CHR ''_'' \<notin> set ident"
proof (induction s)
  case (Cons c cs)
  show ?case
  proof (cases "c = CHR ''_'' \<and> takeWhile (\<lambda>x. x \<noteq> CHR ''_'') cs \<noteq> [] \<and> dropWhile (\<lambda>x. x \<noteq> CHR ''_'') cs \<noteq> []")
    case True
    then have m: "m = CHR ''_'' # takeWhile (\<lambda>x. x \<noteq> CHR ''_'') cs @ ''_''"
      using Cons.prems by auto
    obtain d ds where d: "dropWhile (\<lambda>x. x \<noteq> CHR ''_'') cs = d # ds"
      using True by (cases "dropWhile (\<lambda>x. x \<noteq> CHR ''_'') cs") auto
    then have "d = CHR ''_''"
      using dropWhile_eq_Cons_conv [of "\<lambda>x. x \<noteq> CHR ''_''" cs d ds] by simp
    then have "c # cs = [] @ m @ ds"
      using m True d takeWhile_dropWhile_id [of "\<lambda>x. x \<noteq> CHR ''_''" cs] by simp
    moreover have "CHR ''_'' \<notin> set (takeWhile (\<lambda>x. x \<noteq> CHR ''_'') cs)"
      by (auto dest: set_takeWhileD)
    ultimately show ?thesis
      using m True by (intro exI [of _ "[]"] exI [of _ "takeWhile (\<lambda>x. x \<noteq> CHR ''_'') cs"] exI [of _ ds]) auto
  next
    case False
    then obtain a ident b where "cs = a @ m @ b" "m = ''_'' @ ident @ ''_''" "ident \<noteq> []" "CHR ''_'' \<notin> set ident"
      using Cons by auto
    then show ?thesis
      by (intro exI [of _ "c # a"] exI [of _ ident] exI [of _ b]) simp
  qed
qed simp

end
