(* ===== verification/Jsonc.thy ===== *)
theory Jsonc
  imports CString
begin

text \<open>
  The accessors of the library \<^verbatim>\<open>json-c\<close> that the configuration parser uses: a record of functions on
  opaque objects \<open>'j\<close>, which is an argument of the parser's definitions. A \<^verbatim>\<open>json_object *\<close> is
  \<open>'j option\<close>, with \<open>None\<close> for \<open>NULL\<close>. At the end, documents as a datatype and the accessors on them,
  on which the witnesses run the parser.
\<close>

section \<open>The accessors\<close>

datatype json_type =
    json_type_null | json_type_boolean | json_type_double | json_type_int
  | json_type_object | json_type_array | json_type_string

text \<open>
  \<open>json_object_object_get_ex\<close> yields \<open>None\<close> when it returns false, otherwise the object found, which
  may be \<open>NULL\<close>; \<open>json_object_get_array\<close> and \<open>json_object_get_object\<close> yield \<open>None\<close> for \<open>NULL\<close> and
  otherwise the elements, respectively the entries in order; \<open>json_object_get_int\<close> also yields
  whether \<^verbatim>\<open>errno\<close> has been set. \<open>ULONG_MAX\<close> and \<open>CHAR_MAX\<close> depend on the platform.
\<close>

record 'j jsonc =
  json_tokener_parse :: "string \<Rightarrow> 'j option"
  json_object_object_get_ex :: "'j option \<Rightarrow> string \<Rightarrow> 'j option option"
  json_object_get_array :: "'j option \<Rightarrow> 'j option list option"
  array_list_get_idx :: "'j option list \<Rightarrow> nat \<Rightarrow> 'j option"
  array_list_length :: "'j option list \<Rightarrow> nat"
  json_object_get_type :: "'j option \<Rightarrow> json_type"
  json_object_is_type :: "'j option \<Rightarrow> json_type \<Rightarrow> int"
  json_object_get_string :: "'j option \<Rightarrow> string option"
  json_object_get_int :: "'j option \<Rightarrow> int \<times> bool"
  json_object_get_object :: "'j option \<Rightarrow> (string \<times> 'j option) list option"
  ULONG_MAX :: nat
  CHAR_MAX :: nat

text \<open>Iterating over an object that is none, and using a string that is \<open>NULL\<close>, are faults.\<close>

definition entries_of :: "'j jsonc \<Rightarrow> 'j option \<Rightarrow> (string \<times> 'j option) list outcome" where
  "entries_of J obj = (case json_object_get_object J obj of None \<Rightarrow> Fault | Some es \<Rightarrow> Ret es)"

definition not_null :: "'a option \<Rightarrow> 'a outcome" where
  "not_null x = (case x of None \<Rightarrow> Fault | Some v \<Rightarrow> Ret v)"

definition strtoul32 :: "'j jsonc \<Rightarrow> string \<Rightarrow> u32 \<times> bool" where
  "strtoul32 J = strtou32 (ULONG_MAX J)"

definition strtoumax32 :: "string \<Rightarrow> u32 \<times> bool" where
  "strtoumax32 = strtou32 UINTMAX_MAX"

section \<open>Documented behaviour\<close>

text \<open>
  A string has characters, an object has entries, a type test yields 0 or 1, \<open>NULL\<close> is of type null.
\<close>

definition jsonc_laws :: "'j jsonc \<Rightarrow> bool" where
  "jsonc_laws J \<longleftrightarrow>
     (\<forall>v. json_object_get_type J v = json_type_string \<longrightarrow> json_object_get_string J v \<noteq> None)
   \<and> (\<forall>v. json_object_get_type J v = json_type_object \<longrightarrow> json_object_get_object J v \<noteq> None)
   \<and> (\<forall>v t. json_object_is_type J v t = of_bool (json_object_get_type J v = t))
   \<and> json_object_get_type J None = json_type_null"

section \<open>Documents\<close>

datatype json = JBool bool | JInt int | JString string | JArray "json option list" | JObject "(string \<times> json option) list"

fun doc_type :: "json option \<Rightarrow> json_type" where
  "doc_type None = json_type_null"
| "doc_type (Some (JBool _)) = json_type_boolean"
| "doc_type (Some (JInt _)) = json_type_int"
| "doc_type (Some (JString _)) = json_type_string"
| "doc_type (Some (JArray _)) = json_type_array"
| "doc_type (Some (JObject _)) = json_type_object"

fun doc_entries :: "json option \<Rightarrow> (string \<times> json option) list option" where
  "doc_entries (Some (JObject es)) = Some es"
| "doc_entries _ = None"

fun doc_array :: "json option \<Rightarrow> json option list option" where
  "doc_array (Some (JArray a)) = Some a"
| "doc_array _ = None"

text \<open>The text of a string is the string; compound values are printed without their content.\<close>

fun doc_string :: "json option \<Rightarrow> string option" where
  "doc_string None = None"
| "doc_string (Some (JString s)) = Some s"
| "doc_string (Some (JInt n)) = Some (if n < 0 then CHR ''-'' # decimal (nat (- n)) else decimal (nat n))"
| "doc_string (Some (JBool b)) = Some (if b then ''true'' else ''false'')"
| "doc_string (Some (JArray _)) = Some ''[]''"
| "doc_string (Some (JObject _)) = Some ''{}''"

fun doc_int :: "json option \<Rightarrow> int \<times> bool" where
  "doc_int (Some (JInt n)) = (max (- (2 ^ 31)) (min (2 ^ 31 - 1) n), False)"
| "doc_int _ = (0, True)"

definition doc_jsonc :: "json \<Rightarrow> json jsonc" where
  "doc_jsonc doc = \<lparr>
     json_tokener_parse = (\<lambda>_. Some doc),
     json_object_object_get_ex = (\<lambda>obj key. case doc_entries obj of None \<Rightarrow> None | Some es \<Rightarrow> map_of es key),
     json_object_get_array = doc_array,
     array_list_get_idx = (\<lambda>a i. if i < length a then a ! i else None),
     array_list_length = length,
     json_object_get_type = doc_type,
     json_object_is_type = (\<lambda>v t. of_bool (doc_type v = t)),
     json_object_get_string = doc_string,
     json_object_get_int = doc_int,
     json_object_get_object = doc_entries,
     ULONG_MAX = 2 ^ 32 - 1, CHAR_MAX = 255\<rparr>"

lemma doc_jsonc_laws: "jsonc_laws (doc_jsonc doc)"
proof -
  have "doc_type v = json_type_string \<Longrightarrow> doc_string v \<noteq> None" "doc_type v = json_type_object \<Longrightarrow> doc_entries v \<noteq> None" for v
    by (cases v rule: doc_type.cases; simp)+
  then show ?thesis
    unfolding jsonc_laws_def doc_jsonc_def by (intro conjI allI impI) simp_all
qed

lemma doc_jsonc_simps [simp]:
  "json_tokener_parse (doc_jsonc doc) txt = Some doc"
  "json_object_object_get_ex (doc_jsonc doc) (Some (JObject es)) key = map_of es key"
  "json_object_get_array (doc_jsonc doc) = doc_array"
  "array_list_get_idx (doc_jsonc doc) = (\<lambda>a i. if i < length a then a ! i else None)"
  "array_list_length (doc_jsonc doc) = length"
  "json_object_get_type (doc_jsonc doc) = doc_type"
  "json_object_is_type (doc_jsonc doc) v t = of_bool (doc_type v = t)"
  "json_object_get_string (doc_jsonc doc) = doc_string"
  "json_object_get_int (doc_jsonc doc) = doc_int"
  "json_object_get_object (doc_jsonc doc) = doc_entries"
  "ULONG_MAX (doc_jsonc doc) = 2 ^ 32 - 1" "CHAR_MAX (doc_jsonc doc) = 255"
  by (simp_all add: doc_jsonc_def)

end
