(* ===== verification/PiConfigParser.thy ===== *)
theory PiConfigParser
  imports Parsing_Error Plant Jsonc
begin

text \<open>
  The configuration parser, \<^verbatim>\<open>src/src/piConfigParser/piConfigParser.c\<close>, walks the JSON document of
  \<^verbatim>\<open>config.rsc\<close> through the accessors of \<^verbatim>\<open>json-c\<close>, which are an argument of the definitions (\<open>Jsonc\<close>).
  This theory holds the devices, their product type and their protocol parameters.
\<close>

section \<open>Constants\<close>

definition VARIABLE_NAME_ARRAY_POSITION :: nat where "VARIABLE_NAME_ARRAY_POSITION = 0"
definition PROCESS_IMAGE_VARIABLE_BIT_LENGTH_ARRAY_POSITION :: nat where
  "PROCESS_IMAGE_VARIABLE_BIT_LENGTH_ARRAY_POSITION = 2"
definition RELATIVE_PROCESS_IMAGE_VARIABLE_BYTE_OFFSET_ARRAY_POSITION :: nat where
  "RELATIVE_PROCESS_IMAGE_VARIABLE_BYTE_OFFSET_ARRAY_POSITION = 3"
definition RELATIVE_PROCESS_IMAGE_VARIABLE_BIT_OFFSET_ARRAY_POSITION :: nat where
  "RELATIVE_PROCESS_IMAGE_VARIABLE_BIT_OFFSET_ARRAY_POSITION = 7"
definition MODBUS_SLAVE_PARAMETER_ARRAY_POSITION :: nat where "MODBUS_SLAVE_PARAMETER_ARRAY_POSITION = 1"

definition MODBUS_SLAVE_TCP_PI_PRODUCT_TYPE :: string where "MODBUS_SLAVE_TCP_PI_PRODUCT_TYPE = ''24577''"
definition MODBUS_SLAVE_RTU_PI_PRODUCT_TYPE :: string where "MODBUS_SLAVE_RTU_PI_PRODUCT_TYPE = ''24578''"
definition MODBUS_MASTER_TCP_PI_PRODUCT_TYPE :: string where "MODBUS_MASTER_TCP_PI_PRODUCT_TYPE = ''24579''"
definition MODBUS_MASTER_RTU_PI_PRODUCT_TYPE :: string where "MODBUS_MASTER_RTU_PI_PRODUCT_TYPE = ''24580''"

lemmas product_types = MODBUS_SLAVE_TCP_PI_PRODUCT_TYPE_def MODBUS_SLAVE_RTU_PI_PRODUCT_TYPE_def
  MODBUS_MASTER_TCP_PI_PRODUCT_TYPE_def MODBUS_MASTER_RTU_PI_PRODUCT_TYPE_def

text \<open>\<^verbatim>\<open>INET_ADDRSTRLEN\<close>, \<^verbatim>\<open>PATH_MAX\<close> and \<^verbatim>\<open>USHRT_MAX\<close> of the system headers.\<close>

definition INET_ADDRSTRLEN :: nat where "INET_ADDRSTRLEN = 16"
definition PATH_MAX :: nat where "PATH_MAX = 4096"
definition USHRT_MAX :: u32 where "USHRT_MAX = 65535"

section \<open>Devices\<close>

definition get_json_devices_array :: "'j jsonc \<Rightarrow> string \<Rightarrow> parsing_error + 'j option list" where
  "get_json_devices_array J text =
     (case json_tokener_parse J text of None \<Rightarrow> Inl GENERAL_EXCEPTION
      | Some config \<Rightarrow>
          (case json_object_object_get_ex J (Some config) ''Devices'' of None \<Rightarrow> Inl DEVICES_SECTION_NOT_FOUND
           | Some devices \<Rightarrow>
               (case json_object_get_array J devices of None \<Rightarrow> Inl DEVICES_SECTION_EMPTY
                | Some a \<Rightarrow> Inr a)))"

definition get_device_product_type :: "'j jsonc \<Rightarrow> 'j option \<Rightarrow> parsing_error + string option" where
  "get_device_product_type J pi_device =
     (case json_object_object_get_ex J pi_device ''productType'' of None \<Rightarrow> Inl PRODUCT_TYPE_SECTION_EMPTY
      | Some t \<Rightarrow>
          if json_object_get_type J t \<noteq> json_type_string then Inl PRODUCT_TYPE_SECTION_EMPTY
          else Inr (json_object_get_string J t))"

definition product_matches :: "string \<Rightarrow> string \<Rightarrow> bool" where
  "product_matches productType pi_product_type = memcmp_eq productType pi_product_type (length productType)"

definition get_device_string_parameter :: "'j jsonc \<Rightarrow> 'j option \<Rightarrow> string \<Rightarrow> string option" where
  "get_device_string_parameter J parameters key =
     (case json_object_object_get_ex J parameters key of None \<Rightarrow> None
      | Some entry \<Rightarrow>
          (case json_object_get_array J entry of None \<Rightarrow> None
           | Some a \<Rightarrow>
               let array_entry = array_list_get_idx J a MODBUS_SLAVE_PARAMETER_ARRAY_POSITION
               in if json_object_get_type J array_entry \<noteq> json_type_string then None
                  else json_object_get_string J array_entry))"

text \<open>
  A numeric parameter: not found, not a number in the range that \<open>ok\<close> checks after the result has
  been cut to 32 bits, or its value.
\<close>

definition get_device_number ::
  "'j jsonc \<Rightarrow> 'j option \<Rightarrow> string \<Rightarrow> parsing_error \<Rightarrow> parsing_error \<Rightarrow> (u32 \<Rightarrow> bool) \<Rightarrow> parsing_error + u32" where
  "get_device_number J parameters key not_found wrong ok =
     (case get_device_string_parameter J parameters key of None \<Rightarrow> Inl not_found
      | Some s \<Rightarrow>
          let (v, err) = strtoumax32 s in if err \<or> \<not> ok v then Inl wrong else Inr v)"

definition bindE :: "parsing_error + 'a \<Rightarrow> ('a \<Rightarrow> parsing_error + 'b) \<Rightarrow> parsing_error + 'b" where
  "bindE m f = (case m of Inl e \<Rightarrow> Inl e | Inr x \<Rightarrow> f x)"

lemma bindE_simps [simp]: "bindE (Inl e) f = Inl e" "bindE (Inr x) f = f x"
  by (simp_all add: bindE_def)

lemma bindE_Inr: "bindE m f = Inr y \<longleftrightarrow> (\<exists>x. m = Inr x \<and> f x = Inr y)"
  by (cases m) simp_all

section \<open>Protocol parameters of a device\<close>

definition tcp_master_configuration :: "'j jsonc \<Rightarrow> 'j option \<Rightarrow> parsing_error + TTcpConfig" where
  "tcp_master_configuration J parameters =
     (case get_device_string_parameter J parameters ''0'' of None \<Rightarrow> Inl TCP_ADDRESS_NOT_FOUND
      | Some address \<Rightarrow>
          if INET_ADDRSTRLEN \<le> length address then Inl TCP_ADDRESS_WRONG_FORMAT
          else bindE (get_device_number J parameters ''1'' TCP_PORT_NOT_FOUND TCP_PORT_WRONG_FORMAT
                        (\<lambda>v. v \<le> USHRT_MAX)) (\<lambda>tcp_port.
               Inr \<lparr>szTcpIpAddress = address, i32uPort = sint tcp_port, maxModbusConnections = 0\<rparr>))"

definition tcp_slave_configuration :: "'j jsonc \<Rightarrow> 'j option \<Rightarrow> parsing_error + TTcpConfig" where
  "tcp_slave_configuration J parameters =
     bindE (get_device_number J parameters ''0'' TCP_PORT_NOT_FOUND TCP_PORT_WRONG_FORMAT
              (\<lambda>v. v \<le> USHRT_MAX)) (\<lambda>tcp_port.
     bindE (get_device_number J parameters ''1'' MAX_CONNECTIONS_NOT_FOUND MAX_CONNECTIONS_LIMIT_EXCEEDED
              (\<lambda>v. v \<le> USHRT_MAX)) (\<lambda>tcp_max_connections.
     Inr \<lparr>szTcpIpAddress = ''0.0.0.0'', i32uPort = sint tcp_port,
          maxModbusConnections = sint tcp_max_connections\<rparr>))"

definition parse_parity :: "string \<Rightarrow> parsing_error + char" where
  "parse_parity s =
     (if 1 < length s then Inl RTU_PARITY_LENGTH_EXCEEDED
      else if s = ''1'' then Inr (CHR ''E'')
      else if s = ''2'' then Inr (CHR ''O'')
      else if s = ''0'' then Inr (CHR ''N'')
      else Inl RTU_PARITY_WRONG_FORMAT)"

definition rtu_configuration :: "'j jsonc \<Rightarrow> 'j option \<Rightarrow> string \<Rightarrow> parsing_error + TRtuConfig" where
  "rtu_configuration J parameters productType =
     (case get_device_string_parameter J parameters ''0'' of None \<Rightarrow> Inl RTU_DEVICE_PATH_NOT_FOUND
      | Some path \<Rightarrow>
     if PATH_MAX \<le> length path then Inl RTU_DEVICE_PATH_LENGTH_EXCEEDED
     else bindE (get_device_number J parameters ''1'' RTU_BAUDRATE_NOT_FOUND RTU_BAUDRATE_WRONG_FORMAT
                   (\<lambda>_. True)) (\<lambda>rtu_baudrate.
     case get_device_string_parameter J parameters ''2'' of None \<Rightarrow> Inl RTU_PARITY_NOT_FOUND
      | Some p \<Rightarrow>
     bindE (parse_parity p) (\<lambda>parity.
     bindE (get_device_number J parameters ''3'' RTU_DATABITS_NOT_FOUND RTU_DATABITS_SIZE
              (\<lambda>v. MODBUS_RTU_MIN_DATABITS \<le> v \<and> v \<le> MODBUS_RTU_MAX_DATABITS)) (\<lambda>databits_count.
     bindE (get_device_number J parameters ''4'' RTU_STOPBITS_NOT_FOUND RTU_STOPBITS_SIZE
              (\<lambda>v. MODBUS_RTU_MIN_STOPBITS \<le> v \<and> v \<le> MODBUS_RTU_MAX_STOPBITS)) (\<lambda>stopbits_count.
     bindE (if product_matches productType MODBUS_SLAVE_RTU_PI_PRODUCT_TYPE
            then get_device_number J parameters ''5'' RTU_MODBUS_ADDRESS_NOT_FOUND RTU_MODBUS_ADDRESS_SIZE
                   (\<lambda>v. unat v \<le> CHAR_MAX J)
            else Inr 0) (\<lambda>modbus_address.
     Inr \<lparr>i32uBaud = rtu_baudrate, cParity = parity, i8uDatabits = ucast databits_count,
          i8uStopbits = ucast stopbits_count, u8DeviceModbusAddress = ucast modbus_address,
          sz8DeviceFilePath = path\<rparr>))))))"

text \<open>The configuration was allocated with \<^verbatim>\<open>calloc\<close>: fields that are not set stay 0.\<close>

definition device_configuration :: "EModbusProtocol \<Rightarrow> UProt \<Rightarrow> TModbusDeviceConfiguration" where
  "device_configuration prot u = \<lparr>eProtocol = prot, uProt = u,
     i32uDeviceStatusByteProcessImageOffset = 0, i32uDeviceStatusResetByteProcessImageByteOffset = 0\<rparr>"

definition parse_device_modbus_configuration ::
  "'j jsonc \<Rightarrow> 'j option \<Rightarrow> (parsing_error + TModbusDeviceConfiguration) outcome" where
  "parse_device_modbus_configuration J device =
     (case json_object_object_get_ex J device ''productType'' of None \<Rightarrow> Ret (Inl PRODUCT_TYPE_SECTION_NOT_FOUND)
      | Some t \<Rightarrow>
     if json_object_get_type J t \<noteq> json_type_string then Ret (Inl PRODUCT_TYPE_SECTION_EMPTY)
     else (case json_object_object_get_ex J device ''mem'' of None \<Rightarrow> Ret (Inl INTERFACE_SECTION_NOT_FOUND)
      | Some parameters \<Rightarrow>
     obind (not_null (json_object_get_string J t)) (\<lambda>productType.
     Ret (if product_matches productType MODBUS_MASTER_TCP_PI_PRODUCT_TYPE then
            bindE (tcp_master_configuration J parameters) (\<lambda>c. Inr (device_configuration eProtTCP (tTcpConfig c)))
          else if product_matches productType MODBUS_SLAVE_TCP_PI_PRODUCT_TYPE then
            bindE (tcp_slave_configuration J parameters) (\<lambda>c. Inr (device_configuration eProtTCP (tTcpConfig c)))
          else if product_matches productType MODBUS_SLAVE_RTU_PI_PRODUCT_TYPE
                  \<or> product_matches productType MODBUS_MASTER_RTU_PI_PRODUCT_TYPE then
            bindE (rtu_configuration J parameters productType) (\<lambda>c. Inr (device_configuration eProtRTU (tRtuConfig c)))
          else Inl UNKNOWN_MODBUS_DEVICE))))"

section \<open>Properties\<close>

lemma strtoumax32_decimal: "n \<le> UINTMAX_MAX \<Longrightarrow> strtoumax32 (decimal n) = (word_of_nat n, False)"
  using strtou_decimal_append [of n UINTMAX_MAX "[]"] by (simp add: strtoumax32_def strtou32_def)

lemma get_device_number_decimal:
  "get_device_string_parameter J parameters key = Some (decimal n) \<Longrightarrow> n \<le> UINTMAX_MAX \<Longrightarrow>
   get_device_number J parameters key nf wrong ok =
     (if ok (word_of_nat n) then Inr (word_of_nat n) else Inl wrong)"
  by (simp add: get_device_number_def strtoumax32_decimal)

lemma get_device_number_ok: "get_device_number J parameters key nf wrong ok = Inr v \<Longrightarrow> ok v"
  by (auto simp: get_device_number_def split: option.splits prod.splits if_splits)

lemma ushort_sint: "v \<le> USHRT_MAX \<Longrightarrow> 0 \<le> sint v \<and> sint v \<le> 65535"
proof -
  assume "v \<le> USHRT_MAX"
  then have v: "uint v \<le> 65535" by (simp add: USHRT_MAX_def word_le_def)
  then have "sint v = uint v" by (simp add: sint_uint signed_take_bit_int_eq_self_iff) (rule order_trans [OF _ uint_ge_0], simp)
  then show ?thesis using v by simp
qed

lemma u32_small: "(v :: u32) \<le> 255 \<Longrightarrow> unat (ucast v :: u8) = unat v"
  by (simp add: word_le_nat_alt take_bit_nat_eq_self unsigned_ucast_eq)

lemma parse_parity_ok: "parse_parity s = Inr c \<Longrightarrow> c \<in> {CHR ''E'', CHR ''O'', CHR ''N''}"
  by (auto simp: parse_parity_def split: if_splits)

definition tcp_in_range :: "TTcpConfig \<Rightarrow> bool" where
  "tcp_in_range t \<longleftrightarrow> length (szTcpIpAddress t) < INET_ADDRSTRLEN \<and> 0 \<le> i32uPort t \<and> i32uPort t \<le> 65535
     \<and> 0 \<le> maxModbusConnections t \<and> maxModbusConnections t \<le> 65535"

definition rtu_in_range :: "'j jsonc \<Rightarrow> TRtuConfig \<Rightarrow> bool" where
  "rtu_in_range J r \<longleftrightarrow> length (sz8DeviceFilePath r) < PATH_MAX \<and> cParity r \<in> {CHR ''E'', CHR ''O'', CHR ''N''}
     \<and> unat (i8uDatabits r) \<in> {5..8} \<and> unat (i8uStopbits r) \<in> {1..2} \<and> unat (u8DeviceModbusAddress r) \<le> CHAR_MAX J"

lemma tcp_configuration_range:
  "tcp_master_configuration J parameters = Inr t \<Longrightarrow> tcp_in_range t"
  "tcp_slave_configuration J parameters = Inr t \<Longrightarrow> tcp_in_range t"
  by (auto simp: tcp_master_configuration_def tcp_slave_configuration_def tcp_in_range_def bindE_Inr
      INET_ADDRSTRLEN_def ushort_sint dest!: get_device_number_ok split: option.splits if_splits)

lemma rtu_databits: "MODBUS_RTU_MIN_DATABITS \<le> v \<Longrightarrow> v \<le> MODBUS_RTU_MAX_DATABITS \<Longrightarrow> unat (ucast v :: u8) \<in> {5..8}"
  using u32_small [of v] by (simp add: MODBUS_RTU_MIN_DATABITS_def MODBUS_RTU_MAX_DATABITS_def word_le_nat_alt)

lemma rtu_stopbits: "MODBUS_RTU_MIN_STOPBITS \<le> v \<Longrightarrow> v \<le> MODBUS_RTU_MAX_STOPBITS \<Longrightarrow> unat (ucast v :: u8) \<in> {1..2}"
  using u32_small [of v] by (auto simp: MODBUS_RTU_MIN_STOPBITS_def MODBUS_RTU_MAX_STOPBITS_def word_le_nat_alt)

lemma rtu_configuration_range:
  assumes "rtu_configuration J parameters productType = Inr r"
  shows "rtu_in_range J r"
proof -
  have "unat (ucast v :: u8) \<le> unat (v :: u32)" for v
    by (simp add: unsigned_ucast_eq)
  then have address: "unat (ucast v :: u8) \<le> CHAR_MAX J" if "unat (v :: u32) \<le> CHAR_MAX J" for v
    using that order_trans by blast
  show ?thesis
    using assms
    by (auto simp: rtu_configuration_def bindE_Inr rtu_in_range_def rtu_databits rtu_stopbits [simplified One_nat_def] address simp del: insert_iff atLeastAtMost_iff
        dest!: get_device_number_ok parse_parity_ok split: option.splits if_splits)
qed

definition device_in_range :: "'j jsonc \<Rightarrow> TModbusDeviceConfiguration \<Rightarrow> bool" where
  "device_in_range J c \<longleftrightarrow> (case uProt c of
       tTcpConfig t \<Rightarrow> eProtocol c = eProtTCP \<and> tcp_in_range t
     | tRtuConfig r \<Rightarrow> eProtocol c = eProtRTU \<and> rtu_in_range J r)"

lemma parse_device_in_range:
  "parse_device_modbus_configuration J pi_device = Ret (Inr c) \<Longrightarrow> device_in_range J c"
  by (auto simp: parse_device_modbus_configuration_def obind_Ret_iff bindE_Inr device_configuration_def
      device_in_range_def tcp_configuration_range rtu_configuration_range split: option.splits if_splits)

text \<open>A device configuration that the parser accepts lies in the ranges of its fields: a TCP address
  that fits, ports and connection counts of at most 65535; a serial device with a known parity, 5 to
  8 data bits, 1 or 2 stop bits, a path and an address that fit.\<close>

lemma device_configuration_ranges:
  assumes "parse_device_modbus_configuration J pi_device = Ret (Inr c)"
  shows "case uProt c of
           tTcpConfig t \<Rightarrow> eProtocol c = eProtTCP \<and> tcp_in_range t
         | tRtuConfig r \<Rightarrow> eProtocol c = eProtRTU \<and> rtu_in_range J r"
  using parse_device_in_range [OF assms] by (simp add: device_in_range_def)

definition parameter :: "string \<Rightarrow> string \<Rightarrow> string \<times> json option" where
  "parameter key v = (key, Some (JArray [Some (JString ''''), Some (JString v)]))"

definition demo_rtu_parameters :: "json option" where
  "demo_rtu_parameters = Some (JObject
     [parameter ''0'' ''/dev/ttyRS485'', parameter ''1'' (decimal 19200), parameter ''2'' ''1'',
      parameter ''3'' (decimal 8), parameter ''4'' (decimal 1), parameter ''5'' (decimal 17)])"

lemma demo_rtu_parameter:
  "get_device_string_parameter (doc_jsonc doc) demo_rtu_parameters ''0'' = Some ''/dev/ttyRS485''"
  "get_device_string_parameter (doc_jsonc doc) demo_rtu_parameters ''1'' = Some (decimal 19200)"
  "get_device_string_parameter (doc_jsonc doc) demo_rtu_parameters ''2'' = Some ''1''"
  "get_device_string_parameter (doc_jsonc doc) demo_rtu_parameters ''3'' = Some (decimal 8)"
  "get_device_string_parameter (doc_jsonc doc) demo_rtu_parameters ''4'' = Some (decimal 1)"
  "get_device_string_parameter (doc_jsonc doc) demo_rtu_parameters ''5'' = Some (decimal 17)"
  by (simp_all add: get_device_string_parameter_def demo_rtu_parameters_def parameter_def
      MODBUS_SLAVE_PARAMETER_ARRAY_POSITION_def)

text \<open>The parameters of a serial slave are read back from their decimal texts: baud rate modulo
  the width of the field, parity letter, data and stop bits, address and device path.\<close>

lemma rtu_slave_configuration:
  assumes "get_device_string_parameter J parameters ''0'' = Some path" "length path < PATH_MAX"
    and "get_device_string_parameter J parameters ''1'' = Some (decimal baud)" "baud \<le> UINTMAX_MAX"
    and "get_device_string_parameter J parameters ''2'' = Some p" "parse_parity p = Inr parity"
    and "get_device_string_parameter J parameters ''3'' = Some (decimal databits)" "databits \<in> {5..8}"
    and "get_device_string_parameter J parameters ''4'' = Some (decimal stopbits)" "stopbits \<in> {1..2}"
    and "product_matches productType MODBUS_SLAVE_RTU_PI_PRODUCT_TYPE"
    and "get_device_string_parameter J parameters ''5'' = Some (decimal address)"
        "address \<le> CHAR_MAX J" "address < 2 ^ 32"
  shows "rtu_configuration J parameters productType = Inr
    \<lparr>i32uBaud = word_of_nat baud, cParity = parity, i8uDatabits = word_of_nat databits,
     i8uStopbits = word_of_nat stopbits, u8DeviceModbusAddress = word_of_nat address, sz8DeviceFilePath = path\<rparr>"
proof -
  have d: "databits \<le> UINTMAX_MAX" "MODBUS_RTU_MIN_DATABITS \<le> word_of_nat databits" "word_of_nat databits \<le> MODBUS_RTU_MAX_DATABITS"
    using assms(8) by (auto simp: UINTMAX_MAX_def MODBUS_RTU_MIN_DATABITS_def MODBUS_RTU_MAX_DATABITS_def
        word_le_nat_alt unat_of_nat)
  have s: "stopbits \<le> UINTMAX_MAX" "MODBUS_RTU_MIN_STOPBITS \<le> word_of_nat stopbits" "word_of_nat stopbits \<le> MODBUS_RTU_MAX_STOPBITS"
    using assms(10) by (auto simp: UINTMAX_MAX_def MODBUS_RTU_MIN_STOPBITS_def MODBUS_RTU_MAX_STOPBITS_def
        word_le_nat_alt unat_of_nat)
  have a: "address \<le> UINTMAX_MAX" "unat (word_of_nat address :: u32) \<le> CHAR_MAX J"
    using assms(13,14) by (simp_all add: UINTMAX_MAX_def unat_of_nat)
  have u: "(ucast (word_of_nat n :: u32) :: u8) = word_of_nat n" for n
    by (rule word_uint_eqI) (simp add: unsigned_ucast_eq unsigned_of_nat take_bit_of_nat)
  show ?thesis
    using assms by (simp add: rtu_configuration_def get_device_number_decimal d s a u)
qed

lemma rtu_slave_configuration_witness:
  "rtu_configuration (doc_jsonc (JObject [])) demo_rtu_parameters ''24578'' = Inr
    \<lparr>i32uBaud = 19200, cParity = CHR ''E'', i8uDatabits = 8, i8uStopbits = 1, u8DeviceModbusAddress = 17,
     sz8DeviceFilePath = ''/dev/ttyRS485''\<rparr>"
  using rtu_slave_configuration [of "doc_jsonc (JObject [])" demo_rtu_parameters "''/dev/ttyRS485''" 19200 "''1''" "CHR ''E''"
      8 1 "''24578''" 17]
  by (simp add: demo_rtu_parameter PATH_MAX_def UINTMAX_MAX_def parse_parity_def product_matches_def memcmp_eq_def
      product_types)

definition demo_rtu_device :: "json option" where
  "demo_rtu_device = Some (JObject [(''productType'', Some (JString ''24578'')), (''mem'', demo_rtu_parameters)])"

lemma device_configuration_ranges_witness:
  "\<exists>c. parse_device_modbus_configuration (doc_jsonc (JObject [])) demo_rtu_device = Ret (Inr c)
     \<and> eProtocol c = eProtRTU
     \<and> (case uProt c of tTcpConfig t \<Rightarrow> False | tRtuConfig r \<Rightarrow> rtu_in_range (doc_jsonc (JObject [])) r)"
proof -
  obtain r where "rtu_configuration (doc_jsonc (JObject [])) demo_rtu_parameters ''24578'' = Inr r"
    by (simp add: rtu_configuration_def demo_rtu_parameter get_device_number_decimal PATH_MAX_def UINTMAX_MAX_def
        parse_parity_def product_matches_def memcmp_eq_def product_types MODBUS_RTU_MIN_DATABITS_def
        MODBUS_RTU_MAX_DATABITS_def MODBUS_RTU_MIN_STOPBITS_def MODBUS_RTU_MAX_STOPBITS_def)
  then have c: "parse_device_modbus_configuration (doc_jsonc (JObject [])) demo_rtu_device
      = Ret (Inr (device_configuration eProtRTU (tRtuConfig r)))"
    by (simp add: parse_device_modbus_configuration_def demo_rtu_device_def not_null_def product_matches_def
        memcmp_eq_def product_types)
  show ?thesis
    using device_configuration_ranges [OF c] c by (simp add: device_configuration_def)
qed

text \<open>The range of a TCP port is checked after the number has been cut to 32 bits: the port of a
  master is the number in its configuration modulo \<open>2 ^ 32\<close>, whenever that is a port.\<close>

lemma tcp_port_wraps:
  assumes "get_device_string_parameter J parameters ''0'' = Some address" "length address < INET_ADDRSTRLEN"
    and "get_device_string_parameter J parameters ''1'' = Some (decimal n)" "n \<le> UINTMAX_MAX"
  shows "tcp_master_configuration J parameters =
     (if n mod 2 ^ 32 \<le> 65535
      then Inr \<lparr>szTcpIpAddress = address, i32uPort = int (n mod 2 ^ 32), maxModbusConnections = 0\<rparr>
      else Inl TCP_PORT_WRONG_FORMAT)"
proof -
  have le: "word_of_nat n \<le> USHRT_MAX \<longleftrightarrow> n mod 2 ^ 32 \<le> 65535"
    by (simp add: USHRT_MAX_def word_le_nat_alt unat_of_nat)
  have "sint (word_of_nat n :: u32) = int (n mod 2 ^ 32)" if "n mod 2 ^ 32 \<le> 65535"
  proof -
    have u: "uint (word_of_nat n :: u32) = int (n mod 2 ^ 32)"
      by (simp add: unsigned_of_nat take_bit_eq_mod zmod_int)
    show ?thesis
      using that unfolding sint_uint u by (simp add: signed_take_bit_int_eq_self_iff)
  qed
  then show ?thesis
    using assms by (simp add: tcp_master_configuration_def get_device_number_decimal le)
qed

definition demo_tcp_parameters :: "json option" where
  "demo_tcp_parameters = Some (JObject [parameter ''0'' ''192.168.0.1'', parameter ''1'' (decimal 4294967798)])"

lemma tcp_port_wraps_example:
  "tcp_master_configuration (doc_jsonc (JObject [])) demo_tcp_parameters
     = Inr \<lparr>szTcpIpAddress = ''192.168.0.1'', i32uPort = 502, maxModbusConnections = 0\<rparr>"
proof -
  have "get_device_string_parameter (doc_jsonc (JObject [])) demo_tcp_parameters ''0'' = Some ''192.168.0.1''"
    "get_device_string_parameter (doc_jsonc (JObject [])) demo_tcp_parameters ''1'' = Some (decimal 4294967798)"
    by (simp_all add: get_device_string_parameter_def demo_tcp_parameters_def parameter_def
        MODBUS_SLAVE_PARAMETER_ARRAY_POSITION_def)
  from tcp_port_wraps [OF this(1) _ this(2)] show ?thesis
    by (simp add: INET_ADDRSTRLEN_def UINTMAX_MAX_def)
qed

end
