(* ===== verification/Parser_Image.thy ===== *)
theory Parser_Image
  imports PiConfigParser
begin

text \<open>
  The part of \<^verbatim>\<open>src/src/piConfigParser/piConfigParser.c\<close> that finds the place of variables and of the
  data of a slave in the process image, and the configuration of the slaves.
\<close>

section \<open>Offsets\<close>

definition get_process_image_device_offset :: "'j jsonc \<Rightarrow> 'j option \<Rightarrow> int" where
  "get_process_image_device_offset J pi_device =
     (case json_object_object_get_ex J pi_device ''offset'' of
        None \<Rightarrow> error_code OFFSET_POSITION_PARAMETER_NOT_FOUND
      | Some obj \<Rightarrow>
          if json_object_is_type J obj json_type_int < 0 then error_code OFFSET_POSITION_PARAMETER_WRONG_TYPE
          else let (v, err) = json_object_get_int J obj
               in if err then error_code OFFSET_POSITION_PARAMETER_WRONG_TYPE else v)"

text \<open>
  One variable of a section: \<open>None\<close> when the loop goes on, the return code when it ends; with the
  byte and bit offset as they are then stored in the out-parameters.
\<close>

definition variable_offsets ::
  "'j jsonc \<Rightarrow> 'j option list \<Rightarrow> u32 \<times> u32 \<Rightarrow> (parsing_error option \<times> u32 \<times> u32) outcome" where
  "variable_offsets J a offs =
     (let byte_entry = array_list_get_idx J a RELATIVE_PROCESS_IMAGE_VARIABLE_BYTE_OFFSET_ARRAY_POSITION
      in if json_object_is_type J byte_entry json_type_string < 0 then Ret (None, offs)
         else obind (not_null (json_object_get_string J byte_entry)) (\<lambda>s.
           let (byte_offset, err) = strtoumax32 s
           in if err then Ret (Some OFFSET_POSITION_PARAMETER_WRONG_TYPE, offs)
              else let bit_entry = array_list_get_idx J a RELATIVE_PROCESS_IMAGE_VARIABLE_BIT_OFFSET_ARRAY_POSITION
                   in if json_object_is_type J bit_entry json_type_string < 0 then Ret (None, byte_offset, snd offs)
                      else obind (not_null (json_object_get_string J bit_entry)) (\<lambda>t.
                        let (bit_offset, err) = strtoumax32 t
                        in if err then Ret (Some OFFSET_POSITION_PARAMETER_WRONG_TYPE, byte_offset, snd offs)
                           else Ret (Some SUCCESS, byte_offset, bit_offset))))"

definition same_name :: "string \<Rightarrow> string \<Rightarrow> bool" where
  "same_name variable_name parameter_name \<longleftrightarrow>
     length variable_name = length parameter_name
     \<and> memcmp_eq parameter_name variable_name (length parameter_name)"

primrec search_variable ::
  "'j jsonc \<Rightarrow> string option \<Rightarrow> (string \<times> 'j option) list \<Rightarrow> u32 \<times> u32 \<Rightarrow> (parsing_error \<times> u32 \<times> u32) outcome" where
  "search_variable J name [] offs = Ret (GENERAL_EXCEPTION, offs)"
| "search_variable J name (e # es) offs =
     (if json_object_is_type J (snd e) json_type_array < 0 then search_variable J name es offs
      else case json_object_get_array J (snd e) of
          None \<Rightarrow> search_variable J name es offs
        | Some a \<Rightarrow>
            if json_object_is_type J (array_list_get_idx J a VARIABLE_NAME_ARRAY_POSITION) json_type_string < 0
            then search_variable J name es offs
            else obind (not_null (json_object_get_string J (array_list_get_idx J a VARIABLE_NAME_ARRAY_POSITION)))
              (\<lambda>variable_name. obind (not_null name) (\<lambda>parameter_name.
                 if same_name variable_name parameter_name
                 then obind (variable_offsets J a offs) (\<lambda>(rc, offs').
                        case rc of None \<Rightarrow> search_variable J name es offs' | Some r \<Rightarrow> Ret (r, offs'))
                 else search_variable J name es offs)))"

definition get_variable_relative_offsets ::
  "'j jsonc \<Rightarrow> 'j option \<Rightarrow> string option \<Rightarrow> u32 \<times> u32 \<Rightarrow> (parsing_error \<times> u32 \<times> u32) outcome" where
  "get_variable_relative_offsets J in_out_section name offs =
     obind (entries_of J in_out_section) (\<lambda>es. search_variable J name es offs)"

definition get_variable_parameters ::
  "'j jsonc \<Rightarrow> 'j option \<Rightarrow> string option \<Rightarrow> u32 \<times> u32 \<Rightarrow> (int \<times> u32 \<times> u32) outcome" where
  "get_variable_parameters J pi_device name offs =
     (let device_offset = get_process_image_device_offset J pi_device
      in if device_offset < 0 then Ret (device_offset, offs)
         else case json_object_object_get_ex J pi_device ''inp'' of
             None \<Rightarrow> Ret (error_code INPUT_PARAMETER_SECTION_NOT_FOUND, offs)
           | Some inp \<Rightarrow>
               obind (get_variable_relative_offsets J inp name offs) (\<lambda>(rc1, offs1).
               case json_object_object_get_ex J pi_device ''out'' of
                 None \<Rightarrow> Ret (error_code OUTPUT_PARAMETER_SECTION_NOT_FOUND, offs1)
               | Some out \<Rightarrow>
                   obind (get_variable_relative_offsets J out name offs1) (\<lambda>(rc2, byte_offset, bit_offset).
                   if error_code rc1 < 0 \<and> error_code rc2 < 0
                   then Ret (error_code GENERAL_EXCEPTION, byte_offset, bit_offset)
                   else Ret (0, byte_offset + word_of_int device_offset, bit_offset))))"

section \<open>The area of a section in the process image\<close>

text \<open>The smallest offset, the greatest one, and the bit length of the variable that has it.\<close>

primrec scan_section ::
  "'j jsonc \<Rightarrow> (string \<times> 'j option) list \<Rightarrow> u32 \<times> u32 \<times> 'j option
     \<Rightarrow> (parsing_error + u32 \<times> u32 \<times> 'j option) outcome" where
  "scan_section J [] acc = Ret (Inr acc)"
| "scan_section J (e # es) acc =
     (case json_object_get_array J (snd e) of
        None \<Rightarrow> Ret (Inl PROCESS_IMAGE_OBJECT_EMPTY)
      | Some a \<Rightarrow>
          let param = array_list_get_idx J a RELATIVE_PROCESS_IMAGE_VARIABLE_BYTE_OFFSET_ARRAY_POSITION
          in if param = None then Ret (Inl OFFSET_POSITION_PARAMETER_NOT_FOUND)
             else if json_object_get_type J param \<noteq> json_type_string then Ret (Inl OFFSET_POSITION_PARAMETER_WRONG_TYPE)
             else obind (not_null (json_object_get_string J param)) (\<lambda>s.
               let (offset, err) = strtoumax32 s; (start_address, image_size, highest) = acc
               in if err then Ret (Inl GENERAL_EXCEPTION)
                  else scan_section J es
                    (if start_address > offset then offset else start_address,
                     if image_size < offset
                     then (offset, array_list_get_idx J a PROCESS_IMAGE_VARIABLE_BIT_LENGTH_ARRAY_POSITION)
                     else (image_size, highest))))"

definition UINT32_MAX :: u32 where "UINT32_MAX = 0xFFFFFFFF"

definition get_device_process_image_parameter ::
  "'j jsonc \<Rightarrow> 'j option \<Rightarrow> (parsing_error + u32 \<times> u32) outcome" where
  "get_device_process_image_parameter J image_object =
     (if json_object_get_type J image_object \<noteq> json_type_object then Ret (Inl PROCESS_IMAGE_WRONG_TYPE)
      else obind (entries_of J image_object) (\<lambda>es.
        obind (scan_section J es (UINT32_MAX, 0, None)) (\<lambda>r.
        case r of Inl e \<Rightarrow> Ret (Inl e)
          | Inr (start_address, image_size, highest) \<Rightarrow>
              if json_object_get_type J highest \<noteq> json_type_string then Ret (Inl OFFSET_POSITION_PARAMETER_WRONG_TYPE)
              else obind (not_null (json_object_get_string J highest)) (\<lambda>s.
                let (bit_size, err) = strtoumax32 s
                in if err then Ret (Inl GENERAL_EXCEPTION)
                   else Ret (Inr (start_address, image_size + bit_size div 8 - start_address))))))"

text \<open>A section that could not be parsed is logged, and taken as empty at offset 0.\<close>

definition section_area :: "parsing_error + u32 \<times> u32 \<Rightarrow> u32 \<times> u32" where
  "section_area r = (case r of Inl e \<Rightarrow> (0, 0) | Inr area \<Rightarrow> area)"

section \<open>Slaves\<close>

definition assertO :: "bool \<Rightarrow> unit outcome" where
  "assertO b = (if b then Ret () else Aborted)"

text \<open>The structures were allocated with \<^verbatim>\<open>calloc\<close>: coils and discrete inputs stay 0.\<close>

definition slave_configuration ::
  "TModbusDeviceConfiguration \<Rightarrow> u32 \<Rightarrow> u32 \<times> u32 \<Rightarrow> u32 \<times> u32 \<Rightarrow> TModbusSlaveConfiguration" where
  "slave_configuration dev device_offset inp out =
     \<lparr>slaveDeviceConfig = dev,
      tModbusDataConfig = \<lparr>u16DiscreteInputs = 0, u16Coils = 0,
        u16InputRegisters = ucast (snd out div 2), u16HoldingRegisters = ucast (snd inp div 2)\<rparr>,
      tProcessImageConfig = \<lparr>u32DiscreteInputsOffset = 0, u32DiscreteInputsLength = 0,
        u32CoilsInputOffset = 0, u32CoilsLength = 0,
        u32InputRegistersOffset = fst out + device_offset, u32InputRegistersLength = snd out,
        u32HoldingRegistersInputOffset = fst inp + device_offset, u32HoldingRegistersLength = snd inp\<rparr>\<rparr>"

definition parse_modbus_slave_device_process_image_config ::
  "'j jsonc \<Rightarrow> 'j option \<Rightarrow> TModbusDeviceConfiguration \<Rightarrow> (int + TModbusSlaveConfiguration) outcome" where
  "parse_modbus_slave_device_process_image_config J pi_device dev =
     (let device_offset = get_process_image_device_offset J pi_device
      in if device_offset < 0 then Ret (Inl device_offset)
         else case json_object_object_get_ex J pi_device ''inp'' of
             None \<Rightarrow> Ret (Inl (error_code INPUT_PARAMETER_SECTION_NOT_FOUND))
           | Some input_params \<Rightarrow>
               obind (get_device_process_image_parameter J input_params) (\<lambda>inp.
               obind (assertO (snd (section_area inp) mod 2 = 0)) (\<lambda>_.
               case json_object_object_get_ex J pi_device ''out'' of
                 None \<Rightarrow> Ret (Inl (error_code OUTPUT_PARAMETER_SECTION_NOT_FOUND))
               | Some output_params \<Rightarrow>
                   obind (get_device_process_image_parameter J output_params) (\<lambda>out.
                   obind (assertO (snd (section_area out) mod 2 = 0)) (\<lambda>_.
                   Ret (Inr (slave_configuration dev (word_of_int device_offset)
                               (section_area inp) (section_area out))))))))"

text \<open>
  The loop over the devices; new configurations are inserted at the head of the list. A device
  that cannot be parsed is logged and left out; a device without a product type ends the loop.
\<close>

primrec parse_slave_devices ::
  "'w env \<Rightarrow> 'j jsonc \<Rightarrow> 'j option list \<Rightarrow> TModbusSlaveConfiguration list
     \<Rightarrow> ('w, int \<times> TModbusSlaveConfiguration list) prog" where
  "parse_slave_devices E J [] head = ret (0, head)"
| "parse_slave_devices E J (pi_device # devices) head =
     (case get_device_product_type J pi_device of
        Inl e \<Rightarrow> ret (error_code e, head)
      | Inr t \<Rightarrow>
          bindM (liftO (not_null t)) (\<lambda>productType.
          if product_matches productType MODBUS_SLAVE_TCP_PI_PRODUCT_TYPE
             \<or> product_matches productType MODBUS_SLAVE_RTU_PI_PRODUCT_TYPE
          then bindM (ext (malloc_ok E)) (\<lambda>ok.
            if \<not> ok then parse_slave_devices E J devices head
            else bindM (liftO (parse_device_modbus_configuration J pi_device)) (\<lambda>r.
              case r of Inl e \<Rightarrow> parse_slave_devices E J devices head
                | Inr dev \<Rightarrow>
                    bindM (liftO (parse_modbus_slave_device_process_image_config J pi_device dev)) (\<lambda>r.
                    case r of Inl e \<Rightarrow> parse_slave_devices E J devices head
                      | Inr config \<Rightarrow> parse_slave_devices E J devices (config # head))))
          else parse_slave_devices E J devices head))"

definition array_devices :: "'j jsonc \<Rightarrow> 'j option list \<Rightarrow> 'j option list" where
  "array_devices J a = map (array_list_get_idx J a) [0..<array_list_length J a]"

definition parse_modbus_slaves_config_data ::
  "'w env \<Rightarrow> 'j jsonc \<Rightarrow> string \<Rightarrow> TModbusSlaveConfiguration list
     \<Rightarrow> ('w, int \<times> TModbusSlaveConfiguration list) prog" where
  "parse_modbus_slaves_config_data E J text head =
     (case get_json_devices_array J text of
        Inl e \<Rightarrow> ret (error_code e, head)
      | Inr a \<Rightarrow> parse_slave_devices E J (array_devices J a) head)"

section \<open>Properties\<close>

lemma same_name_eq: "same_name v p \<longleftrightarrow> v = p"
  by (auto simp: same_name_def memcmp_eq_def)

subsection \<open>Variables\<close>

text \<open>
  A section whose entries are arrays with name, byte offset and bit offset as texts, as the
  configuration tool writes them.
\<close>

definition is_variable :: "'j jsonc \<Rightarrow> 'j option \<Rightarrow> string \<times> u32 \<times> u32 \<Rightarrow> bool" where
  "is_variable J v x = (case x of (name, byte, b) \<Rightarrow> \<exists>a. json_object_get_array J v = Some a
     \<and> json_object_get_string J (array_list_get_idx J a VARIABLE_NAME_ARRAY_POSITION) = Some name
     \<and> json_object_get_string J (array_list_get_idx J a RELATIVE_PROCESS_IMAGE_VARIABLE_BYTE_OFFSET_ARRAY_POSITION)
         = Some (decimal (unat byte))
     \<and> json_object_get_string J (array_list_get_idx J a RELATIVE_PROCESS_IMAGE_VARIABLE_BIT_OFFSET_ARRAY_POSITION)
         = Some (decimal (unat b)))"

definition has_variables :: "'j jsonc \<Rightarrow> 'j option \<Rightarrow> (string \<times> u32 \<times> u32) list \<Rightarrow> bool" where
  "has_variables J in_out_section vars \<longleftrightarrow>
     (\<exists>es. json_object_get_object J in_out_section = Some es \<and> list_all2 (is_variable J) (map snd es) vars)"

lemma u32_text: "strtoumax32 (decimal (unat (v :: u32))) = (v, False)"
proof -
  have "unat v < 2 ^ 32" using unsigned_less [of v] by simp
  then show ?thesis by (simp add: strtoumax32_decimal UINTMAX_MAX_def)
qed

lemma search_variable_of:
  assumes "jsonc_laws J"
  shows "list_all2 (is_variable J) (map snd es) vars \<Longrightarrow>
    search_variable J (Some name) es offs =
      Ret (case map_of vars name of None \<Rightarrow> (GENERAL_EXCEPTION, offs) | Some place \<Rightarrow> (SUCCESS, place))"
proof (induction es arbitrary: vars)
  case (Cons e es)
  obtain n byte b vars' where vars: "vars = (n, byte, b) # vars'"
    using Cons.prems by (cases vars) auto
  have "json_object_is_type J v t \<ge> 0" for v t
    using assms by (simp add: jsonc_laws_def)
  then have type: "\<not> json_object_is_type J v t < 0" for v t
    by (simp add: not_less)
  show ?case
    using Cons by (auto simp: vars type is_variable_def not_null_def same_name_eq variable_offsets_def u32_text)
qed simp

lemma get_variable_relative_offsets_of:
  assumes "jsonc_laws J" "has_variables J in_out_section vars"
  shows "get_variable_relative_offsets J in_out_section (Some name) offs =
     Ret (case map_of vars name of None \<Rightarrow> (GENERAL_EXCEPTION, offs) | Some place \<Rightarrow> (SUCCESS, place))"
proof -
  from assms(2) obtain es where "json_object_get_object J in_out_section = Some es"
    "list_all2 (is_variable J) (map snd es) vars"
    by (auto simp: has_variables_def)
  then show ?thesis
    using search_variable_of [OF assms(1)] by (simp add: get_variable_relative_offsets_def entries_of_def)
qed

lemma get_variable_parameters_of:
  assumes "jsonc_laws J" "0 \<le> get_process_image_device_offset J pi_device"
    and "json_object_object_get_ex J pi_device ''inp'' = Some inp" "has_variables J inp ins"
    and "json_object_object_get_ex J pi_device ''out'' = Some out" "has_variables J out outs"
  shows "get_variable_parameters J pi_device (Some name) offs = Ret
    (case map_of (outs @ ins) name of
       None \<Rightarrow> (error_code GENERAL_EXCEPTION, offs)
     | Some (byte, b) \<Rightarrow> (0, byte + word_of_int (get_process_image_device_offset J pi_device), b))"
  using assms
  by (simp add: get_variable_parameters_def get_variable_relative_offsets_of map_add_def split: option.splits prod.splits)

text \<open>C30: The place of a variable is the device's offset plus the variable's own byte offset, and its
  bit offset; a name that both sections define is taken from the outputs, a name that neither
  defines is an error that leaves the out-parameters as they were.\<close>

theorem variable_place:
  assumes "jsonc_laws J" "0 \<le> get_process_image_device_offset J pi_device"
    and "json_object_object_get_ex J pi_device ''inp'' = Some inp" "has_variables J inp ins"
    and "json_object_object_get_ex J pi_device ''out'' = Some out" "has_variables J out outs"
  shows "get_variable_parameters J pi_device (Some name) offs = Ret
    (case map_of (outs @ ins) name of
       None \<Rightarrow> (error_code GENERAL_EXCEPTION, offs)
     | Some (byte, b) \<Rightarrow> (0, byte + word_of_int (get_process_image_device_offset J pi_device), b))"
  by (rule get_variable_parameters_of [OF assms])

subsection \<open>The area of a section\<close>

text \<open>A section whose entries are arrays with bit length and byte offset as texts.\<close>

definition is_placed :: "'j jsonc \<Rightarrow> 'j option \<Rightarrow> u32 \<times> u32 \<Rightarrow> bool" where
  "is_placed J v p \<longleftrightarrow> (\<exists>a. json_object_get_array J v = Some a
     \<and> array_list_get_idx J a RELATIVE_PROCESS_IMAGE_VARIABLE_BYTE_OFFSET_ARRAY_POSITION \<noteq> None
     \<and> json_object_get_type J (array_list_get_idx J a RELATIVE_PROCESS_IMAGE_VARIABLE_BYTE_OFFSET_ARRAY_POSITION)
         = json_type_string
     \<and> json_object_get_string J (array_list_get_idx J a RELATIVE_PROCESS_IMAGE_VARIABLE_BYTE_OFFSET_ARRAY_POSITION)
         = Some (decimal (unat (fst p)))
     \<and> json_object_get_type J (array_list_get_idx J a PROCESS_IMAGE_VARIABLE_BIT_LENGTH_ARRAY_POSITION) = json_type_string
     \<and> json_object_get_string J (array_list_get_idx J a PROCESS_IMAGE_VARIABLE_BIT_LENGTH_ARRAY_POSITION)
         = Some (decimal (unat (snd p))))"

definition has_places :: "'j jsonc \<Rightarrow> 'j option \<Rightarrow> (u32 \<times> u32) list \<Rightarrow> bool" where
  "has_places J image_object ps \<longleftrightarrow> json_object_get_type J image_object = json_type_object
     \<and> (\<exists>es. json_object_get_object J image_object = Some es \<and> list_all2 (is_placed J) (map snd es) ps)"

text \<open>The entry that the scan keeps is the bit length of a variable with the greatest offset.\<close>

definition bits_of :: "'j jsonc \<Rightarrow> 'j option \<Rightarrow> u32 \<Rightarrow> bool" where
  "bits_of J v b \<longleftrightarrow> json_object_get_type J v = json_type_string \<and> json_object_get_string J v = Some (decimal (unat b))"

lemma scan_section_of:
  "list_all2 (is_placed J) (map snd es) ps \<Longrightarrow>
   \<exists>hi'. scan_section J es (st, sz, hi) = Ret (Inr (fold min (map fst ps) st, fold max (map fst ps) sz, hi'))
     \<and> (fold max (map fst ps) sz = sz \<and> hi' = hi
        \<or> sz < fold max (map fst ps) sz \<and> (\<exists>b. (fold max (map fst ps) sz, b) \<in> set ps \<and> bits_of J hi' b))"
proof (induction es arbitrary: ps st sz hi)
  case (Cons e es)
  obtain p ps' where ps: "ps = p # ps'" and p: "is_placed J (snd e) p"
    and ps': "list_all2 (is_placed J) (map snd es) ps'"
    using Cons.prems by (cases ps) auto
  obtain a where a: "json_object_get_array J (snd e) = Some a"
    and bits: "bits_of J (array_list_get_idx J a PROCESS_IMAGE_VARIABLE_BIT_LENGTH_ARRAY_POSITION) (snd p)"
    using p by (auto simp: is_placed_def bits_of_def)
  have step: "scan_section J (e # es) (st, sz, hi) = scan_section J es
     (min (fst p) st, max (fst p) sz,
      if sz < fst p then array_list_get_idx J a PROCESS_IMAGE_VARIABLE_BIT_LENGTH_ARRAY_POSITION else hi)"
    using p a by (auto simp: is_placed_def not_null_def u32_text min_def max_def)
  have le: "max (fst p) sz \<le> fold max (map fst ps') (max (fst p) sz)"
  proof -
    have "max (fst p) sz \<le> Max (set (max (fst p) sz # map fst ps'))"
      by (rule Max_ge) simp_all
    then show ?thesis by (simp only: Max.set_eq_fold)
  qed
  obtain hi' where
    "scan_section J es (min (fst p) st, max (fst p) sz,
       if sz < fst p then array_list_get_idx J a PROCESS_IMAGE_VARIABLE_BIT_LENGTH_ARRAY_POSITION else hi)
     = Ret (Inr (fold min (map fst ps) st, fold max (map fst ps) sz, hi'))"
    and hi': "fold max (map fst ps) sz = max (fst p) sz
        \<and> hi' = (if sz < fst p then array_list_get_idx J a PROCESS_IMAGE_VARIABLE_BIT_LENGTH_ARRAY_POSITION else hi)
      \<or> max (fst p) sz < fold max (map fst ps) sz
        \<and> (\<exists>b. (fold max (map fst ps) sz, b) \<in> set ps' \<and> bits_of J hi' b)"
    using Cons.IH [OF ps'] unfolding ps by fastforce
  moreover have "fold max (map fst ps) sz = sz \<and> hi' = hi
     \<or> sz < fold max (map fst ps) sz \<and> (\<exists>b. (fold max (map fst ps) sz, b) \<in> set ps \<and> bits_of J hi' b)"
    using hi' bits le unfolding ps
    by (cases p; cases "sz < fst p") (auto simp: max_def split: if_splits)
  ultimately show ?case
    unfolding step by blast
qed simp

lemma section_area_cases:
  assumes "jsonc_laws J" "has_places J image_object ps"
  shows "if \<forall>p \<in> set ps. fst p = 0
    then get_device_process_image_parameter J image_object = Ret (Inl OFFSET_POSITION_PARAMETER_WRONG_TYPE)
    else \<exists>b. (Max (fst ` set ps), b) \<in> set ps
      \<and> get_device_process_image_parameter J image_object
          = Ret (Inr (Min (fst ` set ps), Max (fst ` set ps) + b div 8 - Min (fst ` set ps)))"
proof -
  obtain es where es: "json_object_get_type J image_object = json_type_object"
      "json_object_get_object J image_object = Some es" "list_all2 (is_placed J) (map snd es) ps"
    using assms(2) by (auto simp: has_places_def)
  define st where "st = fold min (map fst ps) UINT32_MAX"
  define sz where "sz = fold max (map fst ps) 0"
  obtain hi where scan: "scan_section J es (UINT32_MAX, 0, None) = Ret (Inr (st, sz, hi))"
    and hi: "sz = 0 \<and> hi = None \<or> 0 < sz \<and> (\<exists>b. (sz, b) \<in> set ps \<and> bits_of J hi b)"
    using scan_section_of [OF es(3), of UINT32_MAX 0 None] unfolding st_def sz_def by blast
  have sz: "sz = Max (insert 0 (fst ` set ps))"
    using Max.set_eq_fold [of 0 "map fst ps"] by (simp add: sz_def)
  have st: "st = Min (insert UINT32_MAX (fst ` set ps))"
    using Min.set_eq_fold [of UINT32_MAX "map fst ps"] by (simp add: st_def)
  show ?thesis
  proof (cases "\<forall>p \<in> set ps. fst p = 0")
    case True
    then have "sz = 0" by (auto simp: sz intro!: Max_eqI)
    then have "hi = None" using hi by simp
    then show ?thesis
      using True assms(1) es scan
      by (simp add: get_device_process_image_parameter_def entries_of_def jsonc_laws_def)
  next
    case False
    then have ne: "fst ` set ps \<noteq> {}" by auto
    have sz': "sz = Max (fst ` set ps)"
      unfolding sz Max_insert [OF finite_imageI [OF finite_set] ne] by (simp add: max_absorb2)
    have "v \<le> UINT32_MAX" for v :: u32
  proof -
      have "unat v < 2 ^ 32" using unsigned_less [of v] by simp
      then show ?thesis by (simp add: UINT32_MAX_def word_le_nat_alt)
    qed
    then have st': "st = Min (fst ` set ps)"
      unfolding st Min_insert [OF finite_imageI [OF finite_set] ne] by (simp add: min_absorb2)
    obtain p where p: "p \<in> set ps" "fst p \<noteq> 0" using False by blast
    have "fst p \<le> sz"
      unfolding sz' using p(1) by simp
    then have "0 < sz"
      using p(2) by (simp add: word_gt_0) (use word_le_0_iff in blast)
    then obtain b where b: "(sz, b) \<in> set ps" "bits_of J hi b"
      using hi by auto
    then have "get_device_process_image_parameter J image_object = Ret (Inr (st, sz + b div 8 - st))"
      using es scan by (simp add: get_device_process_image_parameter_def entries_of_def bits_of_def not_null_def u32_text)
    then show ?thesis
      using False b(1) by (auto simp: sz' st')
  qed
qed

text \<open>C31: The area of a section begins at the smallest byte offset of its variables and ends with the
  last whole byte of one that has the greatest; a section whose variables all lie at offset 0 is
  rejected as malformed.\<close>

theorem section_area_of:
  assumes "jsonc_laws J" "has_places J image_object ps"
  shows "if \<forall>p \<in> set ps. fst p = 0
    then get_device_process_image_parameter J image_object = Ret (Inl OFFSET_POSITION_PARAMETER_WRONG_TYPE)
    else \<exists>b. (Max (fst ` set ps), b) \<in> set ps
      \<and> get_device_process_image_parameter J image_object
          = Ret (Inr (Min (fst ` set ps), Max (fst ` set ps) + b div 8 - Min (fst ` set ps)))"
  by (rule section_area_cases [OF assms])

subsection \<open>A demonstration device\<close>

definition variable :: "string \<Rightarrow> nat \<Rightarrow> nat \<Rightarrow> nat \<Rightarrow> string \<times> json option" where
  "variable name bits byte b = (name, Some (JArray (map (\<lambda>s. Some (JString s))
     [name, ''0'', decimal bits, decimal byte, ''1'', ''0000'', '''', decimal b])))"

definition demo_slave_device :: "json option" where
  "demo_slave_device = Some (JObject
     [(''productType'', Some (JString ''24578'')), (''mem'', demo_rtu_parameters), (''offset'', Some (JInt 11)),
      (''inp'', Some (JObject [variable ''In_1'' 16 0 0, variable ''In_2'' 16 2 0])),
      (''out'', Some (JObject [variable ''Out_1'' 16 4 0, variable ''Out_2'' 16 6 0, variable ''Flag'' 1 4 3]))])"

lemmas array_positions = VARIABLE_NAME_ARRAY_POSITION_def MODBUS_SLAVE_PARAMETER_ARRAY_POSITION_def
  PROCESS_IMAGE_VARIABLE_BIT_LENGTH_ARRAY_POSITION_def
  RELATIVE_PROCESS_IMAGE_VARIABLE_BYTE_OFFSET_ARRAY_POSITION_def
  RELATIVE_PROCESS_IMAGE_VARIABLE_BIT_OFFSET_ARRAY_POSITION_def

lemma doc_variables:
  "byte < 2 ^ 32 \<Longrightarrow> b < 2 ^ 32 \<Longrightarrow>
     is_variable (doc_jsonc doc) (snd (variable name bits byte b)) (name, word_of_nat byte, word_of_nat b)"
  "bits < 2 ^ 32 \<Longrightarrow> byte < 2 ^ 32 \<Longrightarrow>
     is_placed (doc_jsonc doc) (snd (variable name bits byte b)) (word_of_nat byte, word_of_nat bits)"
  by (simp_all add: is_variable_def is_placed_def variable_def array_positions unat_of_nat)

lemma demo_sections:
  "json_object_object_get_ex (doc_jsonc doc) demo_slave_device ''inp''
     = Some (Some (JObject [variable ''In_1'' 16 0 0, variable ''In_2'' 16 2 0]))"
  "json_object_object_get_ex (doc_jsonc doc) demo_slave_device ''out''
     = Some (Some (JObject [variable ''Out_1'' 16 4 0, variable ''Out_2'' 16 6 0, variable ''Flag'' 1 4 3]))"
  "get_process_image_device_offset (doc_jsonc doc) demo_slave_device = 11"
  by (simp_all add: demo_slave_device_def get_process_image_device_offset_def)

lemma demo_variables:
  "has_variables (doc_jsonc doc) (Some (JObject [variable ''In_1'' 16 0 0, variable ''In_2'' 16 2 0]))
     [(''In_1'', 0, 0), (''In_2'', 2, 0)]"
  "has_variables (doc_jsonc doc)
     (Some (JObject [variable ''Out_1'' 16 4 0, variable ''Out_2'' 16 6 0, variable ''Flag'' 1 4 3]))
     [(''Out_1'', 4, 0), (''Out_2'', 6, 0), (''Flag'', 4, 3)]"
  using doc_variables(1) [of 0 0] doc_variables(1) [of 2 0] doc_variables(1) [of 4 0] doc_variables(1) [of 6 0]
    doc_variables(1) [of 4 3]
  by (simp_all add: has_variables_def)

lemma demo_places:
  "has_places (doc_jsonc doc) (Some (JObject [variable ''In_1'' 16 0 0, variable ''In_2'' 16 2 0])) [(0, 16), (2, 16)]"
  "has_places (doc_jsonc doc)
     (Some (JObject [variable ''Out_1'' 16 4 0, variable ''Out_2'' 16 6 0, variable ''Flag'' 1 4 3]))
     [(4, 16), (6, 16), (4, 1)]"
  using doc_variables(2) [of 16 0] doc_variables(2) [of 16 2] doc_variables(2) [of 16 4] doc_variables(2) [of 16 6]
    doc_variables(2) [of 1 4]
  by (simp_all add: has_places_def)

theorem variable_place_witness:
  "get_variable_parameters (doc_jsonc (JObject [])) demo_slave_device (Some ''Flag'') (0, 0) = Ret (0, 15, 3)"
  using variable_place [OF doc_jsonc_laws _ demo_sections(1) demo_variables(1) demo_sections(2) demo_variables(2),
      where name = "''Flag''" and offs = "(0, 0)"]
  by (simp add: demo_sections)

theorem section_area_of_witness:
  "get_device_process_image_parameter (doc_jsonc (JObject []))
     (Some (JObject [variable ''Out_1'' 16 4 0, variable ''Out_2'' 16 6 0, variable ''Flag'' 1 4 3])) = Ret (Inr (4, 4))"
  using section_area_of [OF doc_jsonc_laws demo_places(2)]
  by (auto simp: max_def min_def)

subsection \<open>The list of slaves\<close>

text \<open>The configuration of one device, if it is a slave that the parser accepts.\<close>

definition slave_of :: "'j jsonc \<Rightarrow> 'j option \<Rightarrow> TModbusSlaveConfiguration option outcome" where
  "slave_of J pi_device = (case get_device_product_type J pi_device of
       Inr (Some productType) \<Rightarrow>
         if product_matches productType MODBUS_SLAVE_TCP_PI_PRODUCT_TYPE
            \<or> product_matches productType MODBUS_SLAVE_RTU_PI_PRODUCT_TYPE
         then obind (parse_device_modbus_configuration J pi_device) (\<lambda>r. case r of Inl _ \<Rightarrow> Ret None
           | Inr dev \<Rightarrow> obind (parse_modbus_slave_device_process_image_config J pi_device dev) (\<lambda>r.
               Ret (case r of Inl _ \<Rightarrow> None | Inr config \<Rightarrow> Some config)))
         else Ret None
     | _ \<Rightarrow> Fault)"

definition memory_available :: "'w env \<Rightarrow> bool" where
  "memory_available E \<longleftrightarrow> (\<forall>w. fst (malloc_ok E w))"

lemma malloc_ok_available: "memory_available E \<Longrightarrow> malloc_ok E w = (b, w') \<Longrightarrow> b"
  by (metis memory_available_def fst_conv)

lemma parse_slave_devices_step:
  assumes "memory_available E" "slave_of J d = Ret r"
  shows "\<exists>w'. parse_slave_devices E J (d # devices) head w
    = parse_slave_devices E J devices (case r of None \<Rightarrow> head | Some c \<Rightarrow> c # head) w'"
proof -
  obtain w' where m: "malloc_ok E w = (True, w')"
    using assms(1) by (metis memory_available_def prod.collapse)
  obtain p where p: "get_device_product_type J d = Inr (Some p)"
    using assms(2) by (auto simp: slave_of_def split: sum.splits option.splits)
  show ?thesis
  proof (cases "product_matches p MODBUS_SLAVE_TCP_PI_PRODUCT_TYPE \<or> product_matches p MODBUS_SLAVE_RTU_PI_PRODUCT_TYPE")
    case True
    then obtain x where x: "parse_device_modbus_configuration J d = Ret x"
      and r: "(case x of Inl _ \<Rightarrow> Ret None
        | Inr dev \<Rightarrow> obind (parse_modbus_slave_device_process_image_config J d dev) (\<lambda>r.
            Ret (case r of Inl _ \<Rightarrow> None | Inr config \<Rightarrow> Some config))) = Ret r"
      using assms(2) p by (auto simp: slave_of_def obind_Ret_iff)
    have "parse_slave_devices E J (d # devices) head w
      = parse_slave_devices E J devices (case r of None \<Rightarrow> head | Some c \<Rightarrow> c # head) w'"
    proof (cases x)
      case Inl
      then show ?thesis using True r by (auto simp: p x m run_simps not_null_def)
    next
      case (Inr dev)
      then obtain y where "parse_modbus_slave_device_process_image_config J d dev = Ret y"
        "r = (case y of Inl _ \<Rightarrow> None | Inr config \<Rightarrow> Some config)"
        using r by (auto simp: obind_Ret_iff)
      then show ?thesis using True Inr by (cases y) (auto simp: p x m run_simps not_null_def)
    qed
    then show ?thesis by blast
  next
    case False
    then have "r = None"
      using assms(2) p by (simp add: slave_of_def)
    then have "parse_slave_devices E J (d # devices) head w
      = parse_slave_devices E J devices (case r of None \<Rightarrow> head | Some c \<Rightarrow> c # head) w"
      using False by (simp add: p run_simps not_null_def)
    then show ?thesis by blast
  qed
qed

lemma parse_slave_devices_of:
  assumes "memory_available E"
  shows "list_all2 (\<lambda>d r. slave_of J d = Ret r) devices rs \<Longrightarrow>
    \<exists>w'. parse_slave_devices E J devices head w = (Ret (0, rev (List.map_filter id rs) @ head), w')"
proof (induction devices arbitrary: rs head w)
  case (Cons d devices)
  obtain r rs' where rs: "rs = r # rs'" "slave_of J d = Ret r"
    and all: "list_all2 (\<lambda>d r. slave_of J d = Ret r) devices rs'"
    using Cons.prems by (cases rs) auto
  obtain w' where "parse_slave_devices E J (d # devices) head w
      = parse_slave_devices E J devices (case r of None \<Rightarrow> head | Some c \<Rightarrow> c # head) w'"
    using parse_slave_devices_step [OF assms rs(2)] by blast
  then show ?case
    using Cons.IH [OF all, of "case r of None \<Rightarrow> head | Some c \<Rightarrow> c # head" w']
    by (auto simp: rs(1) map_filter_simps split: option.splits)
qed (simp add: run_simps map_filter_simps)

text \<open>C16: As long as memory is available, the list of slaves holds exactly the configurations of the
  devices that are slaves and can be parsed, the last device first; the other devices are left out.\<close>

theorem slaves_parsed:
  assumes "memory_available E" "get_json_devices_array J text = Inr a"
    and "list_all2 (\<lambda>d r. slave_of J d = Ret r) (array_devices J a) rs"
  shows "\<exists>w'. parse_modbus_slaves_config_data E J text head w = (Ret (0, rev (List.map_filter id rs) @ head), w')"
  using parse_slave_devices_of [OF assms(1,3)] assms(2)
  by (simp add: parse_modbus_slaves_config_data_def)

text \<open>A document with a slave, and a device that the parser does not know.\<close>

definition demo_document :: json where
  "demo_document = JObject [(''Devices'', Some (JArray
     [demo_slave_device, Some (JObject [(''productType'', Some (JString ''95''))])]))]"

lemma demo_slave_image:
  "parse_modbus_slave_device_process_image_config (doc_jsonc doc) demo_slave_device dev
     = Ret (Inr (slave_configuration dev 11 (0, 4) (4, 4)))"
proof -
  have area: "get_device_process_image_parameter (doc_jsonc doc)
        (Some (JObject [variable ''In_1'' 16 0 0, variable ''In_2'' 16 2 0])) = Ret (Inr (0, 4))"
    "get_device_process_image_parameter (doc_jsonc doc)
        (Some (JObject [variable ''Out_1'' 16 4 0, variable ''Out_2'' 16 6 0, variable ''Flag'' 1 4 3])) = Ret (Inr (4, 4))"
    using section_area_cases [OF doc_jsonc_laws demo_places(1)] section_area_cases [OF doc_jsonc_laws demo_places(2)]
    by (auto simp: max_def min_def)
  show ?thesis
    by (simp add: parse_modbus_slave_device_process_image_config_def demo_sections area section_area_def assertO_def
        del: One_nat_def)
qed

lemma demo_slave_of:
  "slave_of (doc_jsonc doc) demo_slave_device = Ret (Some
     \<lparr>slaveDeviceConfig = device_configuration eProtRTU (tRtuConfig \<lparr>i32uBaud = 19200, cParity = CHR ''E'',
        i8uDatabits = 8, i8uStopbits = 1, u8DeviceModbusAddress = 17, sz8DeviceFilePath = ''/dev/ttyRS485''\<rparr>),
      tModbusDataConfig = \<lparr>u16DiscreteInputs = 0, u16Coils = 0, u16InputRegisters = 2, u16HoldingRegisters = 2\<rparr>,
      tProcessImageConfig = \<lparr>u32DiscreteInputsOffset = 0, u32DiscreteInputsLength = 0, u32CoilsInputOffset = 0,
        u32CoilsLength = 0, u32InputRegistersOffset = 15, u32InputRegistersLength = 4,
        u32HoldingRegistersInputOffset = 11, u32HoldingRegistersLength = 4\<rparr>\<rparr>)"
proof -
  let ?J = "doc_jsonc doc"
  have rtu: "rtu_configuration ?J demo_rtu_parameters ''24578'' = Inr \<lparr>i32uBaud = 19200, cParity = CHR ''E'',
      i8uDatabits = 8, i8uStopbits = 1, u8DeviceModbusAddress = 17, sz8DeviceFilePath = ''/dev/ttyRS485''\<rparr>"
    by (simp add: rtu_configuration_def demo_rtu_parameter get_device_number_decimal PATH_MAX_def UINTMAX_MAX_def
        parse_parity_def product_matches_def memcmp_eq_def product_types MODBUS_RTU_MIN_DATABITS_def
        MODBUS_RTU_MAX_DATABITS_def MODBUS_RTU_MIN_STOPBITS_def MODBUS_RTU_MAX_STOPBITS_def)
  have dev: "parse_device_modbus_configuration ?J demo_slave_device = Ret (Inr (device_configuration eProtRTU
      (tRtuConfig \<lparr>i32uBaud = 19200, cParity = CHR ''E'', i8uDatabits = 8, i8uStopbits = 1,
        u8DeviceModbusAddress = 17, sz8DeviceFilePath = ''/dev/ttyRS485''\<rparr>)))"
    by (simp add: parse_device_modbus_configuration_def demo_slave_device_def not_null_def product_matches_def
        memcmp_eq_def product_types rtu)
  have "get_device_product_type ?J demo_slave_device = Inr (Some ''24578'')"
    by (simp add: get_device_product_type_def demo_slave_device_def)
  moreover have "product_matches ''24578'' MODBUS_SLAVE_RTU_PI_PRODUCT_TYPE"
    by (simp add: product_matches_def memcmp_eq_def product_types)
  ultimately show ?thesis
    by (simp add: slave_of_def dev demo_slave_image slave_configuration_def)
qed

definition rich_env :: "'a plant_scheme env" where
  "rich_env = plant_extended_env\<lparr>malloc_ok := (\<lambda>w. (True, w))\<rparr>"

lemma demo_slave_list:
  assumes "slave_of (doc_jsonc demo_document) demo_slave_device = Ret (Some c)"
  shows "\<exists>a. get_json_devices_array (doc_jsonc demo_document) chars = Inr a
     \<and> list_all2 (\<lambda>d r. slave_of (doc_jsonc demo_document) d = Ret r) (array_devices (doc_jsonc demo_document) a) [Some c, None]"
proof -
  let ?J = "doc_jsonc demo_document"
  let ?a = "[demo_slave_device, Some (JObject [(''productType'', Some (JString ''95''))])]"
  have "slave_of ?J (Some (JObject [(''productType'', Some (JString ''95''))])) = Ret None"
    by (simp add: slave_of_def get_device_product_type_def product_matches_def memcmp_eq_def product_types)
  moreover have "array_devices ?J ?a = ?a"
    by (simp add: array_devices_def upt_rec)
  moreover have "get_json_devices_array ?J chars = Inr ?a"
    by (simp add: get_json_devices_array_def demo_document_def)
  ultimately show ?thesis
    using assms by simp
qed

lemma rich_memory: "memory_available rich_env"
  by (simp add: memory_available_def rich_env_def)

lemma demo_parse_slaves:
  assumes "slave_of (doc_jsonc demo_document) demo_slave_device = Ret (Some c)"
  shows "\<exists>w'. parse_modbus_slaves_config_data rich_env (doc_jsonc demo_document) chars [] w = (Ret (0, [c]), w')"
  using demo_slave_list [OF assms, of chars] parse_slave_devices_of [OF rich_memory]
  by (fastforce simp: parse_modbus_slaves_config_data_def map_filter_simps)

theorem slaves_parsed_witness:
  "\<exists>c w'. parse_modbus_slaves_config_data rich_env (doc_jsonc demo_document) [] [] plant0 = (Ret (0, [c]), w')
     \<and> u16HoldingRegisters (tModbusDataConfig c) = 2
     \<and> u32HoldingRegistersInputOffset (tProcessImageConfig c) = 11"
proof -
  obtain c where c: "slave_of (doc_jsonc demo_document) demo_slave_device = Ret (Some c)"
      "u16HoldingRegisters (tModbusDataConfig c) = 2" "u32HoldingRegistersInputOffset (tProcessImageConfig c) = 11"
    by (simp add: demo_slave_of)
  obtain a where "get_json_devices_array (doc_jsonc demo_document) [] = Inr a"
      "list_all2 (\<lambda>d r. slave_of (doc_jsonc demo_document) d = Ret r) (array_devices (doc_jsonc demo_document) a) [Some c, None]"
    using demo_slave_list [OF c(1)] by blast
  from slaves_parsed [OF rich_memory this, of "[]" plant0] c(2,3) show ?thesis
    by (auto simp: map_filter_simps)
qed

end
