(* ===== verification/Parser_Actions.thy ===== *)
theory Parser_Actions
  imports Parser_Image
begin

text \<open>
  The part of \<^verbatim>\<open>src/src/piConfigParser/piConfigParser.c\<close> that reads the actions of a master and
  the configuration of the masters.
\<close>

section \<open>Keys\<close>

definition MODBUS_MASTER_ACTION_ID_KEY :: string where "MODBUS_MASTER_ACTION_ID_KEY = ''ActionId''"
definition MODBUS_MASTER_SLAVE_ADDRESS_KEY :: string where "MODBUS_MASTER_SLAVE_ADDRESS_KEY = ''SlaveAddress''"
definition MODBUS_MASTER_FUNCTON_CODE_KEY :: string where "MODBUS_MASTER_FUNCTON_CODE_KEY = ''FunctionCode''"
definition MODBUS_MASTER_REGISTER_ADDRESS_KEY :: string where "MODBUS_MASTER_REGISTER_ADDRESS_KEY = ''RegisterAddress''"
definition MODBUS_MASTER_QUANTITY_OF_REGISTERS_KEY :: string where
  "MODBUS_MASTER_QUANTITY_OF_REGISTERS_KEY = ''QuantityOfRegisters''"
definition MODBUS_MASTER_ACTION_INTERVAL_KEY :: string where "MODBUS_MASTER_ACTION_INTERVAL_KEY = ''ActionInterval''"
definition MODBUS_MASTER_PROCESS_IMAGE_VARIABLE_NAME_KEY :: string where
  "MODBUS_MASTER_PROCESS_IMAGE_VARIABLE_NAME_KEY = ''DeviceValue''"
definition MODBUS_MASTER_ACTION_STATUS_BYTE :: string where "MODBUS_MASTER_ACTION_STATUS_BYTE = ''ModbusActionStatus''"
definition MODBUS_MASTER_ACTION_STATUS_RESET :: string where "MODBUS_MASTER_ACTION_STATUS_RESET = ''ActionStatusReset''"
definition MODBUS_MASTER_MASTER_STATUS_BYTE :: string where "MODBUS_MASTER_MASTER_STATUS_BYTE = ''ModbusMasterStatus''"
definition MODBUS_MASTER_MASTER_STATUS_RESET_BYTE :: string where
  "MODBUS_MASTER_MASTER_STATUS_RESET_BYTE = ''MasterStatusReset''"

lemmas action_keys = MODBUS_MASTER_ACTION_ID_KEY_def MODBUS_MASTER_SLAVE_ADDRESS_KEY_def
  MODBUS_MASTER_FUNCTON_CODE_KEY_def MODBUS_MASTER_REGISTER_ADDRESS_KEY_def
  MODBUS_MASTER_QUANTITY_OF_REGISTERS_KEY_def MODBUS_MASTER_ACTION_INTERVAL_KEY_def
  MODBUS_MASTER_PROCESS_IMAGE_VARIABLE_NAME_KEY_def MODBUS_MASTER_ACTION_STATUS_BYTE_def
  MODBUS_MASTER_ACTION_STATUS_RESET_def

text \<open>The comparison \<^verbatim>\<open>memcmp(KEY, name, strlen(KEY)) == 0\<close>.\<close>

definition starts_with :: "string \<Rightarrow> string \<Rightarrow> bool" where
  "starts_with key name = memcmp_eq key name (length key)"

section \<open>The parameters of one action\<close>

text \<open>
  The first entry whose name starts with the prefix and the identifier. Allocating the sought
  name may fail.
\<close>

primrec search_parameter :: "'j jsonc \<Rightarrow> string \<Rightarrow> (string \<times> 'j option) list \<Rightarrow> string option" where
  "search_parameter J name [] = None"
| "search_parameter J name (e # es) =
     (if starts_with name (fst e) then
        (if json_object_is_type J (snd e) json_type_string < 0 then None else json_object_get_string J (snd e))
      else search_parameter J name es)"

definition get_modbus_action_matching_name_string_value ::
  "'w env \<Rightarrow> 'j jsonc \<Rightarrow> 'j option \<Rightarrow> string \<Rightarrow> string option \<Rightarrow> ('w, string option) prog" where
  "get_modbus_action_matching_name_string_value E J actions prefix ident =
     (case ident of None \<Rightarrow> ret None
      | Some i \<Rightarrow>
          bindM (ext (malloc_ok E)) (\<lambda>ok.
          if \<not> ok then ret None
          else bindM (liftO (entries_of J actions)) (\<lambda>es. ret (search_parameter J (prefix @ i) es))))"

text \<open>
  The loop body for one action ends in three ways: it goes on with a value, it drops the action
  (\<^verbatim>\<open>continue\<close>), or it leaves the function with an error.
\<close>

datatype 'a attempt = Done 'a | Skip | Stop parsing_error

definition bindA :: "('w, 'a attempt) prog \<Rightarrow> ('a \<Rightarrow> ('w, 'b attempt) prog) \<Rightarrow> ('w, 'b attempt) prog" where
  "bindA m f = bindM m (\<lambda>r. case r of Done x \<Rightarrow> f x | Skip \<Rightarrow> ret Skip | Stop e \<Rightarrow> ret (Stop e))"

definition action_string ::
  "'w env \<Rightarrow> 'j jsonc \<Rightarrow> 'j option \<Rightarrow> string option \<Rightarrow> string \<Rightarrow> ('w, string attempt) prog" where
  "action_string E J actions ident key =
     bindM (get_modbus_action_matching_name_string_value E J actions key ident) (\<lambda>val_str_buffer.
     ret (case val_str_buffer of None \<Rightarrow> Skip | Some s \<Rightarrow> Done s))"

definition action_number ::
  "'w env \<Rightarrow> 'j jsonc \<Rightarrow> 'j option \<Rightarrow> string option \<Rightarrow> string \<Rightarrow> parsing_error \<Rightarrow> ('w, u32 attempt) prog" where
  "action_number E J actions ident key wrong =
     bindA (action_string E J actions ident key) (\<lambda>s.
     ret (let (v, err) = strtoul32 J s in if err then Stop wrong else Done v))"

text \<open>The place of the variable with the name that the parameter \<open>key\<close> has; \<open>offs\<close> is stale on failure.\<close>

definition action_variable ::
  "'w env \<Rightarrow> 'j jsonc \<Rightarrow> 'j option \<Rightarrow> 'j option \<Rightarrow> string option \<Rightarrow> string \<Rightarrow> u32 \<times> u32
     \<Rightarrow> ('w, (u32 \<times> u32) attempt) prog" where
  "action_variable E J pi_device actions ident key offs =
     bindA (action_string E J actions ident key) (\<lambda>s.
     bindM (liftO (get_variable_parameters J pi_device (Some s) offs)) (\<lambda>(success, offs').
     ret (if success \<noteq> 0 then Skip else Done offs')))"

text \<open>Coil functions start at a bit below 8.\<close>

definition bit_functions :: "EModbusFunction list" where
  "bit_functions = [eREAD_COILS, eREAD_DISCRETE_INPUTS, eWRITE_SINGLE_COIL, eWRITE_MULTIPLE_COILS]"

definition process_data_place :: "EModbusFunction \<Rightarrow> u32 \<times> u32 \<Rightarrow> u32 \<times> u8" where
  "process_data_place f place =
     (let start_bit = ucast (snd place) :: u8
      in if f \<in> set bit_functions then (fst place + ucast (start_bit div 8), start_bit mod 8)
         else (fst place, start_bit))"

text \<open>The status byte and the bit that requests its reset are cleared in the image.\<close>

definition clear_action_status :: "'w env \<Rightarrow> u32 \<Rightarrow> u32 \<Rightarrow> u8 \<Rightarrow> ('w, unit) prog" where
  "clear_action_status E status_byte reset_byte reset_bit =
     seqM (ext (piControlSetBitValue E \<lparr>i16uAddress = ucast reset_byte, i8uBit = reset_bit, i8uValue = 0\<rparr>))
     (seqM (ext (piControlWrite E status_byte 1 [0])) (ret ()))"

text \<open>
  The second half of the loop body: the places of the action's data, of its status byte and of the bit
  that resets it. They are filled into the structure, whose memory comes zeroed from \<^verbatim>\<open>calloc\<close>.
\<close>

definition parse_action_places ::
  "'w env \<Rightarrow> 'j jsonc \<Rightarrow> 'j option \<Rightarrow> 'j option \<Rightarrow> string option \<Rightarrow> TModbusAction
     \<Rightarrow> ('w, TModbusAction attempt) prog" where
  "parse_action_places E J pi_device actions ident nextAction =
     bindA (action_variable E J pi_device actions ident MODBUS_MASTER_PROCESS_IMAGE_VARIABLE_NAME_KEY (0, 0)) (\<lambda>data.
     bindA (action_variable E J pi_device actions ident MODBUS_MASTER_ACTION_STATUS_BYTE data) (\<lambda>status.
     bindA (action_variable E J pi_device actions ident MODBUS_MASTER_ACTION_STATUS_RESET status) (\<lambda>reset.
     seqM (clear_action_status E (fst status) (fst reset) (ucast (snd reset)))
     (ret (Done (nextAction
       \<lparr>i32uStartByteProcessData := fst (process_data_place (eFunctionCode nextAction) data),
        i8uStartBitProcessData := snd (process_data_place (eFunctionCode nextAction) data),
        i32uStatusByteProcessImageOffset := fst status,
        i32uResetStatusProcessImageByteOffset := fst reset,
        i8uResetStatusProcessImageBitOffset := ucast (snd reset)\<rparr>))))))"

definition INT32_MAX :: u32 where "INT32_MAX = 0x7FFFFFFF"

definition parse_action ::
  "'w env \<Rightarrow> 'j jsonc \<Rightarrow> 'j option \<Rightarrow> 'j option \<Rightarrow> string option \<Rightarrow> ('w, TModbusAction attempt) prog" where
  "parse_action E J pi_device actions ident =
     bindA (action_number E J actions ident MODBUS_MASTER_ACTION_ID_KEY ACTION_ID_WRONG_FORMAT) (\<lambda>actionID.
     seqM (assertM (0 < actionID \<and> actionID < INT32_MAX))
     (bindA (action_number E J actions ident MODBUS_MASTER_SLAVE_ADDRESS_KEY ACTION_ADDRESS_WRONG_FORMAT) (\<lambda>slave_address.
     bindA (action_number E J actions ident MODBUS_MASTER_FUNCTON_CODE_KEY ACTION_FUNCTION_CODE_WRONG_FORMAT) (\<lambda>code.
     seqM (assertM (function_code eREAD_COILS \<le> code \<and> code < function_code eWRITE_AND_READ_REGISTERS))
     (bindA (action_number E J actions ident MODBUS_MASTER_REGISTER_ADDRESS_KEY ACTION_REGISTER_ADDRESS_WRONG_FORMAT)
       (\<lambda>register_address.
     seqM (assertM (0 < register_address \<and> register_address < 0x10000))
     (bindA (action_number E J actions ident MODBUS_MASTER_QUANTITY_OF_REGISTERS_KEY ACTION_REGISTER_QUANTITY_WRONG_FORMAT)
       (\<lambda>quantity.
     seqM (assertM (0 < quantity \<and> quantity \<le> word_of_nat MAX_REGISTER_SIZE_PER_ACTION))
     (bindA (action_number E J actions ident MODBUS_MASTER_ACTION_INTERVAL_KEY ACTION_INTERVALL_WRONG_FORMAT) (\<lambda>interval.
     seqM (assertM (0 < interval \<and> interval \<le> 1000 * 60 * 30))
     (parse_action_places E J pi_device actions ident
       \<lparr>i16uActionID = ucast actionID, i8uSlaveAddress = ucast slave_address,
        eFunctionCode = EModbusFunction_of code, i32uStartRegister = register_address,
        i16uRegisterCount = ucast quantity, i32uInterval_us = interval * 1000,
        i32uStartByteProcessData = 0, i8uStartBitProcessData = 0, i32uStatusByteProcessImageOffset = 0,
        i32uResetStatusProcessImageByteOffset = 0, i8uResetStatusProcessImageBitOffset = 0\<rparr>)))))))))))"

section \<open>The actions of a master\<close>

text \<open>
  The identifier of the current action, copied to fresh memory without a check of the allocation;
  the old one stays where the name has none.
\<close>

definition next_identifier :: "'w env \<Rightarrow> string \<Rightarrow> string option \<Rightarrow> ('w, string option) prog" where
  "next_identifier E name old =
     (case match_identifier name of None \<Rightarrow> ret old
      | Some i \<Rightarrow> bindM (ext (malloc_ok E)) (\<lambda>ok. if ok then ret (Some i) else faultM))"

text \<open>
  The loop over the entries, with the identifier left by the previous iterations, the list and the
  number of its actions. The function returns the number of actions, or an error code.
\<close>

primrec parse_action_entries ::
  "'w env \<Rightarrow> 'j jsonc \<Rightarrow> 'j option \<Rightarrow> 'j option \<Rightarrow> (string \<times> 'j option) list \<Rightarrow> string option
     \<Rightarrow> int \<Rightarrow> TModbusAction list \<Rightarrow> ('w, int \<times> TModbusAction list) prog" where
  "parse_action_entries E J pi_device actions [] ident action_count head = ret (action_count, head)"
| "parse_action_entries E J pi_device actions (e # es) ident action_count head =
     (if starts_with MODBUS_MASTER_ACTION_ID_KEY (fst e) then
        bindM (next_identifier E (fst e) ident) (\<lambda>ident'.
        bindM (ext (malloc_ok E)) (\<lambda>ok.
        if \<not> ok then ret (error_code GENERAL_EXCEPTION, head)
        else bindM (parse_action E J pi_device actions ident') (\<lambda>r.
          case r of
            Stop err \<Rightarrow> ret (error_code err, head)
          | Skip \<Rightarrow> parse_action_entries E J pi_device actions es ident' action_count head
          | Done act \<Rightarrow> parse_action_entries E J pi_device actions es None (action_count + 1) (act # head))))
      else parse_action_entries E J pi_device actions es ident action_count head)"

definition parse_modbus_master_action_list ::
  "'w env \<Rightarrow> 'j jsonc \<Rightarrow> 'j option \<Rightarrow> ('w, int \<times> TModbusAction list) prog" where
  "parse_modbus_master_action_list E J pi_device =
     seqM (assertM (pi_device \<noteq> None))
     (case json_object_object_get_ex J pi_device ''extend'' of
        None \<Rightarrow> ret (error_code EXTEND_SECTION_NOT_FOUND, [])
      | Some config_extend \<Rightarrow>
          (case json_object_object_get_ex J config_extend ''data'' of
             None \<Rightarrow> ret (error_code ACTION_DATA_SECTION_NOT_FOUND, [])
           | Some actions \<Rightarrow>
               bindM (liftO (entries_of J actions)) (\<lambda>es.
               parse_action_entries E J pi_device actions es None 0 [])))"

section \<open>Masters\<close>

text \<open>
  The offsets of the status byte of the master and of its reset byte; both out-parameters are
  shared by all entries.
\<close>

primrec parse_master_status ::
  "'j jsonc \<Rightarrow> 'j option \<Rightarrow> (string \<times> 'j option) list \<Rightarrow> u32 \<times> u32 \<Rightarrow> TModbusDeviceConfiguration
     \<Rightarrow> TModbusDeviceConfiguration outcome" where
  "parse_master_status J pi_device [] offs dev = Ret dev"
| "parse_master_status J pi_device (e # es) offs dev =
     (if starts_with MODBUS_MASTER_MASTER_STATUS_BYTE (fst e) then
        obind (get_variable_parameters J pi_device (json_object_get_string J (snd e)) offs) (\<lambda>(success, offs').
        parse_master_status J pi_device es offs'
          (if success = 0 then dev\<lparr>i32uDeviceStatusByteProcessImageOffset := fst offs'\<rparr> else dev))
      else if starts_with MODBUS_MASTER_MASTER_STATUS_RESET_BYTE (fst e) then
        obind (get_variable_parameters J pi_device (json_object_get_string J (snd e)) offs) (\<lambda>(success, offs').
        parse_master_status J pi_device es offs'
          (if success = 0 then dev\<lparr>i32uDeviceStatusResetByteProcessImageByteOffset := fst offs'\<rparr> else dev))
      else parse_master_status J pi_device es offs dev)"

primrec parse_master_devices ::
  "'w env \<Rightarrow> 'j jsonc \<Rightarrow> 'j option list \<Rightarrow> TModbusMasterConfiguration list
     \<Rightarrow> ('w, int \<times> TModbusMasterConfiguration list) prog" where
  "parse_master_devices E J [] head = ret (0, head)"
| "parse_master_devices E J (pi_device # devices) head =
     (case get_device_product_type J pi_device of
        Inl e \<Rightarrow> ret (error_code e, head)
      | Inr t \<Rightarrow>
          bindM (liftO (not_null t)) (\<lambda>productType.
          if product_matches productType MODBUS_MASTER_TCP_PI_PRODUCT_TYPE
             \<or> product_matches productType MODBUS_MASTER_RTU_PI_PRODUCT_TYPE
          then bindM (ext (malloc_ok E)) (\<lambda>ok.
            if \<not> ok then parse_master_devices E J devices head
            else bindM (liftO (parse_device_modbus_configuration J pi_device)) (\<lambda>r.
              case r of Inl e \<Rightarrow> parse_master_devices E J devices head
                | Inr dev \<Rightarrow>
                    bindM (parse_modbus_master_action_list E J pi_device) (\<lambda>(action_count, acts).
                    if action_count < 0 then parse_master_devices E J devices head
                    else case json_object_object_get_ex J pi_device ''extend'' of
                        None \<Rightarrow> ret (error_code EXTEND_SECTION_NOT_FOUND, head)
                      | Some config_extend \<Rightarrow>
                          (case json_object_object_get_ex J config_extend ''deviceMisc'' of
                             None \<Rightarrow> ret (error_code DEVICE_RESET_ENTRIES_NOT_FOUND, head)
                           | Some master_status \<Rightarrow>
                               bindM (liftO (entries_of J master_status)) (\<lambda>es.
                               bindM (liftO (parse_master_status J pi_device es (0, 0) dev)) (\<lambda>dev'.
                               parse_master_devices E J devices
                                 (\<lparr>masterDeviceConfig = dev', i32ActionCount = action_count, mbActionListHead = acts\<rparr>
                                  # head)))))))
          else parse_master_devices E J devices head))"

definition parse_modbus_master_config_data ::
  "'w env \<Rightarrow> 'j jsonc \<Rightarrow> string \<Rightarrow> TModbusMasterConfiguration list
     \<Rightarrow> ('w, int \<times> TModbusMasterConfiguration list) prog" where
  "parse_modbus_master_config_data E J text head =
     (case get_json_devices_array J text of
        Inl e \<Rightarrow> ret (error_code e, head)
      | Inr a \<Rightarrow> parse_master_devices E J (array_devices J a) head)"

section \<open>Properties\<close>

subsection \<open>Ranges\<close>

lemma wlp_seq_assert: "(b \<Longrightarrow> wlp n Q s) \<Longrightarrow> wlp (seqM (assertM b) n) Q s"
  by (simp add: wp_simps)

lemma wlp_bindA:
  assumes "\<And>x s. wlp (f x) Q s" "\<And>s. Q Skip s" "\<And>e s. Q (Stop e) s"
  shows "wlp (bindA m f) Q s"
  unfolding bindA_def wp_simps
  by (rule wlp_True) (auto simp: assms wp_simps split: attempt.splits)

lemma wlp_bind_any: "(\<And>x s. wlp (f x) Q s) \<Longrightarrow> wlp (bindM m f) Q s"
  unfolding wp_simps by (rule wlp_True)

lemma wlp_seq_any: "(\<And>s. wlp n Q s) \<Longrightarrow> wlp (seqM m n) Q s"
  unfolding wp_simps by (rule wlp_True)

text \<open>What the parser guarantees of every action.\<close>

definition action_in_range :: "TModbusAction \<Rightarrow> bool" where
  "action_in_range a \<longleftrightarrow>
     0 < i32uStartRegister a \<and> i32uStartRegister a < 0x10000
   \<and> 0 < unat (i16uRegisterCount a) \<and> unat (i16uRegisterCount a) \<le> MAX_REGISTER_SIZE_PER_ACTION
   \<and> 1000 \<le> unat (i32uInterval_us a) \<and> unat (i32uInterval_us a) \<le> 1800000000
   \<and> 1 \<le> function_code (eFunctionCode a) \<and> function_code (eFunctionCode a) < 0x17
   \<and> (eFunctionCode a \<in> set bit_functions \<longrightarrow> i8uStartBitProcessData a < 8)"

lemma quantity_range:
  assumes "0 < (q :: u32)" "q \<le> word_of_nat MAX_REGISTER_SIZE_PER_ACTION"
  shows "0 < unat (ucast q :: u16) \<and> unat (ucast q :: u16) \<le> MAX_REGISTER_SIZE_PER_ACTION"
proof -
  have "unat q \<le> 256" "0 < unat q"
    using assms by (simp_all add: MAX_REGISTER_SIZE_PER_ACTION_def word_le_nat_alt word_less_nat_alt)
  moreover from this have "unat (ucast q :: u16) = unat q"
    by (simp add: unsigned_ucast_eq take_bit_nat_eq_self)
  ultimately show ?thesis by (simp add: MAX_REGISTER_SIZE_PER_ACTION_def)
qed

lemma interval_range:
  assumes "0 < (v :: u32)" "v \<le> 1000 * 60 * 30"
  shows "1000 \<le> unat (v * 1000) \<and> unat (v * 1000) \<le> 1800000000"
proof -
  have "unat v \<le> 1800000" "0 < unat v"
    using assms by (simp_all add: word_le_nat_alt word_less_nat_alt)
  moreover from this have "unat (v * 1000) = unat v * 1000"
    by (simp add: unat_word_ariths)
  ultimately show ?thesis by simp
qed

lemma start_bit_range: "f \<in> set bit_functions \<Longrightarrow> snd (process_data_place f p) < 8"
  by (simp add: process_data_place_def Let_def word_less_nat_alt unat_mod)

lemma parse_action_range:
  "wlp (parse_action E J pi_device actions ident) (\<lambda>r _. \<forall>a. r = Done a \<longrightarrow> action_in_range a) w"
  unfolding parse_action_def parse_action_places_def
  apply (intro wlp_bindA wlp_seq_assert wlp_seq_any)
  apply (simp_all add: wp_simps action_in_range_def function_code_of quantity_range interval_range start_bit_range)
  done

lemma wlp_cases:
  "wlp (case r of Done x \<Rightarrow> f x | Skip \<Rightarrow> g | Stop e \<Rightarrow> h e) Q s
     \<longleftrightarrow> (case r of Done x \<Rightarrow> wlp (f x) Q s | Skip \<Rightarrow> wlp g Q s | Stop e \<Rightarrow> wlp (h e) Q s)"
  "wlp (case v of Inl e \<Rightarrow> f' e | Inr y \<Rightarrow> g' y) Q s \<longleftrightarrow> (case v of Inl e \<Rightarrow> wlp (f' e) Q s | Inr y \<Rightarrow> wlp (g' y) Q s)"
  by (auto split: attempt.splits sum.splits)

text \<open>The result of parsing an action list: a negative code, or the number of the actions.\<close>

definition actions_parsed :: "int \<times> TModbusAction list \<Rightarrow> bool" where
  "actions_parsed r \<longleftrightarrow> (\<forall>a \<in> set (snd r). action_in_range a) \<and> (0 \<le> fst r \<longrightarrow> fst r = int (length (snd r)))"

lemma error_code_not_nonneg: "0 \<le> error_code e \<longleftrightarrow> e = SUCCESS"
  using error_code_neg [of e] by linarith

text \<open>None of the numbers of an action is read with the error code \<open>SUCCESS\<close>.\<close>

lemma parse_action_stop:
  "wlp (parse_action E J pi_device actions ident) (\<lambda>r _. r \<noteq> Stop SUCCESS) w"
proof -
  have number: "wlp (action_number E J actions ident key wrong) (\<lambda>r _. r \<noteq> Stop SUCCESS) s"
    if "wrong \<noteq> SUCCESS" for key wrong s
    unfolding action_number_def bindA_def action_string_def wp_simps
    by (rule wlp_True) (auto simp: wp_simps that split: option.splits prod.splits)
  have string: "wlp (action_variable E J pi_device actions ident key offs) (\<lambda>r _. r \<noteq> Stop SUCCESS) s" for key offs s
    unfolding action_variable_def bindA_def action_string_def wp_simps
    by (rule wlp_True) (auto simp: wp_simps wp_liftO split: option.splits)
  have bindA: "wlp (bindA m f) (\<lambda>r _. r \<noteq> Stop SUCCESS) s"
    if "\<And>s. wlp m (\<lambda>r _. r \<noteq> Stop SUCCESS) s" "\<And>x s. wlp (f x) (\<lambda>r _. r \<noteq> Stop SUCCESS) s"
    for m :: "('a, 'z attempt) prog" and f :: "'z \<Rightarrow> ('a, 'y attempt) prog" and s
    unfolding bindA_def wp_simps
    by (rule wlp_mono [OF that(1)]) (auto simp: wlp_cases that(2) wp_simps split: attempt.splits)
  show ?thesis
    unfolding parse_action_def parse_action_places_def
    by (intro bindA number string wlp_seq_assert wlp_seq_any) (simp_all add: wp_simps)
qed

lemma actions_parsed_intros:
  "actions_parsed (n, head) \<Longrightarrow> 0 \<le> n \<Longrightarrow> action_in_range a \<Longrightarrow> actions_parsed (n + 1, a # head)"
  "actions_parsed (n, head) \<Longrightarrow> err \<noteq> SUCCESS \<Longrightarrow> actions_parsed (error_code err, head)"
  by (simp_all add: actions_parsed_def error_code_not_nonneg)

lemma parse_action_entries_parsed:
  "actions_parsed (n, head) \<Longrightarrow> 0 \<le> n \<Longrightarrow>
   wlp (parse_action_entries E J pi_device actions es ident n head) (\<lambda>r _. actions_parsed r) w"
proof (induction es arbitrary: ident n head w)
  case (Cons e es)
  have "wlp (parse_action E J pi_device actions i) (\<lambda>r. wlp (case r of
        Stop err \<Rightarrow> ret (error_code err, head)
      | Skip \<Rightarrow> parse_action_entries E J pi_device actions es i n head
      | Done act \<Rightarrow> parse_action_entries E J pi_device actions es None (n + 1) (act # head)) (\<lambda>r _. actions_parsed r)) s" for i s
    by (rule wlp_mono [OF wlp_conj [OF parse_action_range parse_action_stop]], unfold wlp_cases)
       (auto simp: wp_simps Cons actions_parsed_intros(1) intro: actions_parsed_intros(2) [OF Cons.prems(1)]
         split: attempt.splits)
  then show ?case
    by (auto simp: wp_simps Cons intro!: wlp_True actions_parsed_intros(2) [OF Cons.prems(1)])
qed (simp add: wp_simps)

lemma parse_modbus_master_action_list_parsed:
  "wlp (parse_modbus_master_action_list E J pi_device) (\<lambda>r _. actions_parsed r) w"
  by (auto simp: parse_modbus_master_action_list_def wp_simps wp_liftO intro!: parse_action_entries_parsed
      split: option.splits) (simp_all add: actions_parsed_def error_code_not_nonneg)

subsection \<open>The list of masters\<close>

definition master_in_range :: "'j jsonc \<Rightarrow> TModbusMasterConfiguration \<Rightarrow> bool" where
  "master_in_range J c \<longleftrightarrow> device_in_range J (masterDeviceConfig c)
     \<and> i32ActionCount c = int (length (mbActionListHead c)) \<and> (\<forall>a \<in> set (mbActionListHead c). action_in_range a)"

lemma parse_master_status_range:
  "parse_master_status J pi_device es offs dev = Ret dev' \<Longrightarrow> device_in_range J dev \<Longrightarrow> device_in_range J dev'"
proof (induction es arbitrary: offs dev)
  case (Cons e es)
  have "device_in_range J (dev\<lparr>i32uDeviceStatusByteProcessImageOffset := b\<rparr>)"
    "device_in_range J (dev\<lparr>i32uDeviceStatusResetByteProcessImageByteOffset := b\<rparr>)" for b
    using Cons.prems(2) by (cases "uProt dev"; simp add: device_in_range_def)+
  then show ?case
    using Cons.prems Cons.IH by (auto simp: obind_Ret_iff split: if_splits)
qed simp

lemma parse_master_devices_range:
  "\<forall>c \<in> set head. master_in_range J c \<Longrightarrow>
   wlp (parse_master_devices E J devices head) (\<lambda>r _. \<forall>c \<in> set (snd r). master_in_range J c) w"
proof (induction devices arbitrary: head w)
  case (Cons d devices)
  have new: "master_in_range J \<lparr>masterDeviceConfig = dev', i32ActionCount = n, mbActionListHead = acts\<rparr>"
    if "parse_device_modbus_configuration J d = Ret (Inr dev)" "parse_master_status J d es (0, 0) dev = Ret dev'"
      "actions_parsed (n, acts)" "\<not> n < 0" for dev dev' es n acts
    using parse_master_status_range [OF that(2) parse_device_in_range [OF that(1)]] that(3,4)
    by (simp add: master_in_range_def actions_parsed_def)
  show ?case
    using Cons.prems
    by (auto simp: wp_simps wp_liftO wlp_cases Cons new intro!: wlp_mono [OF parse_modbus_master_action_list_parsed]
        split: sum.splits option.splits)
qed (simp add: wp_simps)

end
