(* ===== verification/Config_File.thy ===== *)
theory Config_File
  imports Parser_Actions
begin

text \<open>
  Reading the configuration file, and the entry points of the parser for the two main programs:
  \<^verbatim>\<open>read_config_file\<close>, \<^verbatim>\<open>get_slave_device_config_list\<close>, \<^verbatim>\<open>get_master_device_config_list\<close> and
  \<^verbatim>\<open>free_modbus_master_config_data\<close> of \<^verbatim>\<open>src/src/piConfigParser/piConfigParser.c\<close>. The streams of
  the C library are a record of functions. The global \<^verbatim>\<open>c8PiConfigData_g\<close> is passed on explicitly.
\<close>

section \<open>Streams\<close>

text \<open>
  \<open>fopen\<close> yields \<open>None\<close> for \<open>NULL\<close>; \<open>fread\<close> yields the bytes it has stored, at most as many as asked
  for. The paths come from the submodule \<^verbatim>\<open>piControl\<close>.
\<close>

record 'w stdio =
  PICONFIG_FILE :: string
  PICONFIG_FILE_WHEEZY :: string
  fopen :: "string \<Rightarrow> 'w \<Rightarrow> nat option \<times> 'w"
  fseek_end :: "nat \<Rightarrow> 'w \<Rightarrow> int \<times> 'w"
  fseek_set :: "nat \<Rightarrow> 'w \<Rightarrow> int \<times> 'w"
  ftell :: "nat \<Rightarrow> 'w \<Rightarrow> int \<times> 'w"
  fread :: "nat \<Rightarrow> int \<Rightarrow> 'w \<Rightarrow> string \<times> 'w"
  fclose :: "nat \<Rightarrow> 'w \<Rightarrow> unit \<times> 'w"

text \<open>The C string in a buffer ends at its first zero byte.\<close>

definition c_text :: "string \<Rightarrow> string" where
  "c_text s = takeWhile (\<lambda>c. c \<noteq> CHR 0x00) s"

section \<open>Operations\<close>

definition open_config_file :: "'w stdio \<Rightarrow> ('w, nat option) prog" where
  "open_config_file F =
     bindM (ext (fopen F (PICONFIG_FILE F))) (\<lambda>config_file.
     case config_file of None \<Rightarrow> ext (fopen F (PICONFIG_FILE_WHEEZY F)) | Some f \<Rightarrow> ret (Some f))"

definition close_with :: "'w stdio \<Rightarrow> nat \<Rightarrow> 'a \<Rightarrow> ('w, 'a) prog" where
  "close_with F f r = seqM (ext (fclose F f)) (ret r)"

definition read_config_file :: "'w env \<Rightarrow> 'w stdio \<Rightarrow> ('w, string option) prog" where
  "read_config_file E F =
     bindM (open_config_file F) (\<lambda>config_file.
     case config_file of None \<Rightarrow> ret None
     | Some f \<Rightarrow>
         bindM (ext (fseek_end F f)) (\<lambda>rc.
         if rc \<noteq> 0 then close_with F f None
         else bindM (ext (ftell F f)) (\<lambda>buffer_size.
         if buffer_size \<le> 0 then close_with F f None
         else bindM (ext (malloc_ok E)) (\<lambda>ok.
         if \<not> ok then close_with F f None
         else bindM (ext (fseek_set F f)) (\<lambda>rc.
         if rc \<noteq> 0 then close_with F f None
         else bindM (ext (fread F f buffer_size)) (\<lambda>data.
         seqM (assertM (0 < buffer_size))
         (if int (length data) < buffer_size then close_with F f None
          else close_with F f (Some (c_text data)))))))))"

text \<open>The configuration buffer and the list; errors of the parser are only logged.\<close>

definition get_slave_device_config_list ::
  "'w env \<Rightarrow> 'w stdio \<Rightarrow> 'j jsonc \<Rightarrow> TModbusSlaveConfiguration list
     \<Rightarrow> ('w, string option \<times> TModbusSlaveConfiguration list) prog" where
  "get_slave_device_config_list E F J head =
     bindM (read_config_file E F) (\<lambda>config_data.
     case config_data of None \<Rightarrow> ret (None, head)
     | Some text \<Rightarrow>
         bindM (parse_modbus_slaves_config_data E J text head) (\<lambda>(success, configs).
         ret (Some text, configs)))"

definition get_master_device_config_list ::
  "'w env \<Rightarrow> 'w stdio \<Rightarrow> 'j jsonc \<Rightarrow> TModbusMasterConfiguration list
     \<Rightarrow> ('w, string option \<times> TModbusMasterConfiguration list) prog" where
  "get_master_device_config_list E F J head =
     bindM (read_config_file E F) (\<lambda>config_data.
     case config_data of None \<Rightarrow> ret (None, head)
     | Some text \<Rightarrow>
         bindM (parse_modbus_master_config_data E J text head) (\<lambda>(success, configs).
         ret (Some text, configs)))"

text \<open>
  The blocks of memory that \<^verbatim>\<open>free_modbus_master_config_data\<close> gives back, in order; both of its
  loops take the first entry of a list until the list is empty.
\<close>

datatype config_block = Action_block TModbusAction | Master_block TModbusMasterConfiguration

fun free_actions :: "TModbusAction list \<Rightarrow> config_block list" where
  "free_actions [] = []"
| "free_actions (act # acts) = Action_block act # free_actions acts"

fun free_modbus_master_config_data :: "TModbusMasterConfiguration list \<Rightarrow> config_block list" where
  "free_modbus_master_config_data [] = []"
| "free_modbus_master_config_data (entry # entries) =
     free_actions (mbActionListHead entry) @ Master_block entry # free_modbus_master_config_data entries"

section \<open>Properties\<close>

text \<open>Views of the world that a part of the environment leaves alone.\<close>

definition files_keep :: "'w stdio \<Rightarrow> ('w \<Rightarrow> 'v) \<Rightarrow> bool" where
  "files_keep F f \<longleftrightarrow>
     (\<forall>p w. f (snd (fopen F p w)) = f w) \<and> (\<forall>h w. f (snd (fseek_end F h w)) = f w)
   \<and> (\<forall>h w. f (snd (fseek_set F h w)) = f w) \<and> (\<forall>h w. f (snd (ftell F h w)) = f w)
   \<and> (\<forall>h n w. f (snd (fread F h n w)) = f w) \<and> (\<forall>h w. f (snd (fclose F h w)) = f w)"

text \<open>The open streams: a new one is not open yet, closing one ends it, the rest leaves them alone.\<close>

definition file_laws :: "'w env \<Rightarrow> 'w stdio \<Rightarrow> ('w \<Rightarrow> nat set) \<Rightarrow> bool" where
  "file_laws E F files \<longleftrightarrow>
     (\<forall>p w. case fopen F p w of (None, w') \<Rightarrow> files w' = files w
        | (Some h, w') \<Rightarrow> h \<notin> files w \<and> files w' = insert h (files w))
   \<and> (\<forall>h w. files (snd (fclose F h w)) = files w - {h})
   \<and> (\<forall>h w. files (snd (fseek_end F h w)) = files w) \<and> (\<forall>h w. files (snd (fseek_set F h w)) = files w)
   \<and> (\<forall>h w. files (snd (ftell F h w)) = files w) \<and> (\<forall>h n w. files (snd (fread F h n w)) = files w)
   \<and> (\<forall>w. files (snd (malloc_ok E w)) = files w)"

lemma fopen_files:
  assumes "file_laws E F files" "fopen F p w = (r, w')"
  shows "case r of None \<Rightarrow> files w' = files w | Some h \<Rightarrow> h \<notin> files w \<and> files w' = insert h (files w)"
  using assms unfolding file_laws_def by (cases r) (metis (lifting) case_prod_conv option.simps(4,5))+

lemma open_config_file_files:
  assumes "file_laws E F files"
  shows "wp (open_config_file F) (\<lambda>r w'. case r of None \<Rightarrow> files w' = files w
     | Some h \<Rightarrow> h \<notin> files w \<and> files w' = insert h (files w)) w"
proof -
  obtain r w1 where 1: "fopen F (PICONFIG_FILE F) w = (r, w1)" by fastforce
  obtain r' w2 where 2: "fopen F (PICONFIG_FILE_WHEEZY F) w1 = (r', w2)" by fastforce
  show ?thesis
    using fopen_files [OF assms 1] fopen_files [OF assms 2]
    by (auto simp: open_config_file_def wp_simps 1 2 split: option.splits)
qed

lemma read_config_file_files:
  assumes "file_laws E F files"
  shows "wp (read_config_file E F) (\<lambda>_ w'. files w' = files w) w"
  unfolding read_config_file_def wp_bind
  by (rule wp_mono [OF open_config_file_files [OF assms]])
     (use assms in \<open>auto simp: wp_simps close_with_def file_laws_def split: option.splits\<close>)

section \<open>What parsing leaves alone\<close>

text \<open>A view that neither an allocation nor an access to the process image changes.\<close>

definition parser_keeps :: "'w env \<Rightarrow> ('w \<Rightarrow> 'v) \<Rightarrow> bool" where
  "parser_keeps E f \<longleftrightarrow> (\<forall>w. f (snd (malloc_ok E w)) = f w) \<and> image_access_keeps E f"

lemma keeps_attempt:
  "(\<And>x. keeps I (f x)) \<Longrightarrow> keeps I g \<Longrightarrow> (\<And>e. keeps I (h e)) \<Longrightarrow>
     keeps I (case r of Done x \<Rightarrow> f x | Skip \<Rightarrow> g | Stop e \<Rightarrow> h e)"
  "(\<And>e. keeps I (f' e)) \<Longrightarrow> (\<And>x. keeps I (g' x)) \<Longrightarrow> keeps I (case v of Inl e \<Rightarrow> f' e | Inr x \<Rightarrow> g' x)"
  by (simp_all split: attempt.splits sum.splits)

lemma keeps_bindA: "keeps I m \<Longrightarrow> (\<And>x. keeps I (f x)) \<Longrightarrow> keeps I (bindA m f)"
  unfolding bindA_def by (intro keeps_intros keeps_attempt)

lemma parser_keeps_ext:
  assumes "parser_keeps E f"
  shows "keeps (\<lambda>w. f w = v) (ext (malloc_ok E))" "keeps (\<lambda>w. f w = v) (ext (piControlWrite E off len d))"
    and "keeps (\<lambda>w. f w = v) (ext (piControlSetBitValue E b))"
  using assms by (simp_all add: parser_keeps_def image_access_keeps_def keeps_ext)

lemma parse_action_keeps:
  assumes "parser_keeps E f"
  shows "keeps (\<lambda>w. f w = v) (parse_action E J pi_device actions ident)"
  unfolding parse_action_def parse_action_places_def action_number_def action_variable_def action_string_def
    get_modbus_action_matching_name_string_value_def clear_action_status_def
  by (intro keeps_intros keeps_attempt keeps_bindA parser_keeps_ext [OF assms])

lemma parse_action_entries_keeps:
  assumes "parser_keeps E f"
  shows "keeps (\<lambda>w. f w = v) (parse_action_entries E J pi_device actions es ident n head)"
proof (induction es arbitrary: ident n head)
  case (Cons e es)
  show ?case
    unfolding parse_action_entries.simps next_identifier_def
    by (intro keeps_intros keeps_attempt parse_action_keeps [OF assms] parser_keeps_ext [OF assms] Cons)
qed (simp add: keeps_intros)

lemma parse_master_devices_keeps:
  assumes "parser_keeps E f"
  shows "keeps (\<lambda>w. f w = v) (parse_master_devices E J devices head)"
proof (induction devices arbitrary: head)
  case (Cons d devices)
  show ?case
    unfolding parse_master_devices.simps parse_modbus_master_action_list_def
    by (intro keeps_intros keeps_attempt parse_action_entries_keeps [OF assms] parser_keeps_ext [OF assms] Cons)
qed (simp add: keeps_intros)

lemma parse_slave_devices_keeps:
  assumes "parser_keeps E f"
  shows "keeps (\<lambda>w. f w = v) (parse_slave_devices E J devices head)"
proof (induction devices arbitrary: head)
  case (Cons d devices)
  show ?case
    unfolding parse_slave_devices.simps
    by (intro keeps_intros keeps_attempt parser_keeps_ext [OF assms] Cons)
qed (simp add: keeps_intros)

lemma read_config_file_keeps:
  assumes "parser_keeps E f" "files_keep F f"
  shows "keeps (\<lambda>w. f w = v) (read_config_file E F)"
proof -
  have streams: "keeps (\<lambda>w. f w = v) (ext (fopen F p))" "keeps (\<lambda>w. f w = v) (ext (fseek_end F h))"
    "keeps (\<lambda>w. f w = v) (ext (fseek_set F h))" "keeps (\<lambda>w. f w = v) (ext (ftell F h))"
    "keeps (\<lambda>w. f w = v) (ext (fread F h n))" "keeps (\<lambda>w. f w = v) (ext (fclose F h))" for p h n
    using assms(2) by (simp_all add: files_keep_def keeps_ext)
  show ?thesis
    unfolding read_config_file_def open_config_file_def close_with_def
    by (intro keeps_intros streams parser_keeps_ext(1) [OF assms(1)])
qed

lemma config_list_keeps:
  assumes "parser_keeps E f" "files_keep F f"
  shows "keeps (\<lambda>w. f w = v) (get_master_device_config_list E F J head)"
    and "keeps (\<lambda>w. f w = v) (get_slave_device_config_list E F J head')"
  unfolding get_master_device_config_list_def get_slave_device_config_list_def
    parse_modbus_master_config_data_def parse_modbus_slaves_config_data_def
  by (intro keeps_intros keeps_attempt read_config_file_keeps [OF assms] parse_master_devices_keeps [OF assms(1)]
      parse_slave_devices_keeps [OF assms(1)])+

end
