(* ===== verification/Action_Documents.thy ===== *)
theory Action_Documents
  imports Parser_Actions
begin

text \<open>
  What the entries of a document mean: the texts of an action, the action that they describe, and that
  \<open>parse_modbus_master_action_list\<close> yields exactly the described actions.
\<close>

section \<open>One action\<close>

text \<open>The texts of one action in the configuration: six numbers and the names of three variables.\<close>

record action_text =
  at_id :: nat
  at_address :: nat
  at_function :: nat
  at_register :: nat
  at_quantity :: nat
  at_interval :: nat
  at_data :: string
  at_status :: string
  at_reset :: string

definition describes :: "'j jsonc \<Rightarrow> (string \<times> 'j option) list \<Rightarrow> string \<Rightarrow> action_text \<Rightarrow> bool" where
  "describes J es i t \<longleftrightarrow>
     search_parameter J (MODBUS_MASTER_ACTION_ID_KEY @ i) es = Some (decimal (at_id t))
   \<and> search_parameter J (MODBUS_MASTER_SLAVE_ADDRESS_KEY @ i) es = Some (decimal (at_address t))
   \<and> search_parameter J (MODBUS_MASTER_FUNCTON_CODE_KEY @ i) es = Some (decimal (at_function t))
   \<and> search_parameter J (MODBUS_MASTER_REGISTER_ADDRESS_KEY @ i) es = Some (decimal (at_register t))
   \<and> search_parameter J (MODBUS_MASTER_QUANTITY_OF_REGISTERS_KEY @ i) es = Some (decimal (at_quantity t))
   \<and> search_parameter J (MODBUS_MASTER_ACTION_INTERVAL_KEY @ i) es = Some (decimal (at_interval t))
   \<and> search_parameter J (MODBUS_MASTER_PROCESS_IMAGE_VARIABLE_NAME_KEY @ i) es = Some (at_data t)
   \<and> search_parameter J (MODBUS_MASTER_ACTION_STATUS_BYTE @ i) es = Some (at_status t)
   \<and> search_parameter J (MODBUS_MASTER_ACTION_STATUS_RESET @ i) es = Some (at_reset t)"

definition text_in_range :: "action_text \<Rightarrow> bool" where
  "text_in_range t \<longleftrightarrow> 0 < at_id t \<and> at_id t < 2 ^ 31 - 1 \<and> at_address t < 2 ^ 32
     \<and> 1 \<le> at_function t \<and> at_function t < 23 \<and> 0 < at_register t \<and> at_register t < 65536
     \<and> 0 < at_quantity t \<and> at_quantity t \<le> 256 \<and> 0 < at_interval t \<and> at_interval t \<le> 1800000"

definition action_of :: "action_text \<Rightarrow> u32 \<times> u32 \<Rightarrow> u32 \<times> u32 \<Rightarrow> u32 \<times> u32 \<Rightarrow> TModbusAction" where
  "action_of t data status reset =
     (let f = EModbusFunction_of (word_of_nat (at_function t)); b = unat (snd data) mod 256;
          by_bits = f \<in> {eREAD_COILS, eREAD_DISCRETE_INPUTS, eWRITE_SINGLE_COIL, eWRITE_MULTIPLE_COILS}
      in \<lparr>i16uActionID = word_of_nat (at_id t), i8uSlaveAddress = word_of_nat (at_address t),
      eFunctionCode = f,
      i32uStartRegister = word_of_nat (at_register t), i16uRegisterCount = word_of_nat (at_quantity t),
      i32uInterval_us = word_of_nat (1000 * at_interval t),
      i32uStartByteProcessData = fst data + (if by_bits then word_of_nat (b div 8) else 0),
      i8uStartBitProcessData = word_of_nat (if by_bits then b mod 8 else b),
      i32uStatusByteProcessImageOffset = fst status,
      i32uResetStatusProcessImageByteOffset = fst reset,
      i8uResetStatusProcessImageBitOffset = ucast (snd reset)\<rparr>)"

lemma byte_div_8: fixes v :: u8 shows "(ucast (v div 8) :: u32) = word_of_nat (unat v div 8)"
  by (rule word_unat_eq_iff [THEN iffD2]) (simp add: unsigned_ucast_eq unat_div unat_of_nat take_bit_eq_mod)

lemma byte_mod_8: fixes v :: u8 shows "v mod 8 = word_of_nat (unat v mod 8)"
  by (rule word_unat_eq_iff [THEN iffD2]) (simp add: unat_mod unat_of_nat)

lemma process_data_place_bits:
  "process_data_place f data = (let b = unat (snd data) mod 256;
       by_bits = f \<in> {eREAD_COILS, eREAD_DISCRETE_INPUTS, eWRITE_SINGLE_COIL, eWRITE_MULTIPLE_COILS}
     in (fst data + (if by_bits then word_of_nat (b div 8) else 0), word_of_nat (if by_bits then b mod 8 else b)))"
proof -
  let ?s = "ucast (snd data) :: u8"
  have s: "unat ?s = unat (snd data) mod 256"
    by (simp add: unsigned_ucast_eq take_bit_eq_mod)
  have "?s = word_of_nat (unat ?s)"
    by simp
  then show ?thesis
    using byte_div_8 [of ?s] byte_mod_8 [of ?s] unfolding s
    by (auto simp: process_data_place_def bit_functions_def Let_def)
qed

text \<open>The memory can be had and taking it does not touch the process image.\<close>

definition memory_keeps :: "'w env \<Rightarrow> ('w \<Rightarrow> 'v) \<Rightarrow> bool" where
  "memory_keeps E f \<longleftrightarrow> (\<forall>w. fst (malloc_ok E w)) \<and> (\<forall>w. f (snd (malloc_ok E w)) = f w)"

text \<open>A step that goes on with \<open>x\<close> and keeps the view \<open>f\<close>.\<close>

definition goes_on :: "('w \<Rightarrow> 'v) \<Rightarrow> ('w, 'a attempt) prog \<Rightarrow> 'a \<Rightarrow> bool" where
  "goes_on f m x \<longleftrightarrow> (\<forall>w. wp m (\<lambda>r w'. r = Done x \<and> f w' = f w) w)"

lemma goes_onD: "goes_on f m x \<Longrightarrow> wp m (\<lambda>r w'. r = Done x \<and> f w' = f w) w"
  by (simp add: goes_on_def)

lemma wp_bindA:
  assumes "goes_on f m x" "\<And>w'. f w' = f w \<Longrightarrow> wp (k x) Q w'"
  shows "wp (bindA m k) Q w"
  unfolding bindA_def wp_simps
  by (rule wp_mono [OF goes_onD [OF assms(1)]]) (auto intro: assms(2))

lemma action_string_goes_on:
  assumes "memory_keeps E f" "json_object_get_object J actions = Some es" "search_parameter J (key @ i) es = Some s"
  shows "goes_on f (action_string E J actions (Some i) key) s"
  using assms
  by (auto simp: goes_on_def action_string_def get_modbus_action_matching_name_string_value_def wp_simps
      entries_of_def memory_keeps_def)

lemma action_number_goes_on:
  assumes "memory_keeps E f" "json_object_get_object J actions = Some es"
    and "search_parameter J (key @ i) es = Some (decimal n)" "n \<le> ULONG_MAX J"
  shows "goes_on f (action_number E J actions (Some i) key wrong) (word_of_nat n)"
proof -
  have "strtoul32 J (decimal n) = (word_of_nat n, False)"
    using strtou_decimal_append [of n "ULONG_MAX J" "[]"] assms(4) by (simp add: strtoul32_def strtou32_def)
  then show ?thesis
    unfolding goes_on_def action_number_def
    by (auto intro!: wp_bindA [OF action_string_goes_on [OF assms(1-3)]] simp: wp_simps)
qed

lemma action_variable_goes_on:
  assumes "memory_keeps E f" "json_object_get_object J actions = Some es"
    and "search_parameter J (key @ i) es = Some s" "get_variable_parameters J pi_device (Some s) offs = Ret (0, place)"
  shows "goes_on f (action_variable E J pi_device actions (Some i) key offs) place"
  unfolding goes_on_def action_variable_def
  by (auto intro!: wp_bindA [OF action_string_goes_on [OF assms(1-3)]] simp: wp_simps assms(4))

lemma wp_seq_assert: "b \<Longrightarrow> wp n Q s \<Longrightarrow> wp (seqM (assertM b) n) Q s"
  by (simp add: wp_simps)

lemma clear_action_status_image:
  assumes "picontrol_laws E img" "image_available E"
  shows "wp (clear_action_status E status reset b) (\<lambda>_ w'.
     img w' = patch_image (patch_value (img w) (unat (ucast reset :: u16)) (unat b) 0) (unat status) [0]) w"
proof -
  let ?v = "\<lparr>i16uAddress = ucast reset, i8uBit = b, i8uValue = 0\<rparr>"
  have "img (snd (piControlSetBitValue E ?v w)) = patch_value (img w) (unat (ucast reset :: u16)) (unat b) 0" for w
    using assms by (auto simp: picontrol_laws_def image_available_def case_prod_unfold not_less [symmetric])
  moreover have "img (snd (piControlWrite E status 1 [0] w)) = patch_image (img w) (unat status) [0]" for w
    using assms by (auto simp: picontrol_laws_def image_available_def case_prod_unfold not_less [symmetric])
  ultimately show ?thesis
    by (simp add: clear_action_status_def wp_simps)
qed

lemma text_words:
  assumes "text_in_range t"
  shows "0 < (word_of_nat (at_id t) :: u32)" "word_of_nat (at_id t) < INT32_MAX"
    and "function_code eREAD_COILS \<le> word_of_nat (at_function t)"
    and "(word_of_nat (at_function t) :: u32) < function_code eWRITE_AND_READ_REGISTERS"
    and "0 < (word_of_nat (at_register t) :: u32)" "(word_of_nat (at_register t) :: u32) < 0x10000"
    and "0 < (word_of_nat (at_quantity t) :: u32)"
        "(word_of_nat (at_quantity t) :: u32) \<le> word_of_nat MAX_REGISTER_SIZE_PER_ACTION"
    and "0 < (word_of_nat (at_interval t) :: u32)" "(word_of_nat (at_interval t) :: u32) \<le> 1000 * 60 * 30"
  using assms
  by (simp_all add: text_in_range_def word_less_nat_alt word_le_nat_alt unat_of_nat INT32_MAX_def
      MAX_REGISTER_SIZE_PER_ACTION_def)

lemma ucast_word_of_nat:
  "(ucast (word_of_nat n :: u32) :: u16) = word_of_nat n" "(ucast (word_of_nat n :: u32) :: u8) = word_of_nat n"
  by (rule word_uint_eqI; simp add: unsigned_ucast_eq unsigned_of_nat take_bit_of_nat)+

lemma parse_action_described:
  assumes "memory_keeps E img" "picontrol_laws E img" "image_available E"
    and "json_object_get_object J actions = Some es" "describes J es i t" "text_in_range t" "2 ^ 32 \<le> Suc (ULONG_MAX J)"
    and "\<forall>offs. get_variable_parameters J pi_device (Some (at_data t)) offs = Ret (0, data)"
    and "\<forall>offs. get_variable_parameters J pi_device (Some (at_status t)) offs = Ret (0, status)"
    and "\<forall>offs. get_variable_parameters J pi_device (Some (at_reset t)) offs = Ret (0, reset)"
  shows "wp (parse_action E J pi_device actions (Some i)) (\<lambda>r w'. r = Done (action_of t data status reset)
     \<and> img w' = patch_image (patch_value (img w) (unat (ucast (fst reset) :: u16)) (unat (ucast (snd reset) :: u8)) 0)
          (unat (fst status)) [0]) w"
proof -
  have lim: "at_id t \<le> ULONG_MAX J" "at_address t \<le> ULONG_MAX J" "at_function t \<le> ULONG_MAX J"
    "at_register t \<le> ULONG_MAX J" "at_quantity t \<le> ULONG_MAX J" "at_interval t \<le> ULONG_MAX J"
    using assms(6,7) by (auto simp: text_in_range_def)
  note numbers = action_number_goes_on [OF assms(1,4) _ lim(1)] action_number_goes_on [OF assms(1,4) _ lim(2)]
    action_number_goes_on [OF assms(1,4) _ lim(3)] action_number_goes_on [OF assms(1,4) _ lim(4)]
    action_number_goes_on [OF assms(1,4) _ lim(5)] action_number_goes_on [OF assms(1,4) _ lim(6)]
  note variables = action_variable_goes_on [OF assms(1,4) _ assms(8) [rule_format]]
    action_variable_goes_on [OF assms(1,4) _ assms(9) [rule_format]]
    action_variable_goes_on [OF assms(1,4) _ assms(10) [rule_format]]
  have sp: "search_parameter J (MODBUS_MASTER_ACTION_ID_KEY @ i) es = Some (decimal (at_id t))"
    "search_parameter J (MODBUS_MASTER_SLAVE_ADDRESS_KEY @ i) es = Some (decimal (at_address t))"
    "search_parameter J (MODBUS_MASTER_FUNCTON_CODE_KEY @ i) es = Some (decimal (at_function t))"
    "search_parameter J (MODBUS_MASTER_REGISTER_ADDRESS_KEY @ i) es = Some (decimal (at_register t))"
    "search_parameter J (MODBUS_MASTER_QUANTITY_OF_REGISTERS_KEY @ i) es = Some (decimal (at_quantity t))"
    "search_parameter J (MODBUS_MASTER_ACTION_INTERVAL_KEY @ i) es = Some (decimal (at_interval t))"
    "search_parameter J (MODBUS_MASTER_PROCESS_IMAGE_VARIABLE_NAME_KEY @ i) es = Some (at_data t)"
    "search_parameter J (MODBUS_MASTER_ACTION_STATUS_BYTE @ i) es = Some (at_status t)"
    "search_parameter J (MODBUS_MASTER_ACTION_STATUS_RESET @ i) es = Some (at_reset t)"
    using assms(5) by (simp_all add: describes_def)
  note goes_on = numbers(1) [OF sp(1)] numbers(2) [OF sp(2)] numbers(3) [OF sp(3)] numbers(4) [OF sp(4)]
    numbers(5) [OF sp(5)] numbers(6) [OF sp(6)] variables(1) [OF sp(7)] variables(2) [OF sp(8)] variables(3) [OF sp(9)]
  show ?thesis
    unfolding parse_action_def parse_action_places_def
    apply (rule wp_bindA [OF goes_on(1)] wp_bindA [OF goes_on(2)] wp_bindA [OF goes_on(3)] wp_bindA [OF goes_on(4)]
        wp_bindA [OF goes_on(5)] wp_bindA [OF goes_on(6)] wp_bindA [OF goes_on(7)] wp_bindA [OF goes_on(8)]
        wp_bindA [OF goes_on(9)] wp_seq_assert conjI text_words [OF assms(6)])+
    apply (unfold wp_simps)
    apply (rule wp_mono [OF clear_action_status_image [OF assms(2,3)]])
    apply (simp add: action_of_def process_data_place_bits Let_def ucast_word_of_nat mult.commute)
    done
qed

section \<open>The list of actions\<close>

text \<open>
  What one entry \<open>ActionId\<close> stands for: the identifier in its name, the texts described under it and
  the places of its variables.
\<close>

record action_entry =
  ae_ident :: string
  ae_text :: action_text
  ae_data :: "u32 \<times> u32"
  ae_status :: "u32 \<times> u32"
  ae_reset :: "u32 \<times> u32"

definition entry_ok ::
  "'j jsonc \<Rightarrow> (string \<times> 'j option) list \<Rightarrow> 'j option \<Rightarrow> string \<Rightarrow> action_entry \<Rightarrow> bool" where
  "entry_ok J es pi_device name x \<longleftrightarrow>
     match_identifier name = Some (ae_ident x) \<and> describes J es (ae_ident x) (ae_text x) \<and> text_in_range (ae_text x)
   \<and> (\<forall>offs. get_variable_parameters J pi_device (Some (at_data (ae_text x))) offs = Ret (0, ae_data x))
   \<and> (\<forall>offs. get_variable_parameters J pi_device (Some (at_status (ae_text x))) offs = Ret (0, ae_status x))
   \<and> (\<forall>offs. get_variable_parameters J pi_device (Some (at_reset (ae_text x))) offs = Ret (0, ae_reset x))"

definition entry_action :: "action_entry \<Rightarrow> TModbusAction" where
  "entry_action x = action_of (ae_text x) (ae_data x) (ae_status x) (ae_reset x)"

text \<open>
  What the parser does to the process image for one entry: it clears the reset request, which is one
  bit of the byte when the bit offset that the document gives is below 8 and the whole byte when it
  is 8 or more, and then the status byte. The address of the reset request is taken modulo
  \<open>2 ^ 16\<close> and its bit modulo 256, as they are stored.
\<close>

definition clear_entry :: "action_entry \<Rightarrow> image \<Rightarrow> image" where
  "clear_entry x m =
     patch_image
       (let address = unat (fst (ae_reset x)) mod 2 ^ 16; position = unat (snd (ae_reset x)) mod 256
        in if position < 8 then m(address := unset_bit position (m address)) else m(address := 0))
       (unat (fst (ae_status x))) [0]"

lemma parse_action_entry:
  assumes "memory_keeps E img" "picontrol_laws E img" "image_available E"
    and "json_object_get_object J actions = Some es" "2 ^ 32 \<le> Suc (ULONG_MAX J)" "entry_ok J es pi_device name x"
  shows "wp (parse_action E J pi_device actions (Some (ae_ident x)))
     (\<lambda>r w'. r = Done (entry_action x) \<and> img w' = clear_entry x (img w)) w"
proof -
  have "unat (ucast (fst (ae_reset x)) :: u16) = unat (fst (ae_reset x)) mod 2 ^ 16"
    "unat (ucast (snd (ae_reset x)) :: u8) = unat (snd (ae_reset x)) mod 256"
    by (simp_all add: unsigned_ucast_eq take_bit_eq_mod)
  then have "clear_entry x m = patch_image (patch_value m (unat (ucast (fst (ae_reset x)) :: u16))
      (unat (ucast (snd (ae_reset x)) :: u8)) 0) (unat (fst (ae_status x))) [0]" for m
    by (simp add: clear_entry_def patch_value_def patch_bit_def Let_def)
  then show ?thesis
    using parse_action_described [OF assms(1-4), of "ae_ident x" "ae_text x" pi_device "ae_data x" "ae_status x" "ae_reset x" w]
      assms(5,6)
    by (simp add: entry_ok_def entry_action_def)
qed

lemma parse_action_entries_described:
  assumes E: "memory_keeps E img" "picontrol_laws E img" "image_available E"
    and J: "json_object_get_object J actions = Some es0" "2 ^ 32 \<le> Suc (ULONG_MAX J)"
    and "list_all2 (entry_ok J es0 pi_device) (filter (starts_with MODBUS_MASTER_ACTION_ID_KEY) (map fst es)) xs"
  shows "wp (parse_action_entries E J pi_device actions es ident n head)
     (\<lambda>r w'. r = (n + int (length xs), rev (map entry_action xs) @ head) \<and> img w' = fold clear_entry xs (img w)) w"
  using assms(6)
proof (induction es arbitrary: xs ident n head w)
  case Nil
  then show ?case by (simp add: wp_simps)
next
  case (Cons e es)
  have memory: "fst (malloc_ok E s)" "img (snd (malloc_ok E s)) = img s" for s
    using E(1) by (auto simp: memory_keeps_def)
  show ?case
  proof (cases "starts_with MODBUS_MASTER_ACTION_ID_KEY (fst e)")
    case True
    with Cons.prems obtain x xs' where xs: "xs = x # xs'" "entry_ok J es0 pi_device (fst e) x"
        "list_all2 (entry_ok J es0 pi_device) (filter (starts_with MODBUS_MASTER_ACTION_ID_KEY) (map fst es)) xs'"
      by (auto simp: list_all2_Cons1)
    have "wp (parse_action_entries E J pi_device actions es None (n + 1) (entry_action x # head))
        (\<lambda>r w'. r = (n + int (length xs), rev (map entry_action xs) @ head) \<and> img w' = fold clear_entry xs (img w)) w'"
      if "img w' = clear_entry x (img w)" for w'
      by (rule wp_mono [OF Cons.IH [OF xs(3)]]) (simp_all add: xs(1) that)
    moreover have "match_identifier (fst e) = Some (ae_ident x)"
      using xs(2) by (simp add: entry_ok_def)
    ultimately show ?thesis
      using True memory
      by (simp add: next_identifier_def wp_simps)
         (rule wp_mono [OF parse_action_entry [OF E J xs(2)]], simp add: memory)
  next
    case False
    with Cons show ?thesis by simp
  qed
qed

lemma parse_action_list_described:
  assumes "memory_keeps E img" "picontrol_laws E img" "image_available E"
    and "json_object_object_get_ex J pi_device ''extend'' = Some config_extend"
    and "json_object_object_get_ex J config_extend ''data'' = Some actions"
    and "json_object_get_object J actions = Some es" "2 ^ 32 \<le> Suc (ULONG_MAX J)" "pi_device \<noteq> None"
    and "list_all2 (entry_ok J es pi_device) (filter (starts_with MODBUS_MASTER_ACTION_ID_KEY) (map fst es)) xs"
  shows "wp (parse_modbus_master_action_list E J pi_device)
     (\<lambda>r w'. r = (int (length xs), rev (map entry_action xs)) \<and> img w' = fold clear_entry xs (img w)) w"
  using parse_action_entries_described [OF assms(1-3,6,7,9), of None 0 "[]" w] assms(4-6,8)
  by (simp add: parse_modbus_master_action_list_def wp_simps entries_of_def)

text \<open>
  C6: The list of actions of a master: when every entry whose name starts with \<open>ActionId\<close> carries an
  identifier under which an action within the limits is described, the parser returns the number of
  these entries and the list of their actions, the last entry first, with the numbers and places of
  each entry; and the image is what \<open>clear_entry\<close> makes of it, entry after entry: the status byte of
  the entry becomes 0, and its reset bit is cleared when the bit offset of the document is below 8;
  a bit offset of 8 or more, which the document has for the ninth and later of the reset bits, makes
  the whole byte at the byte offset 0. Nothing else is changed there.
\<close>

theorem action_list_parsed:
  assumes "memory_keeps E img" "picontrol_laws E img" "image_available E"
    and "json_object_object_get_ex J pi_device ''extend'' = Some config_extend"
    and "json_object_object_get_ex J config_extend ''data'' = Some actions"
    and "json_object_get_object J actions = Some es" "2 ^ 32 \<le> Suc (ULONG_MAX J)" "pi_device \<noteq> None"
    and "list_all2 (entry_ok J es pi_device) (filter (starts_with MODBUS_MASTER_ACTION_ID_KEY) (map fst es)) xs"
  shows "wp (parse_modbus_master_action_list E J pi_device)
     (\<lambda>r w'. r = (int (length xs), rev (map entry_action xs)) \<and> img w' = fold clear_entry xs (img w)) w"
  by (rule parse_action_list_described [OF assms])

section \<open>A demonstration master\<close>

definition demo_actions :: "(string \<times> json option) list" where
  "demo_actions =
     [(''ActionId_1_0'', Some (JString (decimal 65543))), (''SlaveAddress_1_0'', Some (JString (decimal 17))),
      (''FunctionCode_1_0'', Some (JString (decimal 1))), (''RegisterAddress_1_0'', Some (JString (decimal 100))),
      (''QuantityOfRegisters_1_0'', Some (JString (decimal 5))), (''ActionInterval_1_0'', Some (JString (decimal 50))),
      (''DeviceValue_1_0'', Some (JString ''In_1'')), (''ModbusActionStatus_1_0'', Some (JString ''Status'')),
      (''ActionStatusReset_1_0'', Some (JString ''Reset''))]"

definition demo_inputs :: "(string \<times> json option) list" where
  "demo_inputs = [variable ''In_1'' 1 0 11, variable ''Status'' 8 20 0]"

definition demo_outputs :: "(string \<times> json option) list" where
  "demo_outputs = [variable ''Reset'' 1 30 2]"

definition demo_master_with :: "(string \<times> json option) list \<Rightarrow> json option" where
  "demo_master_with acts = Some (JObject
     [(''productType'', Some (JString ''24579'')), (''offset'', Some (JInt 100)),
      (''mem'', Some (JObject [parameter ''0'' ''192.168.0.1'', parameter ''1'' (decimal 502)])),
      (''inp'', Some (JObject demo_inputs)), (''out'', Some (JObject demo_outputs)),
      (''extend'', Some (JObject [(''data'', Some (JObject acts)),
         (''deviceMisc'', Some (JObject [(''ModbusMasterStatus'', Some (JString ''Status''))]))]))])"

definition demo_master_device :: "json option" where
  "demo_master_device = demo_master_with demo_actions"

definition demo_text :: action_text where
  "demo_text = \<lparr>at_id = 65543, at_address = 17, at_function = 1, at_register = 100, at_quantity = 5, at_interval = 50,
     at_data = ''In_1'', at_status = ''Status'', at_reset = ''Reset''\<rparr>"

lemma demo_describes: "describes (doc_jsonc doc) demo_actions ''_1_'' demo_text"
  by (simp add: describes_def demo_text_def demo_actions_def action_keys starts_with_def memcmp_eq_def)

lemma demo_text_in_range: "text_in_range demo_text"
  by (simp add: text_in_range_def demo_text_def)

lemma demo_master_variables:
  "has_variables (doc_jsonc doc) (Some (JObject demo_inputs)) [(''In_1'', 0, 11), (''Status'', 20, 0)]"
  "has_variables (doc_jsonc doc) (Some (JObject demo_outputs)) [(''Reset'', 30, 2)]"
  using doc_variables(1) [of 0 11] doc_variables(1) [of 20 0] doc_variables(1) [of 30 2]
  by (simp_all add: has_variables_def demo_inputs_def demo_outputs_def)

lemma demo_master_place:
  "get_variable_parameters (doc_jsonc doc) (demo_master_with acts) (Some ''In_1'') offs = Ret (0, 100, 11)"
  "get_variable_parameters (doc_jsonc doc) (demo_master_with acts) (Some ''Status'') offs = Ret (0, 120, 0)"
  "get_variable_parameters (doc_jsonc doc) (demo_master_with acts) (Some ''Reset'') offs = Ret (0, 130, 2)"
proof -
  have d: "get_process_image_device_offset (doc_jsonc doc) (demo_master_with acts) = 100"
    "json_object_object_get_ex (doc_jsonc doc) (demo_master_with acts) ''inp'' = Some (Some (JObject demo_inputs))"
    "json_object_object_get_ex (doc_jsonc doc) (demo_master_with acts) ''out'' = Some (Some (JObject demo_outputs))"
    by (simp_all add: get_process_image_device_offset_def demo_master_with_def)
  note place = get_variable_parameters_of [OF doc_jsonc_laws _ d(2) demo_master_variables(1) d(3) demo_master_variables(2)]
  show "get_variable_parameters (doc_jsonc doc) (demo_master_with acts) (Some ''In_1'') offs = Ret (0, 100, 11)"
    "get_variable_parameters (doc_jsonc doc) (demo_master_with acts) (Some ''Status'') offs = Ret (0, 120, 0)"
    "get_variable_parameters (doc_jsonc doc) (demo_master_with acts) (Some ''Reset'') offs = Ret (0, 130, 2)"
    by (simp_all add: place d)
qed

lemma rich_laws: "picontrol_laws rich_env p_image" "image_available rich_env" "memory_keeps rich_env f"
  using plant_picontrol plant_available
  by (simp_all add: rich_env_def picontrol_laws_def image_available_def memory_keeps_def)

section \<open>Two actions\<close>

definition demo_entry :: "string \<Rightarrow> action_text \<Rightarrow> action_entry" where
  "demo_entry i t = \<lparr>ae_ident = i, ae_text = t, ae_data = (100, 11), ae_status = (120, 0), ae_reset = (130, 2)\<rparr>"

definition second_text :: action_text where
  "second_text = demo_text\<lparr>at_id := 8, at_function := 6, at_register := 200, at_quantity := 1\<rparr>"

definition two_actions :: "(string \<times> json option) list" where
  "two_actions = demo_actions @
     [(''ActionId_2_0'', Some (JString (decimal 8))), (''SlaveAddress_2_0'', Some (JString (decimal 17))),
      (''FunctionCode_2_0'', Some (JString (decimal 6))), (''RegisterAddress_2_0'', Some (JString (decimal 200))),
      (''QuantityOfRegisters_2_0'', Some (JString (decimal 1))), (''ActionInterval_2_0'', Some (JString (decimal 50))),
      (''DeviceValue_2_0'', Some (JString ''In_1'')), (''ModbusActionStatus_2_0'', Some (JString ''Status'')),
      (''ActionStatusReset_2_0'', Some (JString ''Reset''))]"

lemma two_describes:
  "describes (doc_jsonc doc) two_actions ''_1_'' demo_text" "describes (doc_jsonc doc) two_actions ''_2_'' second_text"
  by (simp_all add: describes_def second_text_def demo_text_def two_actions_def demo_actions_def action_keys
      starts_with_def memcmp_eq_def)

lemma second_text_in_range: "text_in_range second_text"
  by (simp add: text_in_range_def second_text_def demo_text_def)

lemma demo_entries:
  "list_all2 (entry_ok (doc_jsonc doc) demo_actions demo_master_device)
     (filter (starts_with MODBUS_MASTER_ACTION_ID_KEY) (map fst demo_actions)) [demo_entry ''_1_'' demo_text]"
  "list_all2 (entry_ok (doc_jsonc doc) two_actions (demo_master_with two_actions))
     (filter (starts_with MODBUS_MASTER_ACTION_ID_KEY) (map fst two_actions))
     [demo_entry ''_1_'' demo_text, demo_entry ''_2_'' second_text]"
proof -
  have keys: "filter (starts_with MODBUS_MASTER_ACTION_ID_KEY) (map fst demo_actions) = [''ActionId_1_0'']"
    "filter (starts_with MODBUS_MASTER_ACTION_ID_KEY) (map fst two_actions) = [''ActionId_1_0'', ''ActionId_2_0'']"
    by (simp_all add: two_actions_def demo_actions_def starts_with_def memcmp_eq_def action_keys)
  have names: "at_data demo_text = ''In_1''" "at_status demo_text = ''Status''" "at_reset demo_text = ''Reset''"
    "at_data second_text = ''In_1''" "at_status second_text = ''Status''" "at_reset second_text = ''Reset''"
    by (simp_all add: second_text_def demo_text_def)
  show "list_all2 (entry_ok (doc_jsonc doc) demo_actions demo_master_device)
     (filter (starts_with MODBUS_MASTER_ACTION_ID_KEY) (map fst demo_actions)) [demo_entry ''_1_'' demo_text]"
    by (simp add: keys entry_ok_def demo_entry_def demo_describes demo_text_in_range names demo_master_device_def
        demo_master_place)
  show "list_all2 (entry_ok (doc_jsonc doc) two_actions (demo_master_with two_actions))
     (filter (starts_with MODBUS_MASTER_ACTION_ID_KEY) (map fst two_actions))
     [demo_entry ''_1_'' demo_text, demo_entry ''_2_'' second_text]"
    by (simp add: keys entry_ok_def demo_entry_def two_describes demo_text_in_range second_text_in_range names
        demo_master_place)
qed

theorem action_list_parsed_witness:
  "\<exists>acts w'. parse_modbus_master_action_list rich_env (doc_jsonc (JObject [])) (demo_master_with two_actions) plant0
       = (Ret (2, acts), w')
     \<and> map i16uActionID acts = [8, 7] \<and> map eFunctionCode acts = [eWRITE_SINGLE_REGISTER, eREAD_COILS]
     \<and> map i32uInterval_us acts = [50000, 50000]
     \<and> map i32uStartByteProcessData acts = [100, 101] \<and> map i8uStartBitProcessData acts = [11, 3]"
proof -
  have "json_object_object_get_ex (doc_jsonc (JObject [])) (demo_master_with two_actions) ''extend''
      = Some (Some (JObject [(''data'', Some (JObject two_actions)),
         (''deviceMisc'', Some (JObject [(''ModbusMasterStatus'', Some (JString ''Status''))]))]))"
    by (simp add: demo_master_with_def)
  then have "wp (parse_modbus_master_action_list rich_env (doc_jsonc (JObject [])) (demo_master_with two_actions))
     (\<lambda>r _. r = (2, map entry_action [demo_entry ''_2_'' second_text, demo_entry ''_1_'' demo_text])) plant0"
    using demo_entries(2) [of "JObject []"]
    by (intro wp_mono [OF action_list_parsed [OF rich_laws(3,1,2), of "doc_jsonc (JObject [])" "demo_master_with two_actions"
          "Some (JObject [(''data'', Some (JObject two_actions)),
            (''deviceMisc'', Some (JObject [(''ModbusMasterStatus'', Some (JString ''Status''))]))])"
          "Some (JObject two_actions)" two_actions "[demo_entry ''_1_'' demo_text, demo_entry ''_2_'' second_text]"]])
      (simp_all add: demo_master_with_def)
  moreover have "EModbusFunction_of 1 = eREAD_COILS" "EModbusFunction_of 6 = eWRITE_SINGLE_REGISTER"
    by (simp_all add: EModbusFunction_of_def listed_functions_def)
  ultimately show ?thesis
    by (auto simp: wp_iff entry_action_def demo_entry_def action_of_def second_text_def demo_text_def Let_def)
qed

section \<open>Parameters of one action\<close>

lemma match_identifier_key:
  assumes "CHR ''_'' \<notin> set key" "CHR ''_'' \<notin> set x" "x \<noteq> []"
  shows "match_identifier (key @ ''_'' @ x @ ''_'' @ rest) = Some (''_'' @ x @ ''_'')"
  using assms(1)
proof (induction key)
  case Nil
  have "takeWhile (\<lambda>c. c \<noteq> CHR ''_'') (x @ CHR ''_'' # rest) = x"
    using assms(2) by (subst takeWhile_append2) auto
  moreover have "dropWhile (\<lambda>c. c \<noteq> CHR ''_'') (x @ CHR ''_'' # rest) = CHR ''_'' # rest"
    using assms(2) by (subst dropWhile_append2) auto
  ultimately show ?case
    using assms(3) by simp
qed auto

lemma search_parameter_found:
  "search_parameter J name es = Some s \<Longrightarrow>
   \<exists>k v. (k, v) \<in> set es \<and> starts_with name k \<and> json_object_get_string J v = Some s"
  by (induction es) (fastforce split: if_splits)+

lemma starts_with_append: "c_string name \<Longrightarrow> starts_with name k \<Longrightarrow> \<exists>rest. k = name @ rest"
  by (metis starts_with_def memcmp_eq_prefix append_take_drop_id)

definition action_key_list :: "string list" where
  "action_key_list = [MODBUS_MASTER_ACTION_ID_KEY, MODBUS_MASTER_SLAVE_ADDRESS_KEY, MODBUS_MASTER_FUNCTON_CODE_KEY,
     MODBUS_MASTER_REGISTER_ADDRESS_KEY, MODBUS_MASTER_QUANTITY_OF_REGISTERS_KEY, MODBUS_MASTER_ACTION_INTERVAL_KEY,
     MODBUS_MASTER_PROCESS_IMAGE_VARIABLE_NAME_KEY, MODBUS_MASTER_ACTION_STATUS_BYTE, MODBUS_MASTER_ACTION_STATUS_RESET]"

lemma action_key_chars: "key \<in> set action_key_list \<Longrightarrow> CHR ''_'' \<notin> set key \<and> c_string key"
  by (auto simp: action_key_list_def action_keys c_string_def)

text \<open>
  C29: Parameters are never mixed up between actions: when the identifier comes from the name of an
  entry, a parameter that is found belongs to an entry whose own identifier is the same, and it is
  the text of that entry.
\<close>

theorem parameter_of_own_action:
  assumes "key \<in> set action_key_list" "match_identifier action_name = Some i" "c_string action_name"
    and "json_object_get_object J actions = Some es"
    and "get_modbus_action_matching_name_string_value E J actions key (Some i) w = (Ret (Some s), w')"
  shows "\<exists>k v. (k, v) \<in> set es \<and> starts_with key k \<and> match_identifier k = Some i \<and> json_object_get_string J v = Some s"
proof -
  obtain x where x: "i = ''_'' @ x @ ''_''" "x \<noteq> []" "CHR ''_'' \<notin> set x" and i: "c_string i"
    using match_identifier_sound [OF assms(2)] assms(3) by (auto simp: c_string_def)
  have "search_parameter J (key @ i) es = Some s"
    using assms(4,5) by (auto simp: get_modbus_action_matching_name_string_value_def run_simps entries_of_def
        split: prod.splits if_splits)
  then obtain k v where kv: "(k, v) \<in> set es" "starts_with (key @ i) k" "json_object_get_string J v = Some s"
    using search_parameter_found by blast
  have "c_string (key @ i)"
    using action_key_chars [OF assms(1)] i by (simp add: c_string_def)
  then obtain rest where k: "k = (key @ i) @ rest"
    using starts_with_append [OF _ kv(2)] by blast
  have "match_identifier k = Some i"
    using match_identifier_key [OF _ x(3,2), of key rest] action_key_chars [OF assms(1)] by (simp add: k x(1))
  moreover have "starts_with key k"
    by (simp add: starts_with_def k memcmp_eq_def)
  ultimately show ?thesis
    using kv(1,3) by blast
qed

theorem parameter_of_own_action_witness:
  "\<exists>w'. get_modbus_action_matching_name_string_value rich_env (doc_jsonc (JObject [])) (Some (JObject demo_actions))
       MODBUS_MASTER_SLAVE_ADDRESS_KEY (Some ''_1_'') plant0 = (Ret (Some (decimal 17)), w')
     \<and> (\<exists>k v. (k, v) \<in> set demo_actions \<and> starts_with MODBUS_MASTER_SLAVE_ADDRESS_KEY k
          \<and> match_identifier k = Some ''_1_'' \<and> json_object_get_string (doc_jsonc (JObject [])) v = Some (decimal 17))"
proof -
  let ?J = "doc_jsonc (JObject [])"
  have "search_parameter ?J (MODBUS_MASTER_SLAVE_ADDRESS_KEY @ ''_1_'') demo_actions = Some (decimal 17)"
    using demo_describes by (simp add: describes_def demo_text_def)
  then have run: "get_modbus_action_matching_name_string_value rich_env ?J (Some (JObject demo_actions))
       MODBUS_MASTER_SLAVE_ADDRESS_KEY (Some ''_1_'') plant0 = (Ret (Some (decimal 17)), plant0)"
    by (simp add: get_modbus_action_matching_name_string_value_def run_simps entries_of_def rich_env_def)
  have "match_identifier ''ActionId_1_0'' = Some ''_1_''" "c_string ''ActionId_1_0''"
    by (simp_all add: c_string_def)
  then show ?thesis
    using parameter_of_own_action [OF _ _ _ _ run, of "''ActionId_1_0''" demo_actions] run
    by (auto simp: action_key_list_def)
qed

end
