(* ===== verification/Master_Documents.thy ===== *)
theory Master_Documents
  imports Action_Documents
begin

text \<open>
  What a whole document means to the master program: which of its devices are masters, which actions
  they have, and that \<open>parse_modbus_master_config_data\<close> yields exactly these masters.
\<close>

section \<open>Documents\<close>

definition master_product :: "string \<Rightarrow> bool" where
  "master_product t \<longleftrightarrow>
     product_matches t MODBUS_MASTER_TCP_PI_PRODUCT_TYPE \<or> product_matches t MODBUS_MASTER_RTU_PI_PRODUCT_TYPE"

text \<open>
  A master: its protocol parameters can be read, each entry \<open>ActionId\<close> of its section \<open>data\<close> describes
  an action, and \<open>dev\<close> is its configuration with the places named in the section \<open>deviceMisc\<close>.
\<close>

definition reads_master ::
  "'j jsonc \<Rightarrow> 'j option \<Rightarrow> TModbusDeviceConfiguration \<Rightarrow> action_entry list \<Rightarrow> bool" where
  "reads_master J pi_device dev xs \<longleftrightarrow>
     (\<exists>t conf config_extend actions es misc ms.
        get_device_product_type J pi_device = Inr (Some t) \<and> master_product t \<and> pi_device \<noteq> None
      \<and> parse_device_modbus_configuration J pi_device = Ret (Inr conf)
      \<and> json_object_object_get_ex J pi_device ''extend'' = Some config_extend
      \<and> json_object_object_get_ex J config_extend ''data'' = Some actions \<and> json_object_get_object J actions = Some es
      \<and> list_all2 (entry_ok J es pi_device) (filter (starts_with MODBUS_MASTER_ACTION_ID_KEY) (map fst es)) xs
      \<and> json_object_object_get_ex J config_extend ''deviceMisc'' = Some misc \<and> json_object_get_object J misc = Some ms
      \<and> parse_master_status J pi_device ms (0, 0) conf = Ret dev)"

text \<open>The meaning of a device: \<open>None\<close> when it is none of the masters.\<close>

definition reads_device ::
  "'j jsonc \<Rightarrow> 'j option \<Rightarrow> (TModbusDeviceConfiguration \<times> action_entry list) option \<Rightarrow> bool" where
  "reads_device J pi_device r =
     (case r of None \<Rightarrow> (\<exists>t. get_device_product_type J pi_device = Inr (Some t) \<and> \<not> master_product t)
      | Some (dev, xs) \<Rightarrow> reads_master J pi_device dev xs)"

definition master_of :: "TModbusDeviceConfiguration \<times> action_entry list \<Rightarrow> TModbusMasterConfiguration" where
  "master_of r = \<lparr>masterDeviceConfig = fst r, i32ActionCount = int (length (snd r)),
     mbActionListHead = rev (map entry_action (snd r))\<rparr>"

section \<open>Parsing\<close>

lemma parse_master_device:
  assumes "memory_keeps E img" "picontrol_laws E img" "image_available E" "2 ^ 32 \<le> Suc (ULONG_MAX J)"
    and "reads_master J d dev xs"
    and "\<And>w'. img w' = fold clear_entry xs (img w) \<Longrightarrow> wp (parse_master_devices E J devices (master_of (dev, xs) # head)) Q w'"
  shows "wp (parse_master_devices E J (d # devices) head) Q w"
proof -
  obtain t conf config_extend actions es misc ms where
    t: "get_device_product_type J d = Inr (Some t)" "master_product t" "d \<noteq> None"
      "parse_device_modbus_configuration J d = Ret (Inr conf)"
    and acts: "json_object_object_get_ex J d ''extend'' = Some config_extend"
      "json_object_object_get_ex J config_extend ''data'' = Some actions" "json_object_get_object J actions = Some es"
      "list_all2 (entry_ok J es d) (filter (starts_with MODBUS_MASTER_ACTION_ID_KEY) (map fst es)) xs"
    and misc: "json_object_object_get_ex J config_extend ''deviceMisc'' = Some misc" "json_object_get_object J misc = Some ms"
      "parse_master_status J d ms (0, 0) conf = Ret dev"
    using assms(5) unfolding reads_master_def by blast
  have memory: "fst (malloc_ok E w)" "img (snd (malloc_ok E w)) = img w"
    using assms(1) by (simp_all add: memory_keeps_def)
  show ?thesis
    using t(2)
    by (simp add: t(1,4) master_product_def not_null_def wp_simps memory(1))
       (rule wp_mono [OF parse_action_list_described [OF assms(1-3) acts(1-3) assms(4) t(3) acts(4)]],
        auto simp: acts(1) misc entries_of_def wp_simps memory(2) master_of_def intro!: assms(6) [unfolded master_of_def, simplified])
qed

lemma parse_other_device:
  "get_device_product_type J d = Inr (Some t) \<Longrightarrow> \<not> master_product t \<Longrightarrow>
   parse_master_devices E J (d # devices) head = parse_master_devices E J devices head"
  by (simp add: master_product_def not_null_def fun_eq_iff run_simps)

lemma parse_master_devices_described:
  assumes "memory_keeps E img" "picontrol_laws E img" "image_available E" "2 ^ 32 \<le> Suc (ULONG_MAX J)"
    and "list_all2 (reads_device J) devices rs"
  shows "wp (parse_master_devices E J devices head) (\<lambda>r w'. r = (0, rev (map master_of (List.map_filter id rs)) @ head)
     \<and> img w' = fold clear_entry (concat (map snd (List.map_filter id rs))) (img w)) w"
  using assms(5)
proof (induction devices arbitrary: rs head w)
  case Nil
  then show ?case by (simp add: wp_simps List.map_filter_simps)
next
  case (Cons d devices)
  then obtain r rs' where rs: "rs = r # rs'" "reads_device J d r" "list_all2 (reads_device J) devices rs'"
    by (auto simp: list_all2_Cons1)
  show ?case
  proof (cases r)
    case None
    then obtain t where "get_device_product_type J d = Inr (Some t)" "\<not> master_product t"
      using rs(2) by (auto simp: reads_device_def)
    then show ?thesis
      unfolding parse_other_device [OF \<open>get_device_product_type J d = Inr (Some t)\<close> \<open>\<not> master_product t\<close>] rs(1) None
      using Cons.IH [OF rs(3)] by (simp add: List.map_filter_simps)
  next
    case (Some m)
    then have "reads_master J d (fst m) (snd m)"
      using rs(2) by (simp add: reads_device_def case_prod_unfold)
    then show ?thesis
      unfolding rs(1) Some
      by (rule parse_master_device [OF assms(1-4)])
         (rule wp_mono [OF Cons.IH [OF rs(3)]], simp_all add: List.map_filter_simps)
  qed
qed

lemma masters_described:
  assumes "memory_keeps E img" "picontrol_laws E img" "image_available E" "2 ^ 32 \<le> Suc (ULONG_MAX J)"
    and "get_json_devices_array J text = Inr a" "list_all2 (reads_device J) (array_devices J a) rs"
  shows "wp (parse_modbus_master_config_data E J text head) (\<lambda>r w'.
       r = (0, rev (map master_of (List.map_filter id rs)) @ head)
     \<and> img w' = fold clear_entry (concat (map snd (List.map_filter id rs))) (img w)) w"
  using parse_master_devices_described [OF assms(1-4,6)]
  by (simp add: parse_modbus_master_config_data_def assms(5))

section \<open>A demonstration master\<close>

lemma rich_malloc [simp]: "malloc_ok rich_env w = (True, w)"
  by (simp add: rich_env_def)

definition demo_device :: TModbusDeviceConfiguration where
  "demo_device = \<lparr>eProtocol = eProtTCP,
     uProt = tTcpConfig \<lparr>szTcpIpAddress = ''192.168.0.1'', i32uPort = 502, maxModbusConnections = 0\<rparr>,
     i32uDeviceStatusByteProcessImageOffset = 120, i32uDeviceStatusResetByteProcessImageByteOffset = 0\<rparr>"

lemma demo_device_read:
  "parse_device_modbus_configuration (doc_jsonc doc) (demo_master_with acts) = Ret (Inr (device_configuration eProtTCP
      (tTcpConfig \<lparr>szTcpIpAddress = ''192.168.0.1'', i32uPort = 502, maxModbusConnections = 0\<rparr>)))"
proof -
  let ?J = "doc_jsonc doc" and ?mem = "Some (JObject [parameter ''0'' ''192.168.0.1'', parameter ''1'' (decimal 502)])"
  have "get_device_string_parameter ?J ?mem ''0'' = Some ''192.168.0.1''"
    "get_device_string_parameter ?J ?mem ''1'' = Some (decimal 502)"
    by (simp_all add: get_device_string_parameter_def parameter_def array_positions)
  then have "tcp_master_configuration ?J ?mem
      = Inr \<lparr>szTcpIpAddress = ''192.168.0.1'', i32uPort = 502, maxModbusConnections = 0\<rparr>"
    by (simp add: tcp_master_configuration_def get_device_number_decimal INET_ADDRSTRLEN_def UINTMAX_MAX_def USHRT_MAX_def)
  then show ?thesis
    by (simp add: parse_device_modbus_configuration_def demo_master_with_def not_null_def product_matches_def
        memcmp_eq_def product_types)
qed

lemma demo_reads_master:
  assumes "list_all2 (entry_ok (doc_jsonc doc) acts (demo_master_with acts))
     (filter (starts_with MODBUS_MASTER_ACTION_ID_KEY) (map fst acts)) xs"
  shows "reads_device (doc_jsonc doc) (demo_master_with acts) (Some (demo_device, xs))"
proof -
  let ?J = "doc_jsonc doc" and ?misc = "[(''ModbusMasterStatus'', Some (JString ''Status''))]"
  let ?ext = "Some (JObject [(''data'', Some (JObject acts)), (''deviceMisc'', Some (JObject ?misc))])"
  have "get_device_product_type ?J (demo_master_with acts) = Inr (Some ''24579'')" "master_product ''24579''"
    "json_object_object_get_ex ?J (demo_master_with acts) ''extend'' = Some ?ext" "demo_master_with acts \<noteq> None"
    "json_object_object_get_ex ?J ?ext ''data'' = Some (Some (JObject acts))"
    "json_object_object_get_ex ?J ?ext ''deviceMisc'' = Some (Some (JObject ?misc))"
    "json_object_get_object ?J (Some (JObject es)) = Some es" for es
    by (simp_all add: get_device_product_type_def demo_master_with_def master_product_def product_matches_def
        memcmp_eq_def product_types)
  moreover have "parse_master_status ?J (demo_master_with acts) ?misc (0, 0) (device_configuration eProtTCP
      (tTcpConfig \<lparr>szTcpIpAddress = ''192.168.0.1'', i32uPort = 502, maxModbusConnections = 0\<rparr>)) = Ret demo_device"
    by (simp add: demo_master_place starts_with_def memcmp_eq_def MODBUS_MASTER_MASTER_STATUS_BYTE_def demo_device_def
        device_configuration_def)
  ultimately show ?thesis
    using assms demo_device_read [of doc acts] unfolding reads_device_def reads_master_def by fastforce
qed

definition demo_parsed_master :: TModbusMasterConfiguration where
  "demo_parsed_master = \<lparr>masterDeviceConfig = \<lparr>eProtocol = eProtTCP,
       uProt = tTcpConfig \<lparr>szTcpIpAddress = ''192.168.0.1'', i32uPort = 502, maxModbusConnections = 0\<rparr>,
       i32uDeviceStatusByteProcessImageOffset = 120, i32uDeviceStatusResetByteProcessImageByteOffset = 0\<rparr>,
     i32ActionCount = 1, mbActionListHead = [action_of demo_text (100, 11) (120, 0) (130, 2)]\<rparr>"

lemma demo_master_of: "master_of (demo_device, [demo_entry ''_1_'' demo_text]) = demo_parsed_master"
  by (simp add: master_of_def demo_parsed_master_def demo_device_def entry_action_def demo_entry_def)

definition demo_masters :: json where
  "demo_masters = JObject [(''Devices'', Some (JArray [demo_master_device]))]"

lemma demo_masters_read:
  "get_json_devices_array (doc_jsonc demo_masters) chars = Inr [demo_master_device]"
  "list_all2 (reads_device (doc_jsonc demo_masters)) (array_devices (doc_jsonc demo_masters) [demo_master_device])
     [Some (demo_device, [demo_entry ''_1_'' demo_text])]"
proof -
  have "array_devices (doc_jsonc demo_masters) [demo_master_device] = [demo_master_device]"
    by (simp add: array_devices_def)
  moreover have "reads_device (doc_jsonc demo_masters) demo_master_device (Some (demo_device, [demo_entry ''_1_'' demo_text]))"
    using demo_reads_master [of demo_masters demo_actions] demo_entries(1) by (simp add: demo_master_device_def)
  ultimately show "list_all2 (reads_device (doc_jsonc demo_masters)) (array_devices (doc_jsonc demo_masters) [demo_master_device])
     [Some (demo_device, [demo_entry ''_1_'' demo_text])]"
    by simp
qed (simp add: get_json_devices_array_def demo_masters_def)

lemma demo_parse_masters:
  "wp (parse_modbus_master_config_data rich_env (doc_jsonc demo_masters) chars []) (\<lambda>r _. r = (0, [demo_parsed_master])) w"
  by (rule wp_mono [OF masters_described [OF rich_laws(3,1,2) _ demo_masters_read]])
     (auto simp: List.map_filter_simps demo_master_of)

section \<open>Properties\<close>

text \<open>
  C5: The list of masters of a document: every device whose product type is one of the masters, with
  its protocol parameters, the places of its status and the actions that its entries describe, is in
  the list, the last one first, and no other device is; the parser returns 0, and the process image
  is the one before with \<open>clear_entry\<close> applied for each action of each of these masters, in the order
  of the document: its status byte becomes 0, and so does its reset bit, or the whole byte at the byte
  offset of its reset request when the bit offset in the document is 8 or more.
\<close>

theorem masters_parsed:
  assumes "memory_keeps E img" "picontrol_laws E img" "image_available E" "2 ^ 32 \<le> Suc (ULONG_MAX J)"
    and "get_json_devices_array J text = Inr a" "list_all2 (reads_device J) (array_devices J a) rs"
  shows "wp (parse_modbus_master_config_data E J text head) (\<lambda>r w'.
       r = (0, rev (map master_of (List.map_filter id rs)) @ head)
     \<and> img w' = fold clear_entry (concat (map snd (List.map_filter id rs))) (img w)) w"
  by (rule masters_described [OF assms])

definition mixed_document :: json where
  "mixed_document = JObject [(''Devices'', Some (JArray
     [demo_master_device, demo_slave_device, demo_master_with two_actions]))]"

theorem masters_parsed_witness:
  "\<exists>m m' w'. parse_modbus_master_config_data rich_env (doc_jsonc mixed_document) [] [] plant0 = (Ret (0, [m, m']), w')
     \<and> i32ActionCount m = 2 \<and> map i16uActionID (mbActionListHead m) = [8, 7]
     \<and> i32ActionCount m' = 1 \<and> p_image w' 120 = 0"
proof -
  let ?J = "doc_jsonc mixed_document"
  let ?rs = "[Some (demo_device, [demo_entry ''_1_'' demo_text]), None,
     Some (demo_device, [demo_entry ''_1_'' demo_text, demo_entry ''_2_'' second_text])]"
  have devices: "get_json_devices_array ?J [] = Inr [demo_master_device, demo_slave_device, demo_master_with two_actions]"
    "array_devices ?J [demo_master_device, demo_slave_device, demo_master_with two_actions]
       = [demo_master_device, demo_slave_device, demo_master_with two_actions]"
    by (simp_all add: get_json_devices_array_def mixed_document_def array_devices_def upt_rec numeral_3_eq_3)
  have "reads_device ?J demo_slave_device None"
    by (simp add: reads_device_def get_device_product_type_def demo_slave_device_def master_product_def
        product_matches_def memcmp_eq_def product_types)
  then have "list_all2 (reads_device ?J) (array_devices ?J [demo_master_device, demo_slave_device, demo_master_with two_actions]) ?rs"
    unfolding devices(2) using demo_reads_master [OF demo_entries(2), of mixed_document]
      demo_reads_master [of mixed_document demo_actions] demo_entries(1) [of mixed_document]
    by (simp add: demo_master_device_def)
  from masters_parsed [OF rich_laws(3,1,2) _ devices(1) this, of "[]" plant0] show ?thesis
    by (auto simp: wp_iff List.map_filter_simps master_of_def entry_action_def demo_entry_def action_of_def demo_text_def
        second_text_def clear_entry_def patch_image_def Let_def)
qed

text \<open>
  C8: Every master in the list holds as many actions as it counts, each of them with a start register,
  a register count, an interval, a function code and a start bit in range, and a device
  configuration in range.
\<close>

theorem masters_in_range:
  assumes "parse_modbus_master_config_data E J text head w = (Ret (rc, masters), w')"
    and "\<forall>c \<in> set head. master_in_range J c"
  shows "\<forall>c \<in> set masters. master_in_range J c"
proof (cases "get_json_devices_array J text")
  case Inl
  then show ?thesis
    using assms by (simp add: parse_modbus_master_config_data_def run_simps)
next
  case (Inr a)
  then show ?thesis
    using wlpD [OF parse_master_devices_range [OF assms(2)], of E "array_devices J a" w] assms(1)
    by (simp add: parse_modbus_master_config_data_def)
qed

theorem masters_in_range_witness:
  "\<exists>w'. parse_modbus_master_config_data rich_env (doc_jsonc demo_masters) [] [] plant0 = (Ret (0, [demo_parsed_master]), w')
     \<and> master_in_range (doc_jsonc demo_masters) demo_parsed_master"
proof -
  obtain w' where run: "parse_modbus_master_config_data rich_env (doc_jsonc demo_masters) [] [] plant0
      = (Ret (0, [demo_parsed_master]), w')"
    using demo_parse_masters [of "[]" plant0] by (auto simp: wp_iff)
  show ?thesis
    using masters_in_range [OF run] run by simp
qed

end
