(* ===== verification/Main_Programs.thy ===== *)
theory Main_Programs
  imports Config_File Master_Documents
begin

text \<open>
  The two main programs, \<^verbatim>\<open>src/src/piModbusMaster.c\<close> and \<^verbatim>\<open>src/src/piModbusSlave.c\<close>, as step
  functions on the phases of their endless loop: read the configuration and start one thread per
  device, wait for the reset of the process image driver, cancel the threads and start again.
\<close>

section \<open>Threads\<close>

datatype start_routine = StartRtuMasterThread | StartTcpMasterThread | StartRtuSlaveThread | StartTcpSlaveThread

text \<open>
  \<open>pthread_create\<close> gets the start routine and the configuration that the thread's argument points
  to; it yields the return code and the value that the handle has afterwards, which is undefined when
  the creation fails. 0 is the value that the programs use for no thread.
\<close>

record ('w, 'c) pthreads =
  pthread_create :: "start_routine \<Rightarrow> 'c \<Rightarrow> 'w \<Rightarrow> (int \<times> nat) \<times> 'w"
  pthread_cancel :: "nat \<Rightarrow> 'w \<Rightarrow> int \<times> 'w"

section \<open>The master program\<close>

definition master_routine :: "TModbusMasterConfiguration \<Rightarrow> start_routine" where
  "master_routine config = (case eProtocol (masterDeviceConfig config) of
     eProtRTU \<Rightarrow> StartRtuMasterThread | eProtTCP \<Rightarrow> StartTcpMasterThread)"

text \<open>
  One handle per configuration, in the order of the list. A failed creation is only logged, and the
  handle stays whatever the call has made of it.
\<close>

primrec start_master_threads ::
  "('w, TModbusMasterConfiguration) pthreads \<Rightarrow> TModbusMasterConfiguration list \<Rightarrow> ('w, nat list) prog" where
  "start_master_threads P [] = ret []"
| "start_master_threads P (config # configs) =
     bindM (ext (pthread_create P (master_routine config) config)) (\<lambda>(rc, handle).
     bindM (start_master_threads P configs) (\<lambda>handles. ret (handle # handles)))"

primrec cancel_master_threads :: "('w, 'c) pthreads \<Rightarrow> nat list \<Rightarrow> ('w, unit) prog" where
  "cancel_master_threads P [] = ret ()"
| "cancel_master_threads P (handle # handles) =
     seqM (if handle \<noteq> 0 then seqM (ext (pthread_cancel P handle)) (ret ()) else ret ())
     (cancel_master_threads P handles)"

record master_main =
  masterConfHead :: "TModbusMasterConfiguration list"
  masterThreads :: "nat list"
  masterConfigData :: "string option"

text \<open>
  \<open>Master_parse\<close> is the top of the loop, with the memory of the configuration that the previous
  round has given back; \<open>Master_wait\<close> the wait for an event.
\<close>

datatype master_phase = Master_parse "config_block list" | Master_wait master_main

definition master_main_parse ::
  "'w env \<Rightarrow> 'w stdio \<Rightarrow> 'j jsonc \<Rightarrow> ('w, TModbusMasterConfiguration) pthreads \<Rightarrow> ('w, master_phase) prog" where
  "master_main_parse E F J P =
     bindM (get_master_device_config_list E F J []) (\<lambda>(config_data, configs).
     bindM (if configs = [] then ret []
            else bindM (ext (malloc_ok E)) (\<lambda>ok. if ok then start_master_threads P configs else faultM)) (\<lambda>handles.
     ret (Master_wait \<lparr>masterConfHead = configs, masterThreads = handles, masterConfigData = config_data\<rparr>)))"

definition master_main_wait ::
  "'w env \<Rightarrow> ('w, TModbusMasterConfiguration) pthreads \<Rightarrow> master_main \<Rightarrow> ('w, master_phase) prog" where
  "master_main_wait E P m =
     bindM (ext (piControlWaitForEvent E)) (\<lambda>event.
     if event \<noteq> KB_EVENT_RESET E then ret (Master_wait m)
     else if masterConfHead m = [] then ret (Master_parse [])
     else seqM (cancel_master_threads P (masterThreads m))
          (ret (Master_parse (free_modbus_master_config_data (masterConfHead m)))))"

fun piModbusMaster ::
  "'w env \<Rightarrow> 'w stdio \<Rightarrow> 'j jsonc \<Rightarrow> ('w, TModbusMasterConfiguration) pthreads \<Rightarrow> master_phase
     \<Rightarrow> ('w, master_phase) prog" where
  "piModbusMaster E F J P (Master_parse freed) = master_main_parse E F J P"
| "piModbusMaster E F J P (Master_wait m) = master_main_wait E P m"

section \<open>The slave program\<close>

definition slave_routine :: "TModbusSlaveConfiguration \<Rightarrow> start_routine" where
  "slave_routine config = (case eProtocol (slaveDeviceConfig config) of
     eProtRTU \<Rightarrow> StartRtuSlaveThread | eProtTCP \<Rightarrow> StartTcpSlaveThread)"

text \<open>Here the handle of a thread that cannot be created is set to 0.\<close>

primrec start_slave_threads ::
  "('w, TModbusSlaveConfiguration) pthreads \<Rightarrow> TModbusSlaveConfiguration list \<Rightarrow> ('w, nat list) prog" where
  "start_slave_threads P [] = ret []"
| "start_slave_threads P (config # configs) =
     bindM (ext (pthread_create P (slave_routine config) config)) (\<lambda>(rc, handle).
     bindM (start_slave_threads P configs) (\<lambda>handles. ret ((if rc \<noteq> 0 then 0 else handle) # handles)))"

text \<open>Every handle is cancelled; cancelling what is not a thread is a fault.\<close>

primrec cancel_slave_threads :: "('w, 'c) pthreads \<Rightarrow> nat list \<Rightarrow> ('w, unit) prog" where
  "cancel_slave_threads P [] = ret ()"
| "cancel_slave_threads P (handle # handles) =
     seqM (if handle = 0 then faultM else seqM (ext (pthread_cancel P handle)) (ret ()))
     (cancel_slave_threads P handles)"

record slave_main =
  slaveConfHead :: "TModbusSlaveConfiguration list"
  slaveThreads :: "nat list"
  slaveConfigData :: "string option"

datatype slave_phase = Slave_parse "TModbusSlaveConfiguration list" | Slave_wait slave_main | Slave_exit int

definition ENOMEM :: int where "ENOMEM = 12"

definition slave_main_parse ::
  "'w env \<Rightarrow> 'w stdio \<Rightarrow> 'j jsonc \<Rightarrow> ('w, TModbusSlaveConfiguration) pthreads \<Rightarrow> ('w, slave_phase) prog" where
  "slave_main_parse E F J P =
     bindM (get_slave_device_config_list E F J []) (\<lambda>(config_data, configs).
     if configs = [] then
       ret (Slave_wait \<lparr>slaveConfHead = [], slaveThreads = [], slaveConfigData = config_data\<rparr>)
     else bindM (ext (malloc_ok E)) (\<lambda>ok.
       if \<not> ok then ret (Slave_exit ENOMEM)
       else bindM (start_slave_threads P configs) (\<lambda>handles.
         ret (Slave_wait \<lparr>slaveConfHead = configs, slaveThreads = handles, slaveConfigData = config_data\<rparr>))))"

primrec free_slave_config_data :: "TModbusSlaveConfiguration list \<Rightarrow> TModbusSlaveConfiguration list" where
  "free_slave_config_data [] = []"
| "free_slave_config_data (entry # entries) = entry # free_slave_config_data entries"

definition slave_main_wait ::
  "'w env \<Rightarrow> ('w, TModbusSlaveConfiguration) pthreads \<Rightarrow> slave_main \<Rightarrow> ('w, slave_phase) prog" where
  "slave_main_wait E P m =
     bindM (ext (piControlWaitForEvent E)) (\<lambda>event.
     if event \<noteq> KB_EVENT_RESET E then ret (Slave_wait m)
     else if slaveConfHead m = [] then ret (Slave_parse [])
     else seqM (cancel_slave_threads P (slaveThreads m))
          (ret (Slave_parse (free_slave_config_data (slaveConfHead m)))))"

fun piModbusSlave ::
  "'w env \<Rightarrow> 'w stdio \<Rightarrow> 'j jsonc \<Rightarrow> ('w, TModbusSlaveConfiguration) pthreads \<Rightarrow> slave_phase
     \<Rightarrow> ('w, slave_phase) prog" where
  "piModbusSlave E F J P (Slave_parse freed) = slave_main_parse E F J P"
| "piModbusSlave E F J P (Slave_wait m) = slave_main_wait E P m"
| "piModbusSlave E F J P (Slave_exit rc) = ret (Slave_exit rc)"

section \<open>Properties\<close>

text \<open>
  A record \<open>running\<close> of the threads in the world: a creation that succeeds adds the handle with the
  start routine and its argument, one that fails adds nothing and may leave anything in the handle;
  asking a thread to cancel itself does not take it away, since \<^verbatim>\<open>pthread_cancel\<close> does not wait. What is
  said of the record is that a thread was started as it tells. Whether the thread has ended since then,
  which any thread may do at any time, is not part of it.
\<close>

definition thread_laws :: "('w, 'c) pthreads \<Rightarrow> ('w \<Rightarrow> (nat \<times> start_routine \<times> 'c) set) \<Rightarrow> bool" where
  "thread_laws P running \<longleftrightarrow>
     (\<forall>r c w. case pthread_create P r c w of ((rc, h), w') \<Rightarrow>
        running w' = (if rc = 0 then insert (h, r, c) (running w) else running w))
   \<and> (\<forall>h w. running (snd (pthread_cancel P h w)) = running w)"

text \<open>Every thread asked for can be created: no limit of the system is reached.\<close>

definition creation_succeeds :: "('w, 'c) pthreads \<Rightarrow> bool" where
  "creation_succeeds P \<longleftrightarrow> (\<forall>r c w. fst (fst (pthread_create P r c w)) = 0)"

text \<open>Nothing else that the programs call starts a thread.\<close>

definition threads_kept :: "'w env \<Rightarrow> 'w stdio \<Rightarrow> ('w \<Rightarrow> 'v) \<Rightarrow> bool" where
  "threads_kept E F running \<longleftrightarrow>
     parser_keeps E running \<and> files_keep F running \<and> (\<forall>w. running (snd (piControlWaitForEvent E w)) = running w)"

definition served :: "('w \<Rightarrow> (nat \<times> start_routine \<times> 'c) set) \<Rightarrow> ('c \<Rightarrow> start_routine) \<Rightarrow> 'w \<Rightarrow> nat \<Rightarrow> 'c \<Rightarrow> bool" where
  "served running routine w h c \<longleftrightarrow> (h, routine c, c) \<in> running w"

lemma served_cong: "running w' = running w \<Longrightarrow> served running routine w' = served running routine w"
  by (simp add: served_def fun_eq_iff)

lemma pthread_create_served:
  assumes "thread_laws P running" "pthread_create P r c w = ((rc, h), w1)"
  shows "running w \<subseteq> running w1 \<and> (rc = 0 \<longrightarrow> (h, r, c) \<in> running w1)"
proof -
  have "case pthread_create P r c w of ((rc, h), w') \<Rightarrow>
        running w' = (if rc = 0 then insert (h, r, c) (running w) else running w)"
    using assms(1) by (simp add: thread_laws_def)
  then show ?thesis by (auto simp: assms(2) split: if_splits)
qed

lemma pthread_create_succeeds: "creation_succeeds P \<Longrightarrow> pthread_create P r c w = ((rc, h), w1) \<Longrightarrow> rc = 0"
  unfolding creation_succeeds_def by (metis fst_conv)

lemma start_master_threads_served:
  assumes "thread_laws P running" "creation_succeeds P"
  shows "wlp (start_master_threads P configs) (\<lambda>hs w'. running w \<subseteq> running w'
     \<and> list_all2 (served running master_routine w') hs configs) w"
proof (induction configs arbitrary: w)
  case (Cons c configs)
  obtain rc h w1 where 1: "pthread_create P (master_routine c) c w = ((rc, h), w1)" by (metis prod.collapse)
  note pthread_create_served [OF assms(1) 1] pthread_create_succeeds [OF assms(2) 1]
  then show ?case
    by (auto simp: wp_simps 1 served_def intro!: wlp_mono [OF Cons.IH])
qed (simp add: wp_simps)

lemma cancel_master_threads_running:
  assumes "thread_laws P running"
  shows "wp (cancel_master_threads P hs) (\<lambda>_ w'. running w' = running w) w"
proof (induction hs arbitrary: w)
  case (Cons h hs)
  have "running (snd (pthread_cancel P h w)) = running w"
    using assms by (simp add: thread_laws_def)
  then show ?case
    using Cons by (simp add: wp_simps) (metis Cons.IH)
qed (simp add: wp_simps)

text \<open>
  What the master program has in the wait for an event. Since it does not reset the handle of a thread
  that could not be created, the handles mean something only when every creation succeeds.
\<close>

definition master_main_ok ::
  "'j jsonc \<Rightarrow> ('w, TModbusMasterConfiguration) pthreads
     \<Rightarrow> ('w \<Rightarrow> (nat \<times> start_routine \<times> TModbusMasterConfiguration) set) \<Rightarrow> master_phase \<Rightarrow> 'w \<Rightarrow> bool" where
  "master_main_ok J P running p w = (case p of Master_parse _ \<Rightarrow> True
     | Master_wait m \<Rightarrow>
         (creation_succeeds P \<longrightarrow> list_all2 (served running master_routine w) (masterThreads m) (masterConfHead m))
         \<and> (\<forall>c \<in> set (masterConfHead m). master_in_range J c))"

lemma master_main_ok_parse [simp]: "master_main_ok J P running (Master_parse freed) w"
  by (simp add: master_main_ok_def)

lemma get_master_list_range:
  "wlp (get_master_device_config_list E F J []) (\<lambda>(_, configs) _. \<forall>c \<in> set configs. master_in_range J c) w"
proof -
  have "wlp (parse_modbus_master_config_data E J chars []) (\<lambda>r _. \<forall>c \<in> set (snd r). master_in_range J c) s" for chars s
    by (auto simp: parse_modbus_master_config_data_def wp_simps wlp_cases parse_master_devices_range split: sum.splits)
  then show ?thesis
    by (auto simp: get_master_device_config_list_def wp_simps case_prod_unfold intro!: wlp_True split: option.splits)
qed

lemma master_main_step_ok:
  assumes "thread_laws P running" "threads_kept E F running" "master_main_ok J P running p w"
  shows "wlp (piModbusMaster E F J P p) (master_main_ok J P running) w"
proof (cases p)
  case (Master_parse freed)
  have started: "wlp (start_master_threads P configs) (\<lambda>hs w'. creation_succeeds P \<longrightarrow>
      list_all2 (served running master_routine w') hs configs) s" for configs s
  proof (cases "creation_succeeds P")
    case True
    show ?thesis by (rule wlp_mono [OF start_master_threads_served [OF assms(1) True]]) simp
  qed (simp add: wlp_True)
  show ?thesis
    unfolding Master_parse piModbusMaster.simps master_main_parse_def wp_simps
    by (rule wlp_mono [OF get_master_list_range])
       (auto simp: wp_simps master_main_ok_def intro!: wlp_mono [OF started])
next
  case (Master_wait m)
  have ev: "running (snd (piControlWaitForEvent E w)) = running w"
    using assms(2) by (simp add: threads_kept_def)
  show ?thesis
    using assms(3)
    by (auto simp: Master_wait master_main_wait_def wp_simps master_main_ok_def served_cong [of running _ w, OF ev] intro: wlp_True)
qed

lemma master_main_inv:
  assumes "thread_laws P running" "threads_kept E F running"
    and "thread_reach (piModbusMaster E F J P) (Master_parse []) w0 p w"
  shows "master_main_ok J P running p w"
  by (rule thread_reach_inv [OF assms(3)]) (simp_all add: master_main_step_ok [OF assms(1,2)])

section \<open>From the document to the threads\<close>

lemma start_master_threads_returns: "wp (start_master_threads P configs) (\<lambda>_ _. True) w"
  by (induction configs arbitrary: w) (auto simp: wp_simps elim: wp_mono)

lemma configured_masters:
  assumes "memory_keeps E img" "picontrol_laws E img" "image_available E" "2 ^ 32 \<le> Suc (ULONG_MAX J)"
    and "read_config_file E F w = (Ret (Some text), w1)"
    and "get_json_devices_array J text = Inr a" "list_all2 (reads_device J) (array_devices J a) rs"
  shows "wp (get_master_device_config_list E F J [])
     (\<lambda>r _. r = (Some text, rev (map master_of (List.map_filter id rs)))
        \<and> (\<forall>c \<in> set (map master_of (List.map_filter id rs)). master_in_range J c)) w"
proof -
  have "wp (get_master_device_config_list E F J [])
     (\<lambda>r _. r = (Some text, rev (map master_of (List.map_filter id rs)))) w"
    using masters_described [OF assms(1-4,6,7), of "[]" w1] assms(5)
    by (auto simp: get_master_device_config_list_def wp_simps wp_def run_simps split: outcome.splits prod.splits)
  from wp_conj [OF this get_master_list_range] show ?thesis
    by (rule wp_mono) auto
qed

lemma configured_masters_started:
  assumes "memory_keeps E img" "picontrol_laws E img" "image_available E" "2 ^ 32 \<le> Suc (ULONG_MAX J)"
    and "read_config_file E F w = (Ret (Some text), w1)"
    and "get_json_devices_array J text = Inr a" "list_all2 (reads_device J) (array_devices J a) rs"
    and "thread_laws P running" "creation_succeeds P"
  shows "wp (piModbusMaster E F J P (Master_parse freed)) (\<lambda>p w'. \<exists>m. p = Master_wait m
     \<and> masterConfHead m = rev (map master_of (List.map_filter id rs))
     \<and> (\<forall>c \<in> set (map master_of (List.map_filter id rs)). master_in_range J c)
     \<and> list_all2 (served running master_routine w') (masterThreads m) (masterConfHead m)) w"
proof -
  have memory: "fst (malloc_ok E s)" for s
    using assms(1) by (simp add: memory_keeps_def)
  have "wp (start_master_threads P configs) (\<lambda>hs w'. list_all2 (served running master_routine w') hs configs) s" for configs s
    by (rule wp_mono [OF wp_conj [OF start_master_threads_returns start_master_threads_served [OF assms(8,9)]]]) simp
  then show ?thesis
    unfolding piModbusMaster.simps master_main_parse_def wp_bind
    by (intro wp_mono [OF configured_masters [OF assms(1-7)]])
       (auto simp: wp_simps memory elim!: wp_mono)
qed

section \<open>A demonstration cluster\<close>

text \<open>The plant with a table of threads; a stream delivers five characters.\<close>

record 'c cluster = plant +
  k_threads :: "(nat \<times> start_routine \<times> 'c) list"

definition fresh_handle :: "(nat \<times> start_routine \<times> 'c) list \<Rightarrow> nat" where
  "fresh_handle ts = Suc (length ts)"

definition cluster_threads :: "('c cluster, 'c) pthreads" where
  "cluster_threads = \<lparr>
     pthread_create = (\<lambda>r c w. ((0, fresh_handle (k_threads w)),
       w\<lparr>k_threads := (fresh_handle (k_threads w), r, c) # k_threads w\<rparr>)),
     pthread_cancel = (\<lambda>h w. (0, w))\<rparr>"

definition demo_stdio :: "'w stdio" where
  "demo_stdio = \<lparr>PICONFIG_FILE = ''/etc/revpi/config.rsc'', PICONFIG_FILE_WHEEZY = ''/opt/KUNBUS/config.rsc'',
     fopen = (\<lambda>p w. (Some 7, w)), fseek_end = (\<lambda>h w. (0, w)), fseek_set = (\<lambda>h w. (0, w)), ftell = (\<lambda>h w. (5, w)),
     fread = (\<lambda>h n w. (''{abc}'', w)), fclose = (\<lambda>h w. ((), w))\<rparr>"

definition cluster0 :: "'c cluster" where
  "cluster0 = plant.extend plant0 \<lparr>k_threads = []\<rparr>"

lemma cluster_thread_laws: "thread_laws cluster_threads (\<lambda>w. set (k_threads w))"
  by (simp add: thread_laws_def cluster_threads_def fresh_handle_def)

lemma cluster_creation_succeeds: "creation_succeeds cluster_threads"
  by (simp add: creation_succeeds_def cluster_threads_def)

lemma cluster_threads_kept: "threads_kept rich_env demo_stdio (\<lambda>w :: 'c cluster. set (k_threads w))"
  by (simp add: threads_kept_def parser_keeps_def files_keep_def image_access_keeps_def demo_stdio_def rich_env_def plant_env_def)

lemma demo_read_config: "read_config_file rich_env demo_stdio w = (Ret (Some ''{abc}''), w)"
  by (simp add: read_config_file_def open_config_file_def close_with_def run_simps demo_stdio_def c_text_def)

lemma demo_parser_keeps: "parser_keeps rich_env (k_threads :: 'c cluster \<Rightarrow> _)"
  by (simp add: parser_keeps_def image_access_keeps_def rich_env_def plant_env_def)

definition demo_waiting :: master_main where
  "demo_waiting = \<lparr>masterConfHead = [demo_parsed_master], masterThreads = [1], masterConfigData = Some ''{abc}''\<rparr>"

lemma demo_master_start:
  "wp (piModbusMaster rich_env demo_stdio (doc_jsonc demo_masters) cluster_threads (Master_parse []))
     (\<lambda>p w. p = Master_wait demo_waiting \<and> k_threads w = [(1, StartTcpMasterThread, demo_parsed_master)]) cluster0"
proof -
  have "keeps (\<lambda>w :: TModbusMasterConfiguration cluster. k_threads w = []) (parse_modbus_master_config_data rich_env (doc_jsonc demo_masters) chars [])"
    for chars :: string
    unfolding parse_modbus_master_config_data_def
    by (intro keeps_intros keeps_attempt parse_master_devices_keeps [OF demo_parser_keeps])
  from wlp_keeps [OF this] have "wp (parse_modbus_master_config_data rich_env (doc_jsonc demo_masters) chars [])
      (\<lambda>r w. r = (0, [demo_parsed_master]) \<and> k_threads w = []) (cluster0 :: TModbusMasterConfiguration cluster)"
    for chars :: string
    by (intro wp_conj demo_parse_masters) (simp add: cluster0_def plant.extend_def)
  from this [of "''{abc}''"] obtain w' where
    "parse_modbus_master_config_data rich_env (doc_jsonc demo_masters) ''{abc}'' [] cluster0 = (Ret (0, [demo_parsed_master]), w')"
    "k_threads (w' :: TModbusMasterConfiguration cluster) = []"
    unfolding wp_iff by blast
  then have "wp (get_master_device_config_list rich_env demo_stdio (doc_jsonc demo_masters) [])
      (\<lambda>r w. r = (Some ''{abc}'', [demo_parsed_master]) \<and> k_threads w = [])
      (cluster0 :: TModbusMasterConfiguration cluster)"
    by (simp add: get_master_device_config_list_def wp_def run_simps demo_read_config)
  then show ?thesis
    unfolding piModbusMaster.simps master_main_parse_def wp_bind
    by (rule wp_mono) (auto simp: wp_simps cluster_threads_def fresh_handle_def master_routine_def demo_waiting_def
        demo_parsed_master_def)
qed

text \<open>
  Whenever the master program waits for an event, all its configurations are in range, and when no
  creation of a thread fails, it holds one handle per configured device, under which the thread with
  the start routine of the device's protocol and the device's configuration was started.
\<close>

lemma master_threads:
  assumes "thread_laws P running" "threads_kept E F running"
    and "thread_reach (piModbusMaster E F J P) (Master_parse []) w0 (Master_wait m) w"
  shows "(creation_succeeds P \<longrightarrow>
       list_all2 (\<lambda>h c. (h, master_routine c, c) \<in> running w) (masterThreads m) (masterConfHead m))
     \<and> (\<forall>c \<in> set (masterConfHead m). master_in_range J c)"
  using master_main_inv [OF assms] by (simp add: master_main_ok_def served_def [abs_def])

lemma master_threads_example:
  "\<exists>w. thread_reach (piModbusMaster rich_env demo_stdio (doc_jsonc demo_masters) cluster_threads) (Master_parse []) cluster0
       (Master_wait demo_waiting) w
     \<and> (1, StartTcpMasterThread, demo_parsed_master) \<in> set (k_threads w)"
proof -
  obtain w where "piModbusMaster rich_env demo_stdio (doc_jsonc demo_masters) cluster_threads (Master_parse []) cluster0
      = (Ret (Master_wait demo_waiting), w)"
    using demo_master_start by (auto simp: wp_iff)
  then have "thread_reach (piModbusMaster rich_env demo_stdio (doc_jsonc demo_masters) cluster_threads) (Master_parse []) cluster0
      (Master_wait demo_waiting) w"
    by (rule thread_step [OF thread_start])
  from master_threads [OF cluster_thread_laws cluster_threads_kept this] this show ?thesis
    by (auto simp: cluster_creation_succeeds demo_waiting_def master_routine_def demo_parsed_master_def)
qed

text \<open>
  C27: On a reset the master program frees every configuration, although the threads have only been
  asked to end and none has been waited for: each of them may still be running on memory that has
  been given back.
\<close>

theorem master_frees_configuration_in_use:
  assumes "thread_laws P running" "threads_kept E F running"
    and "fst (piControlWaitForEvent E w) = KB_EVENT_RESET E"
    and "c \<in> set (masterConfHead m)" "(h, master_routine c, c) \<in> running w"
  shows "\<exists>freed w'. piModbusMaster E F J P (Master_wait m) w = (Ret (Master_parse freed), w')
     \<and> Master_block c \<in> set freed \<and> Action_block ` set (mbActionListHead c) \<subseteq> set freed
     \<and> (h, master_routine c, c) \<in> running w'"
proof -
  have ev: "running (snd (piControlWaitForEvent E w)) = running w"
    using assms(2) by (simp add: threads_kept_def)
  have actions: "set (free_actions acts) = Action_block ` set acts" for acts
    by (induction acts) simp_all
  have freed: "Master_block c \<in> set (free_modbus_master_config_data cs)
      \<and> Action_block ` set (mbActionListHead c) \<subseteq> set (free_modbus_master_config_data cs)" if "c \<in> set cs" for cs
    using that by (induction cs) (auto simp: actions)
  have "wp (piModbusMaster E F J P (Master_wait m)) (\<lambda>p w'. p = Master_parse (free_modbus_master_config_data (masterConfHead m))
      \<and> running w' = running w) w"
    using assms(3,4) wp_mono [OF cancel_master_threads_running [OF assms(1)]]
    by (auto simp: master_main_wait_def wp_simps ev intro!: wp_mono [OF cancel_master_threads_running [OF assms(1)]])
  then show ?thesis
    using freed [OF assms(4)] assms(5) by (auto simp: wp_iff)
qed

theorem master_frees_configuration_in_use_witness:
  "\<exists>freed w w'. piModbusMaster rich_env demo_stdio (doc_jsonc demo_masters) cluster_threads (Master_wait demo_waiting) w
       = (Ret (Master_parse freed), w')
     \<and> Master_block demo_parsed_master \<in> set freed \<and> (1, StartTcpMasterThread, demo_parsed_master) \<in> set (k_threads w')"
proof -
  let ?w = "cluster0\<lparr>k_threads := [(1, StartTcpMasterThread, demo_parsed_master)]\<rparr>"
  have "fst (piControlWaitForEvent rich_env ?w) = KB_EVENT_RESET rich_env"
    by (simp add: rich_env_def plant_env_def)
  moreover have "demo_parsed_master \<in> set (masterConfHead demo_waiting)"
    "(1, master_routine demo_parsed_master, demo_parsed_master) \<in> set (k_threads ?w)"
    by (simp_all add: demo_waiting_def master_routine_def demo_parsed_master_def)
  ultimately show ?thesis
    using master_frees_configuration_in_use [OF cluster_thread_laws cluster_threads_kept, of ?w demo_parsed_master
        demo_waiting 1 "doc_jsonc demo_masters"]
    by (fastforce simp: master_routine_def demo_parsed_master_def)
qed

section \<open>The slave program\<close>

text \<open>The handle of a thread that was started, or 0, which it is only after a creation that failed.\<close>

definition started_or_none ::
  "('w, 'c) pthreads \<Rightarrow> ('w \<Rightarrow> (nat \<times> start_routine \<times> 'c) set) \<Rightarrow> ('c \<Rightarrow> start_routine) \<Rightarrow> 'w \<Rightarrow> nat \<Rightarrow> 'c \<Rightarrow> bool"
where
  "started_or_none P running routine w h c \<longleftrightarrow> (h \<noteq> 0 \<or> creation_succeeds P \<longrightarrow> served running routine w h c)"

lemma started_or_none_cong:
  "running w' = running w \<Longrightarrow> started_or_none P running routine w' = started_or_none P running routine w"
  by (simp add: started_or_none_def served_def fun_eq_iff)

lemma start_slave_threads_served:
  assumes "thread_laws P running"
  shows "wlp (start_slave_threads P configs) (\<lambda>hs w'. running w \<subseteq> running w'
     \<and> list_all2 (started_or_none P running slave_routine w') hs configs) w"
proof (induction configs arbitrary: w)
  case (Cons c configs)
  obtain rc h w1 where 1: "pthread_create P (slave_routine c) c w = ((rc, h), w1)" by (metis prod.collapse)
  note pthread_create_served [OF assms 1] pthread_create_succeeds [OF _ 1]
  then show ?case
    by (auto simp: wp_simps 1 started_or_none_def served_def intro!: wlp_mono [OF Cons.IH])
qed (simp add: wp_simps)

text \<open>A slave's configuration as the parser makes it: registers only, two bytes of the image for each.\<close>

definition slave_in_range :: "'j jsonc \<Rightarrow> TModbusSlaveConfiguration \<Rightarrow> bool" where
  "slave_in_range J c \<longleftrightarrow> device_in_range J (slaveDeviceConfig c)
     \<and> u16Coils (tModbusDataConfig c) = 0 \<and> u16DiscreteInputs (tModbusDataConfig c) = 0
     \<and> even (u32InputRegistersLength (tProcessImageConfig c))
     \<and> even (u32HoldingRegistersLength (tProcessImageConfig c))
     \<and> u16InputRegisters (tModbusDataConfig c) = ucast (u32InputRegistersLength (tProcessImageConfig c) div 2)
     \<and> u16HoldingRegisters (tModbusDataConfig c) = ucast (u32HoldingRegistersLength (tProcessImageConfig c) div 2)"

lemma parsed_slave_in_range:
  assumes "parse_device_modbus_configuration J d = Ret (Inr dev)"
    and "parse_modbus_slave_device_process_image_config J d dev = Ret (Inr cfg)"
  shows "slave_in_range J cfg"
proof -
  have assert: "assertO b = Ret u \<longleftrightarrow> b" for b u
    by (simp add: assertO_def)
  obtain inp out off where "cfg = slave_configuration dev off (section_area inp) (section_area out)"
      "even (snd (section_area inp))" "even (snd (section_area out))"
    using assms(2)
    by (auto simp: parse_modbus_slave_device_process_image_config_def obind_Ret_iff assert Let_def
        simp flip: even_iff_mod_2_eq_zero split: if_splits option.splits)
  then show ?thesis
    using parse_device_in_range [OF assms(1)] by (simp add: slave_in_range_def slave_configuration_def)
qed

lemma parse_slave_devices_range:
  "\<forall>c \<in> set head. slave_in_range J c \<Longrightarrow>
   wlp (parse_slave_devices E J devices head) (\<lambda>r _. \<forall>c \<in> set (snd r). slave_in_range J c) w"
proof (induction devices arbitrary: head w)
  case (Cons d devices)
  then show ?case
    by (auto simp: wp_simps wp_liftO wlp_cases parsed_slave_in_range split: sum.splits)
qed (simp add: wp_simps)

lemma get_slave_list_range:
  "wlp (get_slave_device_config_list E F J []) (\<lambda>(_, configs) _. \<forall>c \<in> set configs. slave_in_range J c) w"
proof -
  have "wlp (parse_modbus_slaves_config_data E J chars []) (\<lambda>r _. \<forall>c \<in> set (snd r). slave_in_range J c) s" for chars s
    by (auto simp: parse_modbus_slaves_config_data_def wp_simps wlp_cases parse_slave_devices_range split: sum.splits)
  then show ?thesis
    by (auto simp: get_slave_device_config_list_def wp_simps case_prod_unfold intro!: wlp_True split: option.splits)
qed

definition slave_main_ok ::
  "'j jsonc \<Rightarrow> ('w, TModbusSlaveConfiguration) pthreads
     \<Rightarrow> ('w \<Rightarrow> (nat \<times> start_routine \<times> TModbusSlaveConfiguration) set) \<Rightarrow> slave_phase \<Rightarrow> 'w \<Rightarrow> bool" where
  "slave_main_ok J P running p w = (case p of
       Slave_wait m \<Rightarrow> list_all2 (started_or_none P running slave_routine w) (slaveThreads m) (slaveConfHead m)
         \<and> (\<forall>c \<in> set (slaveConfHead m). slave_in_range J c) | _ \<Rightarrow> True)"

lemma slave_main_ok_trivial [simp]:
  "slave_main_ok J P running (Slave_parse freed) w" "slave_main_ok J P running (Slave_exit rc) w"
  by (simp_all add: slave_main_ok_def)

lemma slave_main_step_ok:
  assumes "thread_laws P running" "threads_kept E F running" "slave_main_ok J P running p w"
  shows "wlp (piModbusSlave E F J P p) (slave_main_ok J P running) w"
proof (cases p)
  case (Slave_parse freed)
  show ?thesis
    unfolding Slave_parse piModbusSlave.simps slave_main_parse_def wp_simps
    by (rule wlp_mono [OF get_slave_list_range])
       (auto simp: wp_simps slave_main_ok_def intro!: wlp_mono [OF start_slave_threads_served [OF assms(1)]])
next
  case (Slave_wait m)
  have ev: "running (snd (piControlWaitForEvent E w)) = running w"
    using assms(2) by (simp add: threads_kept_def)
  show ?thesis
    using assms(3)
    by (auto simp: Slave_wait slave_main_wait_def wp_simps slave_main_ok_def started_or_none_cong [of running _ w, OF ev]
        intro: wlp_True)
next
  case (Slave_exit rc)
  then show ?thesis by (simp add: wp_simps)
qed

lemma slave_main_inv:
  assumes "thread_laws P running" "threads_kept E F running"
    and "thread_reach (piModbusSlave E F J P) (Slave_parse []) w0 p w"
  shows "slave_main_ok J P running p w"
  by (rule thread_reach_inv [OF assms(3)]) (simp_all add: slave_main_step_ok [OF assms(1,2)])

lemma cancel_slave_threads_fault: "0 \<in> set hs \<Longrightarrow> fst (cancel_slave_threads P hs w) = Fault"
  by (induction hs arbitrary: w) (auto simp: run_simps split: prod.splits outcome.splits)

text \<open>
  C26: Whenever the slave program waits for an event, it holds one handle per configured device. A
  handle that is not 0 is that of a thread that was started for this device: with the routine for TCP
  when the device has TCP parameters, with the one for RTU when it has RTU parameters, and with the
  device's configuration. The same holds of every handle when no creation of a thread fails, and what a
  failed creation leaves in the handle does not matter. Every configuration is in range: the
  parameters are those of its protocol, there are no coils and no discrete inputs, and both areas of
  registers have an even number of bytes, two for each register as far as 16 bits count them. Whether a
  thread still runs is not stated: \<open>started\<close> records what was started.
\<close>

theorem slave_threads:
  assumes "thread_laws P started" "threads_kept E F started"
    and "thread_reach (piModbusSlave E F J P) (Slave_parse []) w0 (Slave_wait m) w"
  shows "list_all2 (\<lambda>h c. h \<noteq> 0 \<or> creation_succeeds P \<longrightarrow> (case uProt (slaveDeviceConfig c) of
         tTcpConfig _ \<Rightarrow> (h, StartTcpSlaveThread, c) \<in> started w
       | tRtuConfig _ \<Rightarrow> (h, StartRtuSlaveThread, c) \<in> started w)) (slaveThreads m) (slaveConfHead m)
     \<and> (\<forall>c \<in> set (slaveConfHead m). slave_in_range J c)"
proof -
  note inv = slave_main_inv [OF assms]
  have "(h, slave_routine c, c) \<in> started w \<Longrightarrow> (case uProt (slaveDeviceConfig c) of
         tTcpConfig _ \<Rightarrow> (h, StartTcpSlaveThread, c) \<in> started w
       | tRtuConfig _ \<Rightarrow> (h, StartRtuSlaveThread, c) \<in> started w)" if "c \<in> set (slaveConfHead m)" for h c
    using inv that
    by (auto simp: slave_main_ok_def slave_in_range_def device_in_range_def slave_routine_def split: UProt.splits)
  then show ?thesis
    using inv by (auto simp: slave_main_ok_def started_or_none_def served_def elim!: list.rel_mono_strong)
qed

lemma demo_slave_main:
  "\<exists>m w c. thread_reach (piModbusSlave rich_env demo_stdio (doc_jsonc demo_document) cluster_threads) (Slave_parse []) cluster0
       (Slave_wait m) w
     \<and> slaveConfHead m = [c] \<and> slave_of (doc_jsonc demo_document) demo_slave_device = Ret (Some c)
     \<and> (\<exists>h. slaveThreads m = [h] \<and> h \<noteq> 0)"
proof -
  obtain c where c: "slave_of (doc_jsonc demo_document) demo_slave_device = Ret (Some c)"
    by (simp add: demo_slave_of)
  then obtain w where run: "parse_modbus_slaves_config_data rich_env (doc_jsonc demo_document) ''{abc}'' [] cluster0
      = (Ret (0, [c]), w :: TModbusSlaveConfiguration cluster)"
    using demo_parse_slaves by blast
  let ?h = "fresh_handle (k_threads w)"
  let ?m = "\<lparr>slaveConfHead = [c], slaveThreads = [?h], slaveConfigData = Some ''{abc}''\<rparr>"
  obtain w' where "piModbusSlave rich_env demo_stdio (doc_jsonc demo_document) cluster_threads (Slave_parse []) cluster0
      = (Ret (Slave_wait ?m), w')"
    by (simp add: slave_main_parse_def get_slave_device_config_list_def run_simps demo_read_config run cluster_threads_def)
  then have "thread_reach (piModbusSlave rich_env demo_stdio (doc_jsonc demo_document) cluster_threads) (Slave_parse [])
      cluster0 (Slave_wait ?m) w'"
    by (rule thread_step [OF thread_start])
  then show ?thesis
    using c by (intro exI [of _ ?m] exI [of _ w'] exI [of _ c]) (simp add: fresh_handle_def)
qed

theorem slave_threads_witness:
  "\<exists>m w c. thread_reach (piModbusSlave rich_env demo_stdio (doc_jsonc demo_document) cluster_threads) (Slave_parse []) cluster0
       (Slave_wait m) w
     \<and> slaveConfHead m = [c] \<and> slave_in_range (doc_jsonc demo_document) c
     \<and> (\<exists>h. slaveThreads m = [h] \<and> (h, StartRtuSlaveThread, c) \<in> set (k_threads w))"
proof -
  obtain m w c h where reach: "thread_reach (piModbusSlave rich_env demo_stdio (doc_jsonc demo_document) cluster_threads)
      (Slave_parse []) cluster0 (Slave_wait m) w" "slaveConfHead m = [c]" "slaveThreads m = [h]" "h \<noteq> 0"
      "slave_of (doc_jsonc demo_document) demo_slave_device = Ret (Some c)"
    using demo_slave_main by blast
  from slave_threads [OF cluster_thread_laws cluster_threads_kept reach(1)] reach show ?thesis
    by (fastforce simp: demo_slave_of device_configuration_def)
qed

text \<open>
  C38: The slave program cannot survive a reset when it could not start the thread of a device: it
  cancels a handle that is no thread.
\<close>

theorem slave_cancels_missing_thread:
  assumes "thread_laws P running" "threads_kept E F running"
    and "thread_reach (piModbusSlave E F J P) (Slave_parse []) w0 (Slave_wait m) w"
    and "c \<in> set (slaveConfHead m)" "\<forall>h. (h, slave_routine c, c) \<notin> running w"
    and "fst (piControlWaitForEvent E w) = KB_EVENT_RESET E"
  shows "fst (piModbusSlave E F J P (Slave_wait m) w) = Fault"
proof -
  have "slave_main_ok J P running (Slave_wait m) w"
    by (rule slave_main_inv [OF assms(1-3)])
  then have "list_all2 (started_or_none P running slave_routine w) (slaveThreads m) (slaveConfHead m)"
    by (simp add: slave_main_ok_def)
  then obtain h where "h \<in> set (slaveThreads m)" "started_or_none P running slave_routine w h c"
    using assms(4) by (metis in_set_conv_nth list_all2_conv_all_nth)
  then have "0 \<in> set (slaveThreads m)"
    using assms(5) by (auto simp: started_or_none_def served_def)
  then show ?thesis
    using assms(4,6) cancel_slave_threads_fault [of "slaveThreads m" P "snd (piControlWaitForEvent E w)"]
    by (auto simp: slave_main_wait_def run_simps split: prod.splits outcome.splits)
qed

text \<open>No thread can be created, and something is left in the handle.\<close>

definition failing_threads :: "('w, 'c) pthreads" where
  "failing_threads = \<lparr>pthread_create = (\<lambda>r c w. ((11, 4711), w)), pthread_cancel = (\<lambda>h w. (0, w))\<rparr>"

lemma failing_thread_laws: "thread_laws failing_threads (\<lambda>_. {})"
  by (simp add: thread_laws_def failing_threads_def)

theorem slave_cancels_missing_thread_witness:
  "\<exists>m w. thread_reach (piModbusSlave rich_env demo_stdio (doc_jsonc demo_document) failing_threads) (Slave_parse []) plant0
       (Slave_wait m) w
     \<and> fst (piModbusSlave rich_env demo_stdio (doc_jsonc demo_document) failing_threads (Slave_wait m) w) = Fault"
proof -
  obtain c where "slave_of (doc_jsonc demo_document) demo_slave_device = Ret (Some c)"
    by (simp add: demo_slave_of)
  then obtain w where run: "parse_modbus_slaves_config_data rich_env (doc_jsonc demo_document) ''{abc}'' [] plant0
      = (Ret (0, [c]), w)"
    using demo_parse_slaves by blast
  let ?m = "\<lparr>slaveConfHead = [c], slaveThreads = [0], slaveConfigData = Some ''{abc}''\<rparr>"
  have "piModbusSlave rich_env demo_stdio (doc_jsonc demo_document) failing_threads (Slave_parse []) plant0
      = (Ret (Slave_wait ?m), w)"
    by (simp add: slave_main_parse_def get_slave_device_config_list_def run_simps demo_read_config run failing_threads_def)
  then have reach: "thread_reach (piModbusSlave rich_env demo_stdio (doc_jsonc demo_document) failing_threads) (Slave_parse [])
      plant0 (Slave_wait ?m) w"
    by (rule thread_step [OF thread_start])
  have "threads_kept rich_env demo_stdio (\<lambda>_ :: plant. {} :: (nat \<times> start_routine \<times> TModbusSlaveConfiguration) set)"
    by (simp add: threads_kept_def parser_keeps_def files_keep_def image_access_keeps_def)
  moreover have "fst (piControlWaitForEvent rich_env w) = KB_EVENT_RESET rich_env"
    by (simp add: rich_env_def plant_env_def)
  ultimately show ?thesis
    using slave_cancels_missing_thread [OF failing_thread_laws _ reach, of c] reach by fastforce
qed

end
