(* ===== verification/Interleaving.thy ===== *)
theory Interleaving
  imports Prelude
begin

text \<open>
  Threads of one program that share the world: any of them may take the next step. A step is one
  pass of a thread as \<open>ModbusMasterThread\<close> and \<open>ModbusSlaveThread\<close> define it. The locale \<open>threads\<close>
  states what the threads of a program promise each other, \<open>owners\<close> what threads promise that hold
  resources; \<open>Master_Interleaving\<close> and \<open>Slave_Interleaving\<close> provide them for the threads of the two programs.
\<close>

section \<open>Programs of threads\<close>

text \<open>A thread is its configuration and its phase.\<close>

inductive interleaving ::
  "('c \<Rightarrow> 'p \<Rightarrow> ('w, 'p) prog) \<Rightarrow> ('c \<times> 'p) list \<Rightarrow> 'w \<Rightarrow> ('c \<times> 'p) list \<Rightarrow> 'w \<Rightarrow> bool"
  for step ts0 w0 where
  interleaving_start: "interleaving step ts0 w0 ts0 w0"
| interleaving_step: "interleaving step ts0 w0 ts w \<Longrightarrow> i < length ts \<Longrightarrow> ts ! i = (c, p) \<Longrightarrow>
    step c p w = (Ret p', w') \<Longrightarrow> interleaving step ts0 w0 (ts[i := (c, p')]) w'"

inductive_cases interleavingE: "interleaving step ts0 w0 ts w"

text \<open>What a step of each thread preserves, whenever it returns, holds between all of them.\<close>

lemma interleaving_inv:
  assumes "interleaving step ts0 w0 ts w" "\<forall>(c, p) \<in> set ts0. I c p" "J w0"
    and "\<And>c p w. c \<in> fst ` set ts0 \<Longrightarrow> I c p \<Longrightarrow> J w \<Longrightarrow> wlp (step c p) (\<lambda>p' w'. I c p' \<and> J w') w"
  shows "map fst ts = map fst ts0 \<and> (\<forall>(c, p) \<in> set ts. I c p) \<and> J w"
  using assms(1)
proof induction
  case (interleaving_step ts w i c p p' w')
  have "(c, p) \<in> set ts" "fst ` set ts = fst ` set ts0"
    using nth_mem [OF interleaving_step.hyps(2)] interleaving_step.hyps(3) arg_cong [OF conjunct1 [OF interleaving_step.IH], of set]
    by simp_all
  then have "c \<in> fst ` set ts0" "I c p"
    using interleaving_step.IH by force+
  then have "I c p' \<and> J w'"
    using wlpD [OF assms(4) interleaving_step.hyps(4)] interleaving_step.IH by blast
  moreover have "map fst (ts[i := (c, p')]) = map fst ts"
    using interleaving_step.hyps(2,3) by (simp add: map_update list_update_same_conv)
  ultimately show ?case
    using interleaving_step.IH by (auto dest: set_update_subset_insert [THEN subsetD])
qed (use assms(2,3) in simp)

lemma interleaving_two:
  assumes "wp (step c p0) (\<lambda>p w. wp (step c p) (\<lambda>_ v. Q v) w) w0"
  shows "\<exists>ts v. interleaving step [(c, p0)] w0 ts v \<and> Q v"
proof -
  obtain p w p' v where run: "step c p0 w0 = (Ret p, w)" "step c p w = (Ret p', v)" "Q v"
    using assms by (auto simp: wp_iff)
  have "interleaving step [(c, p0)] w0 [(c, p)] w"
    using interleaving_step [OF interleaving_start, of 0 "[(c, p0)]" c p0] run(1) by simp
  from interleaving_step [OF this, of 0 c p p' v] run(2,3) show ?thesis
    by auto
qed

text \<open>
  What holds of each thread's phase (\<open>safe\<close>) and of the shared part of the world (\<open>shared\<close>) between
  steps, when the environment behaves (\<open>law\<close>) and the configurations are \<open>admissible\<close>.
\<close>

locale threads =
  fixes step :: "'c \<Rightarrow> 'p \<Rightarrow> ('w, 'p) prog"
    and start :: "'c \<Rightarrow> 'p"
    and admissible :: "'c \<Rightarrow> bool"
    and safe :: "'c \<Rightarrow> 'p \<Rightarrow> bool"
    and shared :: "'w \<Rightarrow> bool"
    and law :: bool
  assumes start_safe: "admissible c \<Longrightarrow> safe c (start c)"
    and step_safe: "law \<Longrightarrow> admissible c \<Longrightarrow> safe c p \<Longrightarrow> shared w \<Longrightarrow>
      wp (step c p) (\<lambda>p' w'. safe c p' \<and> shared w') w"
begin

lemma alone:
  assumes law "admissible c" "shared w0" "thread_reach (step c) (start c) w0 p w"
  shows "safe c p \<and> shared w"
  using thread_reach_inv [OF assms(4), of "\<lambda>p w. safe c p \<and> shared w"] start_safe [OF assms(2)] assms(1-3)
  by (auto intro: wp_wlp step_safe)

lemma alone_returns:
  assumes law "admissible c" "shared w0" "thread_reach (step c) (start c) w0 p w"
  shows "\<exists>p' w'. step c p w = (Ret p', w')"
  using alone [OF assms] step_safe [OF assms(1,2), of p w] by (auto simp: wp_iff)

lemma together:
  assumes law "\<forall>c \<in> set cs. admissible c" "shared w0"
    and "interleaving step (map (\<lambda>c. (c, start c)) cs) w0 ts w"
  shows "map fst ts = cs \<and> (\<forall>(c, p) \<in> set ts. safe c p) \<and> shared w"
  using assms(4)
proof induction
  case interleaving_start
  then show ?case
    using assms(2,3) start_safe by (auto simp: comp_def)
next
  case (interleaving_step ts w i c p p' w')
  have "(c, p) \<in> set ts"
    using interleaving_step.hyps(2,3) by (metis nth_mem)
  then have "admissible c" "safe c p"
    using interleaving_step.IH assms(2) by force+
  then have "safe c p' \<and> shared w'"
    using step_safe [OF assms(1)] interleaving_step.IH interleaving_step.hyps(4) by (fastforce simp: wp_iff)
  moreover have "map fst (ts[i := (c, p')]) = map fst ts"
    using interleaving_step.hyps(2,3) by (simp add: map_update list_update_same_conv)
  ultimately show ?case
    using interleaving_step.IH by (auto dest: set_update_subset_insert [THEN subsetD])
qed

lemma together_returns:
  assumes law "\<forall>c \<in> set cs. admissible c" "shared w0"
    and "interleaving step (map (\<lambda>c. (c, start c)) cs) w0 ts w" "(c, p) \<in> set ts"
  shows "\<exists>p' w'. step c p w = (Ret p', w')"
proof -
  have "safe c p" "shared w" "c \<in> set cs"
    using together [OF assms(1-4)] assms(5) by force+
  then show ?thesis
    using step_safe [OF assms(1), of c p w] assms(2) by (auto simp: wp_iff)
qed

end

section \<open>Resources\<close>

text \<open>
  Threads that own resources of the world: a step changes the resources of its own thread only,
  whatever the others hold (\<open>F\<close>). A thread that has ended takes no further part.
\<close>

locale owners =
  fixes step :: "'c \<Rightarrow> 'p \<Rightarrow> ('w, 'p) prog"
    and start :: "'c \<Rightarrow> 'p"
    and admissible :: "'c \<Rightarrow> bool"
    and safe :: "'c \<Rightarrow> 'p \<Rightarrow> bool"
    and ended :: "'p \<Rightarrow> bool"
    and owned :: "'p \<Rightarrow> 'r set"
    and resources :: "'w \<Rightarrow> 'r set"
    and law :: bool
  assumes start_owned: "admissible c \<Longrightarrow> safe c (start c) \<and> owned (start c) = {}"
    and step_owned: "law \<Longrightarrow> admissible c \<Longrightarrow> safe c p \<Longrightarrow> F \<inter> owned p = {} \<Longrightarrow> resources w = F \<union> owned p \<Longrightarrow>
      wp (step c p) (\<lambda>p' w'. ended p' \<or> safe c p' \<and> F \<inter> owned p' = {} \<and> resources w' = F \<union> owned p') w"
    and ended_step: "ended p \<Longrightarrow> step c p w = (Ret p', w') \<Longrightarrow> ended p'"
begin

definition held_by :: "('c \<times> 'p) list \<Rightarrow> nat \<Rightarrow> 'r set" where
  "held_by ts i = owned (snd (ts ! i))"

definition separate :: "'r set \<Rightarrow> ('c \<times> 'p) list \<Rightarrow> 'w \<Rightarrow> bool" where
  "separate R ts w \<longleftrightarrow> (\<forall>i < length ts. safe (fst (ts ! i)) (snd (ts ! i)) \<and> R \<inter> held_by ts i = {})
     \<and> (\<forall>i < length ts. \<forall>j < length ts. i \<noteq> j \<longrightarrow> held_by ts i \<inter> held_by ts j = {})
     \<and> resources w = R \<union> (\<Union>i < length ts. held_by ts i)"

text \<open>What is held by none or by the others, from the point of view of thread \<open>i\<close>.\<close>

definition frame_of :: "'r set \<Rightarrow> ('c \<times> 'p) list \<Rightarrow> nat \<Rightarrow> 'r set" where
  "frame_of R ts i = R \<union> (\<Union>j \<in> {..<length ts} - {i}. held_by ts j)"

lemma frame_of_others: "i < length ts \<Longrightarrow> R \<union> (\<Union>j < length ts. held_by ts j) = frame_of R ts i \<union> held_by ts i"
  by (auto simp: frame_of_def)

lemma separate_frame:
  assumes "separate R ts w" "i < length ts" "ts ! i = (c, p)"
  shows "safe c p" "frame_of R ts i \<inter> owned p = {}" "resources w = frame_of R ts i \<union> owned p"
proof -
  have i: "held_by ts i = owned p"
    using assms(3) by (simp add: held_by_def)
  have "R \<inter> held_by ts i = {}" "\<forall>j < length ts. j \<noteq> i \<longrightarrow> held_by ts j \<inter> held_by ts i = {}"
    using assms(1,2) by (simp_all add: separate_def)
  then show "frame_of R ts i \<inter> owned p = {}"
    unfolding i by (auto simp: frame_of_def)
  show "safe c p"
    using assms by (auto simp: separate_def)
  show "resources w = frame_of R ts i \<union> owned p"
    using assms(1) frame_of_others [OF assms(2)] by (simp add: separate_def i)
qed

lemma separate_update:
  assumes "separate R ts w" "i < length ts" "safe c p'"
    and "frame_of R ts i \<inter> owned p' = {}" "resources w' = frame_of R ts i \<union> owned p'"
  shows "separate R (ts[i := (c, p')]) w'"
proof -
  let ?ts = "ts[i := (c, p')]"
  have held: "held_by ?ts j = (if j = i then owned p' else held_by ts j)" if "j < length ts" for j
    using that by (simp add: held_by_def)
  have frame: "frame_of R ?ts i = frame_of R ts i"
    using held by (auto simp: frame_of_def)
  have others: "R \<inter> owned p' = {}" "j < length ts \<Longrightarrow> j \<noteq> i \<Longrightarrow> held_by ts j \<inter> owned p' = {}" for j
    using assms(4) by (auto simp: frame_of_def)
  have "safe (fst (?ts ! j)) (snd (?ts ! j)) \<and> R \<inter> held_by ?ts j = {}" if "j < length ts" for j
    using that assms(1,3) held [OF that] others(1) by (cases "j = i") (auto simp: separate_def)
  moreover have "held_by ?ts j \<inter> held_by ?ts k = {}" if "j < length ts" "k < length ts" "j \<noteq> k" for j k
    using that assms(1) held [OF that(1)] held [OF that(2)] others(2)
    by (cases "j = i"; cases "k = i") (auto simp: separate_def Int_commute)
  moreover have "resources w' = R \<union> (\<Union>j < length ?ts. held_by ?ts j)"
    using frame_of_others [of i ?ts R] frame held [OF assms(2)] assms(2,5) by simp
  ultimately show ?thesis
    by (simp add: separate_def)
qed

lemma ownership:
  assumes law "\<forall>c \<in> set cs. admissible c"
    and "interleaving step (map (\<lambda>c. (c, start c)) cs) w0 ts w" "\<forall>(c, p) \<in> set ts. \<not> ended p"
  shows "separate (resources w0) ts w \<and> map fst ts = cs"
  using assms(3,4)
proof induction
  case interleaving_start
  then show ?case
    using assms(2) start_owned by (auto simp: separate_def held_by_def comp_def)
next
  case (interleaving_step ts w i c p p' w')
  have "\<not> ended p'"
    using interleaving_step.prems set_update_memI [OF interleaving_step.hyps(2)] by fastforce
  then have "\<not> ended p"
    using ended_step interleaving_step.hyps(4) by blast
  then have "\<not> ended (snd (ts ! j))" if "j < length ts" for j
    using interleaving_step.prems interleaving_step.hyps(2,3) that
    by (cases "j = i") (force simp: all_set_conv_all_nth nth_list_update)+
  then have "\<forall>(c, p) \<in> set ts. \<not> ended p"
    by (fastforce simp: in_set_conv_nth)
  then have sep: "separate (resources w0) ts w" "map fst ts = cs"
    using interleaving_step.IH by simp_all
  have "c \<in> set cs"
    using interleaving_step.hyps(2,3) sep(2) by (metis fst_conv length_map nth_map nth_mem)
  then have "admissible c" using assms(2) by blast
  note frame = separate_frame [OF sep(1) interleaving_step.hyps(2,3)]
  have "map fst (ts[i := (c, p')]) = map fst ts"
    using interleaving_step.hyps(2,3) by (simp add: map_update list_update_same_conv)
  with step_owned [OF assms(1) \<open>admissible c\<close> frame] interleaving_step.hyps(4) \<open>\<not> ended p'\<close>
  show ?case
    using separate_update [OF sep(1) interleaving_step.hyps(2)] sep(2) by (auto simp: wp_iff)
qed

lemma ownership_returns:
  assumes law "\<forall>c \<in> set cs. admissible c"
    and "interleaving step (map (\<lambda>c. (c, start c)) cs) w0 ts w" "\<forall>(c, p) \<in> set ts. \<not> ended p"
    and "(c, p) \<in> set ts"
  shows "\<exists>p' w'. step c p w = (Ret p', w')"
proof -
  obtain i where i: "i < length ts" "ts ! i = (c, p)"
    using assms(5) by (auto simp: in_set_conv_nth)
  have sep: "separate (resources w0) ts w" "map fst ts = cs"
    using ownership [OF assms(1-4)] by simp_all
  then have "admissible c"
    using assms(2,5) by force
  note frame = separate_frame [OF sep(1) i]
  from step_owned [OF assms(1) \<open>admissible c\<close> frame] show ?thesis
    by (auto simp: wp_iff)
qed

end

end
