(* ===== verification/Master_Interleaving.thy ===== *)
theory Master_Interleaving
  imports Thread_Safety Main_Programs Interleaving
begin

text \<open>
  The threads of the master program, one for each device of the configuration, in any interleaving
  of their passes: an interpretation of the locale \<open>threads\<close>. What they share is the bus mutex.
\<close>

section \<open>The master program\<close>

datatype master_thread = Tcp_master tcp_master_phase | Rtu_master rtu_master_phase

definition start_master_thread :: "TModbusMasterConfiguration \<Rightarrow> master_thread" where
  "start_master_thread cfg = (if master_routine cfg = StartRtuMasterThread then Rtu_master RM_wait else Tcp_master TM_start)"

fun step_master_thread ::
  "'d double_ops \<Rightarrow> 'w env \<Rightarrow> TModbusMasterConfiguration \<Rightarrow> master_thread \<Rightarrow> ('w, master_thread) prog" where
  "step_master_thread D E cfg (Tcp_master p) = bindM (startTcpMasterThread D E cfg p) (\<lambda>p'. ret (Tcp_master p'))"
| "step_master_thread D E cfg (Rtu_master p) = bindM (startRtuMasterThread E cfg p) (\<lambda>p'. ret (Rtu_master p'))"

text \<open>A configuration as the parser yields it, with register counts within the limits.\<close>

definition runnable_master :: "TModbusMasterConfiguration \<Rightarrow> bool" where
  "runnable_master cfg \<longleftrightarrow> i32ActionCount cfg = int (length (mbActionListHead cfg))
     \<and> (\<forall>a \<in> set (mbActionListHead cfg). admissible_action a)
     \<and> (case uProt (masterDeviceConfig cfg) of tTcpConfig _ \<Rightarrow> eProtocol (masterDeviceConfig cfg) = eProtTCP
        | tRtuConfig _ \<Rightarrow> eProtocol (masterDeviceConfig cfg) = eProtRTU)"

fun master_thread_safe :: "TModbusMasterConfiguration \<Rightarrow> master_thread \<Rightarrow> bool" where
  "master_thread_safe cfg (Tcp_master p) \<longleftrightarrow>
     eProtocol (masterDeviceConfig cfg) = eProtTCP \<and> tcp_master_safe cfg p"
| "master_thread_safe cfg (Rtu_master p) \<longleftrightarrow>
     eProtocol (masterDeviceConfig cfg) = eProtRTU \<and> rtu_master_safe cfg p"

subsection \<open>The mutex\<close>

text \<open>A view of the world that the calls of a master around its actions leave alone.\<close>

definition master_calls_keep :: "'w env \<Rightarrow> ('w \<Rightarrow> 'v) \<Rightarrow> bool" where
  "master_calls_keep E f \<longleftrightarrow>
     (\<forall>n w. f (snd (set_priority E n w)) = f w) \<and> (\<forall>w. f (snd (malloc_ok E w)) = f w)
   \<and> (\<forall>p w. f (snd (access_rw E p w)) = f w) \<and> (\<forall>ip port w. f (snd (modbus_new_tcp_pi E ip port w)) = f w)
   \<and> (\<forall>d b p x y w. f (snd (modbus_new_rtu E d b p x y w)) = f w)
   \<and> (\<forall>c w. f (snd (modbus_set_error_recovery E c w)) = f w) \<and> (\<forall>c w. f (snd (modbus_connect E c w)) = f w)
   \<and> (\<forall>c w. f (snd (modbus_close E c w)) = f w) \<and> (\<forall>c w. f (snd (modbus_free E c w)) = f w)
   \<and> (\<forall>c a w. f (snd (modbus_set_slave E c a w)) = f w)
   \<and> (\<forall>c x y w. f (snd (modbus_set_response_timeout E c x y w)) = f w)
   \<and> (\<forall>c x y w. f (snd (modbus_set_byte_timeout E c x y w)) = f w)"

text \<open>A view that everything a master does around its requests leaves alone.\<close>

definition surroundings_keep :: "'w env \<Rightarrow> ('w \<Rightarrow> 'v) \<Rightarrow> bool" where
  "surroundings_keep E f \<longleftrightarrow> master_calls_keep E f \<and> clock_keeps E f \<and> image_access_keeps E f"

definition mutex_world :: "'w env \<Rightarrow> ('w \<Rightarrow> bool) \<Rightarrow> bool" where
  "mutex_world E held \<longleftrightarrow> mutex_laws E held \<and> master_calls_keep E held"

lemma mutex_world_surroundings: "mutex_world E held \<Longrightarrow> surroundings_keep E held"
  by (simp add: mutex_world_def mutex_laws_def surroundings_keep_def)

lemma surroundings_ext:
  assumes "surroundings_keep E f"
  shows "keeps (\<lambda>w. f w = b) (ext (set_priority E n))" "keeps (\<lambda>w. f w = b) (ext (malloc_ok E))"
    and "keeps (\<lambda>w. f w = b) (ext (access_rw E p))" "keeps (\<lambda>w. f w = b) (ext (modbus_new_tcp_pi E ip port))"
    and "keeps (\<lambda>w. f w = b) (ext (modbus_new_rtu E d r q x y))"
    and "keeps (\<lambda>w. f w = b) (ext (modbus_set_error_recovery E c))" "keeps (\<lambda>w. f w = b) (ext (modbus_connect E c))"
    and "keeps (\<lambda>w. f w = b) (ext (modbus_close E c))" "keeps (\<lambda>w. f w = b) (ext (modbus_free E c))"
    and "keeps (\<lambda>w. f w = b) (ext (modbus_set_slave E c a))"
    and "keeps (\<lambda>w. f w = b) (ext (modbus_set_response_timeout E c s u))"
    and "keeps (\<lambda>w. f w = b) (ext (modbus_set_byte_timeout E c s u))"
    and "keeps (\<lambda>w. f w = b) (ext (clock_gettime E))" "keeps (\<lambda>w. f w = b) (ext (sleep_for E t))"
    and "keeps (\<lambda>w. f w = b) (ext (sleep_until E t))"
    and "keeps (\<lambda>w. f w = b) (ext (piControlWrite E off len bs))"
    and "keeps (\<lambda>w. f w = b) (ext (piControlRead E off len))"
    and "keeps (\<lambda>w. f w = b) (ext (piControlSetBitValue E v))"
    and "keeps (\<lambda>w. f w = b) (ext (piControlGetBitValue E v))"
  using assms
  by (simp_all add: surroundings_keep_def master_calls_keep_def image_access_keeps_def clock_keeps_def keeps_ext)

lemma run_action_unlocks:
  assumes "mutex_world E held"
  shows "wlp (run_action E ctx ev earliest offset buffer) (\<lambda>_ w'. \<not> held w') w"
proof -
  have laws: "mutex_laws E held" using assms by (simp add: mutex_world_def)
  have unlocks: "wlp (processModbusAction E ctx ev buffer) (\<lambda>_ w'. \<not> held w') v" for v
    using processModbusAction_mutex [OF laws, of ctx ev buffer v] by (auto simp: wlp_def split: outcome.splits prod.splits)
  moreover have "held (snd (clock_gettime E v)) = held v" for v
    using laws by (simp add: mutex_laws_def clock_keeps_def)
  ultimately show ?thesis
    by (auto simp: run_action_def wp_simps wp_liftO case_prod_unfold intro!: wlp_mono [OF unlocks])
qed

lemma master_parts_keep:
  assumes "surroundings_keep E f"
  shows "keeps (\<lambda>w. f w = b) (reset_modbus_action_status E a d c)" "keeps (\<lambda>w. f w = b) (reset_status_of E act)"
    and "keeps (\<lambda>w. f w = b) (reset_master_status E cfg)" "keeps (\<lambda>w. f w = b) (write_device_status E cfg e)"
    and "keeps (\<lambda>w. f w = b) (setprio E prio)" "keeps (\<lambda>w. f w = b) (release_context E ctx)"
    and "keeps (\<lambda>w. f w = b) (set_timeouts E ctx' evl)" "keeps (\<lambda>w. f w = b) (reset_all_status E evl)"
    and "keeps (\<lambda>w. f w = b) (initScheduler_loop E now acts evl)"
proof -
  note ext = surroundings_ext [OF assms]
  show reset: "keeps (\<lambda>w. f w = b) (reset_modbus_action_status E a d c)" for a d c
    unfolding reset_modbus_action_status_def by (intro keeps_intros ext)
  then show act: "keeps (\<lambda>w. f w = b) (reset_status_of E act)" for act
    by (simp add: reset_status_of_def)
  show "keeps (\<lambda>w. f w = b) (reset_master_status E cfg)"
    unfolding reset_master_status_def reset_modbus_master_status_def by (intro keeps_intros reset)
  show "keeps (\<lambda>w. f w = b) (write_device_status E cfg e)" "keeps (\<lambda>w. f w = b) (setprio E prio)"
    "keeps (\<lambda>w. f w = b) (release_context E ctx)" "keeps (\<lambda>w. f w = b) (set_timeouts E ctx' evl)"
    unfolding write_device_status_def writeErrorMessage_def setprio_def release_context_def set_timeouts_def Let_def
    by (intro keeps_intros ext)+
  show "keeps (\<lambda>w. f w = b) (reset_all_status E evl)"
    by (induction evl) (auto intro!: keeps_intros act)
  show "keeps (\<lambda>w. f w = b) (initScheduler_loop E now acts evl)"
    by (induction acts arbitrary: evl) (auto intro!: keeps_intros ext)
qed

lemma initScheduler_keeps:
  "surroundings_keep E f \<Longrightarrow> keeps (\<lambda>w. f w = b) (initScheduler E acts evl)"
  unfolding initScheduler_def by (intro keeps_intros surroundings_ext master_parts_keep)

lemma tcp_master_keeps:
  assumes "surroundings_keep E f" "\<forall>m. p \<noteq> TM_loop m"
  shows "keeps (\<lambda>w. f w = b) (startTcpMasterThread D E cfg p)"
proof (cases p)
  case TM_start
  then show ?thesis
    unfolding TM_start startTcpMasterThread.simps tcp_master_start_def
    by (intro keeps_intros master_parts_keep [OF assms(1)] surroundings_ext [OF assms(1)])
next
  case (TM_connect c buf)
  show ?thesis
    unfolding TM_connect startTcpMasterThread.simps tcp_master_connect_def cleanupTcpMasterThread_def
    by (intro keeps_intros master_parts_keep [OF assms(1)] surroundings_ext [OF assms(1)] initScheduler_keeps [OF assms(1)])
qed (use assms(2) in \<open>auto intro: keeps_intros\<close>)

lemma rtu_master_keeps:
  assumes "surroundings_keep E f" "\<forall>m. p \<noteq> RM_loop m"
  shows "keeps (\<lambda>w. f w = b) (startRtuMasterThread E cfg p)"
proof (cases p)
  case RM_wait
  show ?thesis
    unfolding RM_wait startRtuMasterThread.simps rtu_master_open_def rtu_master_begin_def cleanupRtuMasterThread_def
    by (intro keeps_intros master_parts_keep [OF assms(1)] surroundings_ext [OF assms(1)] initScheduler_keeps [OF assms(1)])
qed (use assms(2) in \<open>auto intro: keeps_intros\<close>)

lemma tcp_master_unlocked:
  assumes "mutex_world E held" "\<not> held w"
  shows "wlp (startTcpMasterThread D E cfg p) (\<lambda>_ w'. \<not> held w') w"
proof (cases "\<exists>m. p = TM_loop m")
  case True
  then obtain m where "p = TM_loop m" by blast
  moreover have "\<not> held (snd (modbus_close E c v))" if "\<not> held v" for c v
    using assms(1) that by (simp add: mutex_world_def master_calls_keep_def)
  ultimately show ?thesis
    using assms(2)
    by (auto simp: tcp_master_loop_def wp_simps case_prod_unfold Let_def
        intro!: wlp_True wlp_mono [OF run_action_unlocks [OF assms(1)]])
next
  case False
  then have "keeps (\<lambda>w. held w = False) (startTcpMasterThread D E cfg p)"
    by (intro tcp_master_keeps [OF mutex_world_surroundings [OF assms(1)]]) simp
  from wlp_keeps [OF this, of w] show ?thesis
    using assms(2) by simp
qed

lemma rtu_master_unlocked:
  assumes "mutex_world E held" "\<not> held w"
  shows "wlp (startRtuMasterThread E cfg p) (\<lambda>_ w'. \<not> held w') w"
proof (cases "\<exists>m. p = RM_loop m")
  case True
  then obtain m where p: "p = RM_loop m" by blast
  show ?thesis
    by (auto simp: p rtu_master_loop_def wp_simps case_prod_unfold
        intro!: wlp_True wlp_mono [OF run_action_unlocks [OF assms(1)]])
next
  case False
  then have "keeps (\<lambda>w. held w = False) (startRtuMasterThread E cfg p)"
    by (intro rtu_master_keeps [OF mutex_world_surroundings [OF assms(1)]]) simp
  from wlp_keeps [OF this, of w] show ?thesis
    using assms(2) by simp
qed

interpretation masters: threads "step_master_thread D E" start_master_thread runnable_master master_thread_safe
    "\<lambda>w. \<not> held w" "master_world E img \<and> mutex_world E held"
  for D :: "'d double_ops" and E :: "'w env" and img held
proof
  show "master_thread_safe c (start_master_thread c)" if "runnable_master c" for c
    using that by (auto simp: start_master_thread_def master_routine_def split: EModbusProtocol.splits)
next
  fix c p and w :: 'w
  assume law: "master_world E img \<and> mutex_world E held" and c: "runnable_master c" and p: "master_thread_safe c p"
    and w: "\<not> held w"
  show "wp (step_master_thread D E c p) (\<lambda>p' w'. master_thread_safe c p' \<and> \<not> held w') w"
  proof (cases p)
    case (Tcp_master q)
    then obtain t where "uProt (masterDeviceConfig c) = tTcpConfig t"
      using c p by (cases "uProt (masterDeviceConfig c)") (auto simp: runnable_master_def)
    then have "wp (startTcpMasterThread D E c q) (\<lambda>q' w'. tcp_master_safe c q' \<and> \<not> held w') w"
      using tcp_master_step_safe [of E img c t q D w] tcp_master_unlocked [of E held w D c q] law c p w Tcp_master
      by (intro wp_conj) (simp_all add: runnable_master_def)
    then show ?thesis
      using p Tcp_master by (auto simp: wp_simps elim: wp_mono)
  next
    case (Rtu_master q)
    then obtain t where "uProt (masterDeviceConfig c) = tRtuConfig t"
      using c p by (cases "uProt (masterDeviceConfig c)") (auto simp: runnable_master_def)
    then have "wp (startRtuMasterThread E c q) (\<lambda>q' w'. rtu_master_safe c q' \<and> \<not> held w') w"
      using rtu_master_step_safe [of E img c t q w] rtu_master_unlocked [of E held w c q] law c p w Rtu_master
      by (intro wp_conj) (simp_all add: runnable_master_def)
    then show ?thesis
      using p Rtu_master by (auto simp: wp_simps elim: wp_mono)
  qed
qed

lemma masters_interleaved:
  assumes "master_world E img" "mutex_world E held" "\<forall>cfg \<in> set cfgs. runnable_master cfg" "\<not> held w0"
    and "interleaving (step_master_thread D E) (map (\<lambda>cfg. (cfg, start_master_thread cfg)) cfgs) w0 ts w"
  shows "map fst ts = cfgs \<and> \<not> held w
     \<and> (\<forall>(cfg, p) \<in> set ts. (\<exists>p' w'. step_master_thread D E cfg p w = (Ret p', w'))
         \<and> (\<forall>m. p = Tcp_master (TM_loop m) \<or> p = Rtu_master (RM_loop m) \<longrightarrow>
              scheduler_ok (eventList m) \<and> mset (map ptModbusAction (eventList m)) = mset (mbActionListHead cfg)))"
proof -
  have law: "master_world E img \<and> mutex_world E held"
    using assms(1,2) by simp
  note ok = masters.together [OF law assms(3,4,5)]
  have "scheduler_ok (eventList m) \<and> mset (map ptModbusAction (eventList m)) = mset (mbActionListHead cfg)"
    if "(cfg, p) \<in> set ts" "p = Tcp_master (TM_loop m) \<or> p = Rtu_master (RM_loop m)" for cfg p m
    using ok that by (fastforce simp: safe_master_def master_ok_def)
  then show ?thesis
    using ok masters.together_returns [OF law assms(3,4,5)] by blast
qed

lemma tcp_master_alone:
  "thread_reach (startTcpMasterThread D E cfg) p0 w0 p w \<Longrightarrow>
     interleaving (step_master_thread D E) [(cfg, Tcp_master p0)] w0 [(cfg, Tcp_master p)] w"
proof (induction rule: thread_reach.induct)
  case (thread_step p w p' w')
  have "step_master_thread D E cfg (Tcp_master p) w = (Ret (Tcp_master p'), w')"
    by (simp add: thread_step.hyps run_simps)
  from interleaving_step [OF thread_step.IH _ _ this, of 0] show ?case by simp
qed (rule interleaving_start)

section \<open>Parsed configurations\<close>

lemma parsed_master_runnable:
  assumes "master_in_range J cfg"
    and "\<forall>a \<in> set (mbActionListHead cfg). action_fits (eFunctionCode a) (unat (i16uRegisterCount a))"
  shows "runnable_master cfg"
  using assms
  by (auto simp: master_in_range_def runnable_master_def admissible_action_def action_in_range_def device_in_range_def
      split: UProt.splits)

lemma rich_masters:
  "master_world (rich_env :: 'a plant_scheme env) p_image" "mutex_world (rich_env :: 'a plant_scheme env) p_held"
proof -
  have "modbus_limits (rich_env :: 'a plant_scheme env)" "modbus_read_laws (rich_env :: 'a plant_scheme env)" "mutex_laws (rich_env :: 'a plant_scheme env) p_held"
    using plant_limits [where 'a = 'a] plant_reads [where 'a = 'a] plant_mutex(1) [where 'a = 'a]
    by (simp_all add: rich_env_def modbus_limits_def modbus_read_laws_def mutex_laws_def requests_keep_def
        clock_keeps_def image_access_keeps_def)
  moreover have "image_world (rich_env :: 'a plant_scheme env) p_image"
    using plant_image_world [where 'a = 'a]
    by (simp add: rich_env_def image_world_def picontrol_laws_def requests_keep_def clock_keeps_def mutex_keeps_def)
  moreover have "wf_timespec (fst (clock_gettime rich_env w))" for w :: "'a plant_scheme"
    using plant_clock_wf [of w] by (simp add: rich_env_def)
  moreover have "master_calls_keep (rich_env :: 'a plant_scheme env) p_held"
    by (simp add: master_calls_keep_def rich_env_def plant_env_def)
  ultimately show "master_world (rich_env :: 'a plant_scheme env) p_image" "mutex_world (rich_env :: 'a plant_scheme env) p_held"
    by (simp_all add: master_world_def mutex_world_def)
qed

section \<open>Two masters\<close>

definition two_masters :: "TModbusMasterConfiguration list" where
  "two_masters = [demo_master [demo_action 1 eREAD_COILS 3 1000000], demo_master [demo_action 2 eREAD_HOLDING_REGISTERS 125 500000]]"

lemma interleaved_masters_example:
  "\<exists>ts w. interleaving (step_master_thread exact_ops plant_env) (map (\<lambda>cfg. (cfg, start_master_thread cfg)) two_masters)
       plant0 ts w
     \<and> map snd ts = [Tcp_master (TM_connect 0 (replicate 256 0)), Tcp_master (TM_connect 0 (replicate 256 0))]
     \<and> \<not> p_held w
     \<and> (\<forall>(cfg, p) \<in> set ts. \<exists>p' w'. step_master_thread exact_ops plant_env cfg p w = (Ret p', w'))"
proof -
  let ?step = "step_master_thread exact_ops plant_env"
  let ?c = "\<lambda>i. two_masters ! i"
  let ?p = "Tcp_master (TM_connect 0 (replicate 256 0))"
  let ?ts0 = "[(?c 0, Tcp_master TM_start), (?c 1, Tcp_master TM_start)]"
  have start: "map (\<lambda>cfg. (cfg, start_master_thread cfg)) two_masters = ?ts0"
    by (simp add: two_masters_def start_master_thread_def master_routine_def demo_master_def)
  have step: "?step (?c i) (Tcp_master TM_start) plant0 = (Ret ?p, plant0)" if "i < 2" for i
    using that by (auto simp: two_masters_def tcp_master_start_def demo_master_run MAX_REGISTER_SIZE_PER_ACTION_def less_2_cases_iff)
  have "interleaving ?step ?ts0 plant0 (?ts0[0 := (?c 0, ?p)]) plant0"
    by (rule interleaving_step [where p = "Tcp_master TM_start" and w = plant0])
       (use step [of 0] in \<open>simp_all add: interleaving_start\<close>)
  then have "interleaving ?step ?ts0 plant0 (?ts0[0 := (?c 0, ?p), 1 := (?c 1, ?p)]) plant0"
    by (rule interleaving_step [where p = "Tcp_master TM_start" and w = plant0]) (use step [of 1] in simp_all)
  then have run: "interleaving ?step (map (\<lambda>cfg. (cfg, start_master_thread cfg)) two_masters) plant0
      [(?c 0, ?p), (?c 1, ?p)] plant0"
    unfolding start by simp
  have "master_world plant_env p_image" "mutex_world plant_env p_held" "\<forall>cfg \<in> set two_masters. runnable_master cfg"
    "\<not> p_held plant0"
    using plant_limits plant_reads plant_image_world plant_clock_wf plant_mutex
    by (auto simp: master_world_def mutex_world_def master_calls_keep_def two_masters_def runnable_master_def
        demo_master_def demo_action_def admissible_action_def plant0_def) (simp_all add: plant_env_def)
  note masters_interleaved [OF this run]
  then show ?thesis
    using run by fastforce
qed

end
