(* ===== verification/Halting.thy ===== *)
theory Halting
  imports Master_Interleaving
begin

text \<open>
  Threads that come to a halt in the middle of a pass: in a call of \<^verbatim>\<open>libmodbus\<close> in which they are
  cancelled, or in the mutex that another thread holds. The definitions of the program are run as they
  are, in an environment that wraps the calls of the given one. The world of that environment
  has a flag: when it is set the thread has halted, and from then on no call changes the world.
\<close>

section \<open>An environment in which threads halt\<close>

text \<open>
  A call in which the thread halts when \<open>stops\<close> says so, with what the call has done to the world
  until then, and one in which it never does.
\<close>

definition stopping :: "('w \<Rightarrow> bool) \<Rightarrow> ('w \<Rightarrow> 'w) \<Rightarrow> ('w \<Rightarrow> 'a \<times> 'w) \<Rightarrow> 'w \<times> bool \<Rightarrow> 'a \<times> 'w \<times> bool" where
  "stopping stops until call = (\<lambda>(w, halted).
     if halted then (fst (call w), (w, True))
     else if stops w then (fst (call w), (until w, True))
     else (fst (call w), (snd (call w), False)))"

definition going_on :: "('w \<Rightarrow> 'a \<times> 'w) \<Rightarrow> 'w \<times> bool \<Rightarrow> 'a \<times> 'w \<times> bool" where
  "going_on call = stopping (\<lambda>_. False) (\<lambda>w. w) call"

definition halting_env :: "'w env \<Rightarrow> ('w \<Rightarrow> bool) \<Rightarrow> ('w \<Rightarrow> bool) \<Rightarrow> ('w \<Rightarrow> 'w) \<Rightarrow> ('w \<times> bool) env" where
  "halting_env E lock_stops request_stops request = \<lparr>
     piControlRead = (\<lambda>a b. going_on (piControlRead E a b)),
     piControlWrite = (\<lambda>a b c. going_on (piControlWrite E a b c)),
     piControlSetBitValue = (\<lambda>a. going_on (piControlSetBitValue E a)),
     piControlGetBitValue = (\<lambda>a. going_on (piControlGetBitValue E a)),
     piControlWaitForEvent = going_on (piControlWaitForEvent E),
     KB_EVENT_RESET = KB_EVENT_RESET E,
     MODBUS_MAX_READ_BITS = MODBUS_MAX_READ_BITS E,
     MODBUS_MAX_READ_REGISTERS = MODBUS_MAX_READ_REGISTERS E,
     MODBUS_MAX_WRITE_BITS = MODBUS_MAX_WRITE_BITS E,
     MODBUS_MAX_WRITE_REGISTERS = MODBUS_MAX_WRITE_REGISTERS E,
     MODBUS_MAX_PDU_LENGTH = MODBUS_MAX_PDU_LENGTH E,
     MODBUS_ENOBASE = MODBUS_ENOBASE E,
     MODBUS_TCP_MAX_ADU_LENGTH = MODBUS_TCP_MAX_ADU_LENGTH E,
     modbus_read_bits = (\<lambda>a b c. stopping request_stops request (modbus_read_bits E a b c)),
     modbus_read_input_bits = (\<lambda>a b c. stopping request_stops request (modbus_read_input_bits E a b c)),
     modbus_read_registers = (\<lambda>a b c. stopping request_stops request (modbus_read_registers E a b c)),
     modbus_read_input_registers = (\<lambda>a b c. stopping request_stops request (modbus_read_input_registers E a b c)),
     modbus_write_bit = (\<lambda>a b c. stopping request_stops request (modbus_write_bit E a b c)),
     modbus_write_register = (\<lambda>a b c. stopping request_stops request (modbus_write_register E a b c)),
     modbus_write_bits = (\<lambda>a b c d. stopping request_stops request (modbus_write_bits E a b c d)),
     modbus_write_registers = (\<lambda>a b c d. stopping request_stops request (modbus_write_registers E a b c d)),
     modbus_report_slave_id = (\<lambda>a b. stopping request_stops request (modbus_report_slave_id E a b)),
     modbus_new_tcp_pi = (\<lambda>a b. going_on (modbus_new_tcp_pi E a b)),
     modbus_new_rtu = (\<lambda>a b c d e. going_on (modbus_new_rtu E a b c d e)),
     modbus_set_error_recovery = (\<lambda>a. going_on (modbus_set_error_recovery E a)),
     modbus_connect = (\<lambda>a. going_on (modbus_connect E a)),
     modbus_close = (\<lambda>a. going_on (modbus_close E a)),
     modbus_free = (\<lambda>a. going_on (modbus_free E a)),
     modbus_set_slave = (\<lambda>a b. going_on (modbus_set_slave E a b)),
     modbus_set_response_timeout = (\<lambda>a b c. going_on (modbus_set_response_timeout E a b c)),
     modbus_set_byte_timeout = (\<lambda>a b c. going_on (modbus_set_byte_timeout E a b c)),
     modbus_mapping_new = (\<lambda>a b c d. going_on (modbus_mapping_new E a b c d)),
     modbus_receive = (\<lambda>a. going_on (modbus_receive E a)),
     modbus_get_header_length = (\<lambda>a. going_on (modbus_get_header_length E a)),
     modbus_reply = (\<lambda>a b c d. going_on (modbus_reply E a b c d)),
     modbus_tcp_pi_listen = (\<lambda>a b. going_on (modbus_tcp_pi_listen E a b)),
     modbus_set_socket = (\<lambda>a b. going_on (modbus_set_socket E a b)),
     errno_of = (\<lambda>(w, _). errno_of E w),
     clock_gettime = going_on (clock_gettime E),
     sleep_for = (\<lambda>a. going_on (sleep_for E a)),
     sleep_until = (\<lambda>a. going_on (sleep_until E a)),
     malloc_ok = going_on (malloc_ok E),
     set_priority = (\<lambda>a. going_on (set_priority E a)),
     mutex_lock = stopping lock_stops (\<lambda>w. w) (mutex_lock E),
     mutex_unlock = going_on (mutex_unlock E),
     access_rw = (\<lambda>a. going_on (access_rw E a)),
     select_read = (\<lambda>a b. going_on (select_read E a b)),
     accept_fd = (\<lambda>a. going_on (accept_fd E a)),
     close_fd = (\<lambda>a. going_on (close_fd E a))\<rparr>"

text \<open>
  A thread that is cancelled in the first request it makes, which has done \<open>request\<close> to the world until
  then; and one that halts when it asks for a mutex that is held.
\<close>

definition cancelling_env :: "'w env \<Rightarrow> ('w \<Rightarrow> 'w) \<Rightarrow> ('w \<times> bool) env" where
  "cancelling_env E request = halting_env E (\<lambda>_. False) (\<lambda>_. True) request"

definition blocking_env :: "'w env \<Rightarrow> ('w \<Rightarrow> bool) \<Rightarrow> ('w \<times> bool) env" where
  "blocking_env E held = halting_env E held (\<lambda>_. False) (\<lambda>w. w)"

lemmas halting_defs = halting_env_def stopping_def going_on_def

text \<open>The calls of that environment, for running the program in it.\<close>

lemma halting_calls:
  "piControlRead (halting_env E ls rs req) = (\<lambda>a b. going_on (piControlRead E a b))"
  "piControlWrite (halting_env E ls rs req) = (\<lambda>a b c. going_on (piControlWrite E a b c))"
  "piControlSetBitValue (halting_env E ls rs req) = (\<lambda>a. going_on (piControlSetBitValue E a))"
  "piControlGetBitValue (halting_env E ls rs req) = (\<lambda>a. going_on (piControlGetBitValue E a))"
  "piControlWaitForEvent (halting_env E ls rs req) = going_on (piControlWaitForEvent E)"
  "KB_EVENT_RESET (halting_env E ls rs req) = KB_EVENT_RESET E"
  "MODBUS_MAX_READ_BITS (halting_env E ls rs req) = MODBUS_MAX_READ_BITS E"
  "MODBUS_MAX_READ_REGISTERS (halting_env E ls rs req) = MODBUS_MAX_READ_REGISTERS E"
  "MODBUS_MAX_WRITE_BITS (halting_env E ls rs req) = MODBUS_MAX_WRITE_BITS E"
  "MODBUS_MAX_WRITE_REGISTERS (halting_env E ls rs req) = MODBUS_MAX_WRITE_REGISTERS E"
  "MODBUS_MAX_PDU_LENGTH (halting_env E ls rs req) = MODBUS_MAX_PDU_LENGTH E"
  "MODBUS_ENOBASE (halting_env E ls rs req) = MODBUS_ENOBASE E"
  "MODBUS_TCP_MAX_ADU_LENGTH (halting_env E ls rs req) = MODBUS_TCP_MAX_ADU_LENGTH E"
  "modbus_read_bits (halting_env E ls rs req) = (\<lambda>a b c. stopping rs req (modbus_read_bits E a b c))"
  "modbus_read_input_bits (halting_env E ls rs req) = (\<lambda>a b c. stopping rs req (modbus_read_input_bits E a b c))"
  "modbus_read_registers (halting_env E ls rs req) = (\<lambda>a b c. stopping rs req (modbus_read_registers E a b c))"
  "modbus_read_input_registers (halting_env E ls rs req) = (\<lambda>a b c. stopping rs req (modbus_read_input_registers E a b c))"
  "modbus_write_bit (halting_env E ls rs req) = (\<lambda>a b c. stopping rs req (modbus_write_bit E a b c))"
  "modbus_write_register (halting_env E ls rs req) = (\<lambda>a b c. stopping rs req (modbus_write_register E a b c))"
  "modbus_write_bits (halting_env E ls rs req) = (\<lambda>a b c d. stopping rs req (modbus_write_bits E a b c d))"
  "modbus_write_registers (halting_env E ls rs req) = (\<lambda>a b c d. stopping rs req (modbus_write_registers E a b c d))"
  "modbus_report_slave_id (halting_env E ls rs req) = (\<lambda>a b. stopping rs req (modbus_report_slave_id E a b))"
  "modbus_new_tcp_pi (halting_env E ls rs req) = (\<lambda>a b. going_on (modbus_new_tcp_pi E a b))"
  "modbus_new_rtu (halting_env E ls rs req) = (\<lambda>a b c d e. going_on (modbus_new_rtu E a b c d e))"
  "modbus_set_error_recovery (halting_env E ls rs req) = (\<lambda>a. going_on (modbus_set_error_recovery E a))"
  "modbus_connect (halting_env E ls rs req) = (\<lambda>a. going_on (modbus_connect E a))"
  "modbus_close (halting_env E ls rs req) = (\<lambda>a. going_on (modbus_close E a))"
  "modbus_free (halting_env E ls rs req) = (\<lambda>a. going_on (modbus_free E a))"
  "modbus_set_slave (halting_env E ls rs req) = (\<lambda>a b. going_on (modbus_set_slave E a b))"
  "modbus_set_response_timeout (halting_env E ls rs req) = (\<lambda>a b c. going_on (modbus_set_response_timeout E a b c))"
  "modbus_set_byte_timeout (halting_env E ls rs req) = (\<lambda>a b c. going_on (modbus_set_byte_timeout E a b c))"
  "modbus_mapping_new (halting_env E ls rs req) = (\<lambda>a b c d. going_on (modbus_mapping_new E a b c d))"
  "modbus_receive (halting_env E ls rs req) = (\<lambda>a. going_on (modbus_receive E a))"
  "modbus_get_header_length (halting_env E ls rs req) = (\<lambda>a. going_on (modbus_get_header_length E a))"
  "modbus_reply (halting_env E ls rs req) = (\<lambda>a b c d. going_on (modbus_reply E a b c d))"
  "modbus_tcp_pi_listen (halting_env E ls rs req) = (\<lambda>a b. going_on (modbus_tcp_pi_listen E a b))"
  "modbus_set_socket (halting_env E ls rs req) = (\<lambda>a b. going_on (modbus_set_socket E a b))"
  "errno_of (halting_env E ls rs req) v = errno_of E (fst v)"
  "clock_gettime (halting_env E ls rs req) = going_on (clock_gettime E)"
  "sleep_for (halting_env E ls rs req) = (\<lambda>a. going_on (sleep_for E a))"
  "sleep_until (halting_env E ls rs req) = (\<lambda>a. going_on (sleep_until E a))"
  "malloc_ok (halting_env E ls rs req) = going_on (malloc_ok E)"
  "set_priority (halting_env E ls rs req) = (\<lambda>a. going_on (set_priority E a))"
  "mutex_lock (halting_env E ls rs req) = stopping ls (\<lambda>w. w) (mutex_lock E)"
  "mutex_unlock (halting_env E ls rs req) = going_on (mutex_unlock E)"
  "access_rw (halting_env E ls rs req) = (\<lambda>a. going_on (access_rw E a))"
  "select_read (halting_env E ls rs req) = (\<lambda>a b. going_on (select_read E a b))"
  "accept_fd (halting_env E ls rs req) = (\<lambda>a. going_on (accept_fd E a))"
  "close_fd (halting_env E ls rs req) = (\<lambda>a. going_on (close_fd E a))"
  by (simp_all add: halting_env_def split: prod.splits)

lemma halting_runs:
  "going_on call v = (fst (call (fst v)), (if snd v then fst v else snd (call (fst v))), snd v)"
  "stopping stops until call (w, False) = (fst (call w), if stops w then (until w, True) else (snd (call w), False))"
  "stopping stops until call (w, True) = (fst (call w), (w, True))"
  by (auto simp: going_on_def stopping_def split: prod.splits)


section \<open>What halting threads keep\<close>

lemma surroundings_keep_pair:
  "surroundings_keep E f \<Longrightarrow> surroundings_keep E g \<Longrightarrow> surroundings_keep E (\<lambda>w. (f w, g w))"
  by (simp add: surroundings_keep_def master_calls_keep_def clock_keeps_def image_access_keeps_def)

lemma halting_surroundings:
  assumes "surroundings_keep E f"
  shows "surroundings_keep (halting_env E ls rs req) (\<lambda>v. (f (fst v), snd v))"
  using assms
  by (auto simp: surroundings_keep_def master_calls_keep_def clock_keeps_def image_access_keeps_def halting_defs)

lemma halted_preserves: "action_preserves (halting_env E ls rs req) (\<lambda>v. P (fst v) \<and> snd v)"
  by (auto simp: action_preserves_def halting_defs)

lemma halting_preserves:
  assumes "requests_keep E f" "surroundings_keep E f" "\<forall>w. f (req w) = f w"
  shows "action_preserves (halting_env E ls rs req) (\<lambda>v. f (fst v) = x)"
  using assms
  by (auto simp: surroundings_keep_def clock_keeps_def image_access_keeps_def requests_keep_def action_preserves_def
      halting_defs)

section \<open>From one state of the world to another\<close>

text \<open>From a world with \<open>I\<close> a computation comes to one with \<open>J\<close>, however it ends.\<close>

definition leads :: "('w \<Rightarrow> bool) \<Rightarrow> ('w, 'a) prog \<Rightarrow> ('w \<Rightarrow> bool) \<Rightarrow> bool" where
  "leads I m J \<longleftrightarrow> (\<forall>w. I w \<longrightarrow> J (snd (m w)))"

lemma leads_keeps: "keeps I m \<longleftrightarrow> leads I m I"
  by (simp add: keeps_def leads_def)

lemma leads_ext: "(\<And>w. I w \<Longrightarrow> J (snd (g w))) \<Longrightarrow> leads I (ext g) J"
  by (fastforce simp: leads_def run_simps split: prod.splits)

lemma leads_bind:
  assumes "leads I m J" "\<And>x. leads J (f x) K" "\<And>w. J w \<Longrightarrow> K w"
  shows "leads I (bindM m f) K"
  unfolding leads_def
proof (intro allI impI)
  fix w assume "I w"
  moreover obtain r w' where m: "m w = (r, w')" by fastforce
  ultimately have J: "J w'"
    using assms(1) unfolding leads_def by (metis snd_conv)
  then show "K (snd (bindM m f w))"
    using assms(2,3) m by (cases r) (auto simp: bindM_def leads_def)
qed

lemma leads_seq: "leads I m J \<Longrightarrow> leads J n K \<Longrightarrow> (\<And>w. J w \<Longrightarrow> K w) \<Longrightarrow> leads I (seqM m n) K"
  unfolding seqM_def by (rule leads_bind)

text \<open>A call always returns.\<close>

lemma leads_call: "leads I (ext g) J \<Longrightarrow> (\<And>x. leads J (f x) K) \<Longrightarrow> leads I (bindM (ext g) f) K"
  by (fastforce simp: leads_def run_simps split: prod.splits)

lemma leads_after:
  assumes "\<And>w. wp m (\<lambda>x _. P x) w" "keeps I m" "\<And>x. P x \<Longrightarrow> leads I (f x) K"
  shows "leads I (bindM m f) K"
  unfolding leads_def
proof (intro allI impI)
  fix w assume "I w"
  obtain x v where m: "m w = (Ret x, v)" "P x"
    using assms(1) [of w] by (auto simp: wp_iff)
  then have "I v"
    using keepsD [OF assms(2) \<open>I w\<close>] by blast
  then show "K (snd (bindM m f w))"
    using assms(3) m by (simp add: bindM_def leads_def)
qed

lemma wlp_leads: "leads I m J \<Longrightarrow> I w \<Longrightarrow> wlp m (\<lambda>_. J) w"
  by (auto simp: leads_def wlp_def split: outcome.splits prod.splits)

lemma processModbusAction_leads:
  assumes "\<And>w. I w \<Longrightarrow> J (snd (mutex_lock C w))" "action_preserves C J"
    and "\<And>w. J w \<Longrightarrow> K (snd (mutex_unlock C w))" "\<And>w. J w \<Longrightarrow> K w"
  shows "leads I (processModbusAction C ctx ev buffer) K"
proof -
  have parts: "leads J (process_function C ctx f act b) J" "leads J (report_outcome C act l s) J" for f act b l s
    unfolding leads_keeps [symmetric]
    by (rule process_function_keeps [OF assms(2)] report_outcome_keeps [OF assms(2)])+
  have "leads J (seqM (ext (mutex_unlock C)) (ret x)) K" for x :: "int \<times> u8 list"
    using assms(3) by (auto simp: leads_def run_simps split: prod.splits) (metis snd_conv)
  then have "leads J (seqM (report_outcome C act l s) (seqM (ext (mutex_unlock C)) (ret x))) K" for act l s and x :: "int \<times> u8 list"
    by (rule leads_seq [OF parts(2) _ assms(4)])
  then have "leads J (bindM (process_function C ctx f act b) (\<lambda>(l, s, b).
      seqM (report_outcome C act l s) (seqM (ext (mutex_unlock C)) (ret (l, b))))) K" for f act b
    by (intro leads_bind [OF parts(1) _ assms(4)]) (simp_all split: prod.splits)
  moreover have "leads I (ext (mutex_lock C)) J"
    by (rule leads_ext) (rule assms(1))
  ultimately show ?thesis
    unfolding processModbusAction_def Let_def by (intro leads_seq [where J = J and K = K] assms(4))
qed

text \<open>
  A pass of a main loop takes the world from \<open>I\<close> to \<open>J\<close> when its action does, and when everything around
  the action keeps a view \<open>g\<close> that decides both.
\<close>

lemma loops_lead:
  assumes "next_event (eventList m) = Ret (ev, evl)" "\<And>ctx b. leads I (processModbusAction C ctx ev b) J"
    and "surroundings_keep C g" "\<And>v w. g v = g w \<Longrightarrow> I v = I w \<and> J v = J w"
  shows "leads I (tcp_master_loop C cfg m) J" "leads I (rtu_master_loop C cfg m) J"
proof -
  have view: "keeps I n" "keeps J n" if "\<And>b. keeps (\<lambda>v. g v = b) n" for n :: "('a, 'e) prog"
    using that assms(4) unfolding keeps_def by metis+
  note calls = surroundings_ext [OF assms(3)] and parts = master_parts_keep [OF assms(3)]
  have close: "keeps J (ext (modbus_close C c))" for c
    by (rule view(2) [OF calls(8)])
  have "keeps J (bindM (ext (clock_gettime C)) (\<lambda>now. bindM (liftO (timespec_add now offset)) (\<lambda>e. ret (rc, b, e))))"
    for rc :: int and b :: "u8 list" and offset
    by (intro keeps_intros view(2) [OF calls(13)])
  then have run: "leads I (run_action C ctx ev earliest offset buffer) J" for ctx earliest offset buffer
    unfolding run_action_def seqM_def leads_keeps
    by (intro leads_call [where J = I] leads_bind [OF assms(2)])
       (auto intro: view(1) [OF calls(15), unfolded leads_keeps] view(1) [OF calls(10), unfolded leads_keeps] split: prod.splits)
  have returns: "wp (liftO (next_event (eventList m))) (\<lambda>x _. x = (ev, evl)) v" "wp (reset_status_of C act) (\<lambda>_ _. True) v"
    "wp (reset_master_status C cfg) (\<lambda>_ _. True) v" "wp (reset_all_status C evl) (\<lambda>_ _. True) v" for v act
    using reset_status_returns master_status_returns reset_all_status_returns
    by (simp_all add: assms(1) wp_simps reset_status_of_def)
  note after = leads_after [OF returns(2) view(1) [OF parts(2)]] leads_after [OF returns(3) view(1) [OF parts(3)]]
    leads_after [OF returns(4) view(1) [OF parts(8)]]
  show "leads I (tcp_master_loop C cfg m) J"
    unfolding tcp_master_loop_def Let_def
    by (intro leads_after [OF returns(1) keeps_prims(5)])
       (auto intro!: leads_bind [OF run] after keeps_intros close simp: leads_keeps [symmetric] split: prod.splits)
  show "leads I (rtu_master_loop C cfg m) J"
    unfolding rtu_master_loop_def seqM_def
    by (intro leads_after [OF returns(1) keeps_prims(5)])
       (auto intro!: leads_bind [OF run] after keeps_intros simp: leads_keeps [symmetric] split: prod.splits)
qed

lemma unscheduled_pass:
  assumes "\<nexists>ev evl. next_event (eventList m) = Ret (ev, evl)"
  shows "keeps I (tcp_master_loop C cfg m)" "keeps I (rtu_master_loop C cfg m)"
    and "wlp (tcp_master_loop C cfg m) Q v" "wlp (rtu_master_loop C cfg m) R v"
proof -
  have *: "next_event (eventList m) = Aborted \<or> next_event (eventList m) = Fault"
    using assms by (cases "next_event (eventList m)") auto
  then show "keeps I (tcp_master_loop C cfg m)" "keeps I (rtu_master_loop C cfg m)"
    by (auto simp: keeps_def tcp_master_loop_def rtu_master_loop_def run_simps)
  from * show "wlp (tcp_master_loop C cfg m) Q v" "wlp (rtu_master_loop C cfg m) R v"
    by (auto simp: tcp_master_loop_def rtu_master_loop_def wp_simps wp_liftO)
qed

end
