(* ===== verification/Bus_Timing.thy ===== *)
theory Bus_Timing
  imports Halting
begin

text \<open>
  When an RTU master sends its requests: the times at which it calls the request functions of
  \<^verbatim>\<open>libmodbus\<close>, against the due dates of the scheduler and the pause between telegrams.
\<close>

section \<open>The times of requests\<close>

text \<open>
  A record of the world that no part of the program reads: each of the request functions of
  \<^verbatim>\<open>libmodbus\<close> appends the time at which it is called, and no other call of a master changes it.
\<close>

definition request_log :: "'w env \<Rightarrow> ('w \<Rightarrow> int) \<Rightarrow> ('w \<Rightarrow> int list) \<Rightarrow> bool" where
  "request_log E now sent \<longleftrightarrow>
     (\<forall>c a n w. sent (snd (modbus_read_bits E c a n w)) = sent w @ [now w]
        \<and> sent (snd (modbus_read_input_bits E c a n w)) = sent w @ [now w]
        \<and> sent (snd (modbus_read_registers E c a n w)) = sent w @ [now w]
        \<and> sent (snd (modbus_read_input_registers E c a n w)) = sent w @ [now w]
        \<and> sent (snd (modbus_write_bit E c a n w)) = sent w @ [now w]
        \<and> sent (snd (modbus_write_register E c a n w)) = sent w @ [now w])
   \<and> (\<forall>c a n d w. sent (snd (modbus_write_bits E c a n d w)) = sent w @ [now w])
   \<and> (\<forall>c a n d w. sent (snd (modbus_write_registers E c a n d w)) = sent w @ [now w])
   \<and> (\<forall>c n w. sent (snd (modbus_report_slave_id E c n w)) = sent w @ [now w])
   \<and> surroundings_keep E sent \<and> mutex_keeps E sent"

text \<open>Before and after the request of an action that starts at time \<open>T\<close>.\<close>

definition before_request :: "('w \<Rightarrow> int) \<Rightarrow> ('w \<Rightarrow> int list) \<Rightarrow> int list \<Rightarrow> int \<Rightarrow> 'w \<Rightarrow> bool" where
  "before_request now sent l T w \<longleftrightarrow> sent w = l \<and> T \<le> now w"

definition requested_once :: "('w \<Rightarrow> int) \<Rightarrow> ('w \<Rightarrow> int list) \<Rightarrow> int list \<Rightarrow> int \<Rightarrow> 'w \<Rightarrow> bool" where
  "requested_once now sent l T w \<longleftrightarrow> T \<le> now w
     \<and> (\<exists>ts. sent w = l @ ts \<and> length ts \<le> 1 \<and> (\<forall>t \<in> set ts. T \<le> t \<and> t \<le> now w))"

lemma before_requested_once: "before_request now sent l T w \<Longrightarrow> requested_once now sent l T w"
  by (auto simp: before_request_def requested_once_def intro: exI [of _ "[]"])

lemma quiet_call:
  assumes "\<And>w. sent (snd (g w)) = sent w" "\<And>w. now w \<le> now (snd (g w))"
  shows "keeps (before_request now sent l T) (ext g)" "keeps (requested_once now sent l T) (ext g)"
proof -
  have mono: "T \<le> now (snd (g w))" if "T \<le> now w" for w T
    using that assms(2) order_trans by blast
  show "keeps (before_request now sent l T) (ext g)"
    by (rule keeps_ext) (simp add: before_request_def assms(1) mono)
  show "keeps (requested_once now sent l T) (ext g)"
    by (rule keeps_ext) (auto simp: requested_once_def assms(1) mono)
qed

lemma request_call:
  assumes "\<And>w. sent (snd (g w)) = sent w @ [now w]" "\<And>w. now w \<le> now (snd (g w))"
  shows "leads (before_request now sent l T) (ext g) (requested_once now sent l T)"
  by (rule leads_ext) (auto simp: before_request_def requested_once_def assms intro: order_trans [OF _ assms(2)])

lemma clock_advances:
  assumes "clock_laws E now"
  shows "now w \<le> now (snd (modbus_read_bits E c a n w))" "now w \<le> now (snd (modbus_read_input_bits E c a n w))"
    and "now w \<le> now (snd (modbus_read_registers E c a n w))" "now w \<le> now (snd (modbus_read_input_registers E c a n w))"
    and "now w \<le> now (snd (modbus_write_bit E c a n w))" "now w \<le> now (snd (modbus_write_register E c a n w))"
    and "now w \<le> now (snd (modbus_write_bits E c a n bs w))" "now w \<le> now (snd (modbus_write_registers E c a n rs w))"
    and "now w \<le> now (snd (modbus_report_slave_id E c k w))" "now w \<le> now (snd (sleep_for E t w))"
    and "now w \<le> now (snd (piControlWrite E off len d w))" "now w \<le> now (snd (piControlRead E off len w))"
    and "now w \<le> now (snd (piControlSetBitValue E v w))" "now w \<le> now (snd (piControlGetBitValue E v w))"
    and "now w \<le> now (snd (sleep_until E t w))" "now w \<le> now (snd (modbus_set_slave E c b w))"
    and "now w \<le> now (snd (mutex_lock E w))" "now w \<le> now (snd (mutex_unlock E w))"
proof -
  have keep: "action_preserves E (\<lambda>v. now w \<le> now v)"
    using assms by (simp add: clock_laws_def)
  show "now w \<le> now (snd (modbus_read_bits E c a n w))" "now w \<le> now (snd (modbus_read_input_bits E c a n w))"
    "now w \<le> now (snd (modbus_read_registers E c a n w))" "now w \<le> now (snd (modbus_read_input_registers E c a n w))"
    "now w \<le> now (snd (modbus_write_bit E c a n w))" "now w \<le> now (snd (modbus_write_register E c a n w))"
    "now w \<le> now (snd (modbus_write_bits E c a n bs w))" "now w \<le> now (snd (modbus_write_registers E c a n rs w))"
    "now w \<le> now (snd (modbus_report_slave_id E c k w))" "now w \<le> now (snd (sleep_for E t w))"
    "now w \<le> now (snd (piControlWrite E off len d w))" "now w \<le> now (snd (piControlRead E off len w))"
    "now w \<le> now (snd (piControlSetBitValue E v w))" "now w \<le> now (snd (piControlGetBitValue E v w))"
    by (simp_all add: action_preservesD [OF keep])
  show "now w \<le> now (snd (sleep_until E t w))" "now w \<le> now (snd (modbus_set_slave E c b w))"
    "now w \<le> now (snd (mutex_lock E w))" "now w \<le> now (snd (mutex_unlock E w))"
    using assms by (simp_all add: clock_laws_def)
qed

lemma quiet_calls:
  assumes "clock_laws E now" "request_log E now sent" "I = before_request now sent l T \<or> I = requested_once now sent l T"
  shows "keeps I (ext (piControlWrite E off len d))" "keeps I (ext (piControlRead E off len))"
    and "keeps I (ext (piControlSetBitValue E v))" "keeps I (ext (piControlGetBitValue E v))" "keeps I (ext (sleep_for E t))"
    and "keeps I (ext (sleep_until E t))" "keeps I (ext (modbus_set_slave E c a))"
    and "keeps I (ext (mutex_lock E))" "keeps I (ext (mutex_unlock E))" "keeps I (ext (clock_gettime E))"
proof -
  have "sent (snd (piControlWrite E off len d w)) = sent w" "sent (snd (piControlRead E off len w)) = sent w"
    "sent (snd (piControlSetBitValue E v w)) = sent w" "sent (snd (piControlGetBitValue E v w)) = sent w"
    "sent (snd (sleep_for E t w)) = sent w" "sent (snd (sleep_until E t w)) = sent w" "sent (snd (modbus_set_slave E c a w)) = sent w"
    "sent (snd (mutex_lock E w)) = sent w" "sent (snd (mutex_unlock E w)) = sent w" "sent (snd (clock_gettime E w)) = sent w"
    and "now (snd (clock_gettime E w)) = now w" for w
    using assms(1,2)
    by (simp_all add: request_log_def surroundings_keep_def master_calls_keep_def clock_keeps_def image_access_keeps_def
        mutex_keeps_def clock_laws_def)
  then show "keeps I (ext (piControlWrite E off len d))" "keeps I (ext (piControlRead E off len))"
    "keeps I (ext (piControlSetBitValue E v))" "keeps I (ext (piControlGetBitValue E v))" "keeps I (ext (sleep_for E t))"
    "keeps I (ext (sleep_until E t))" "keeps I (ext (modbus_set_slave E c a))"
    "keeps I (ext (mutex_lock E))" "keeps I (ext (mutex_unlock E))" "keeps I (ext (clock_gettime E))"
    using assms(3) clock_advances [OF assms(1)] by (auto intro!: quiet_call)
qed

lemma image_loops:
  assumes "clock_laws E now" "request_log E now sent" "I = before_request now sent l T \<or> I = requested_once now sent l T"
  shows "keeps I (set_coils E act buffer is s)" "keeps I (get_coils E act is s buf)"
    and "keeps I (report_outcome E act len s)"
proof -
  note calls = quiet_calls [OF assms]
  show "keeps I (set_coils E act buffer is s)"
    by (induction "is" arbitrary: s) (auto intro!: keeps_intros calls)
  show "keeps I (get_coils E act is s buf)"
    by (induction "is" arbitrary: s buf) (auto intro!: keeps_intros calls)
  show "keeps I (report_outcome E act len s)"
    unfolding report_outcome_def writeErrorMessage_def by (intro keeps_intros calls)
qed

section \<open>One action\<close>

text \<open>The request of a computation comes later, it comes now, or it does not come.\<close>

abbreviation sends_once :: "('w \<Rightarrow> int) \<Rightarrow> ('w \<Rightarrow> int list) \<Rightarrow> int list \<Rightarrow> int \<Rightarrow> ('w, 'a) prog \<Rightarrow> bool" where
  "sends_once now sent l T m \<equiv> leads (before_request now sent l T) m (requested_once now sent l T)"

lemma sends_later:
  "keeps (before_request now sent l T) m \<Longrightarrow> (\<And>x. sends_once now sent l T (f x)) \<Longrightarrow> sends_once now sent l T (bindM m f)"
  "keeps (before_request now sent l T) m \<Longrightarrow> sends_once now sent l T n \<Longrightarrow> sends_once now sent l T (seqM m n)"
  unfolding leads_keeps seqM_def
  by (auto intro: leads_bind [where J = "before_request now sent l T"] before_requested_once)

lemma sends_now:
  "sends_once now sent l T m \<Longrightarrow> (\<And>x. keeps (requested_once now sent l T) (f x)) \<Longrightarrow> sends_once now sent l T (bindM m f)"
  "sends_once now sent l T m \<Longrightarrow> keeps (requested_once now sent l T) n \<Longrightarrow> sends_once now sent l T (seqM m n)"
  unfolding leads_keeps seqM_def by (auto intro: leads_bind [where J = "requested_once now sent l T"])

lemma sends_nothing: "sends_once now sent l T (ret x)" "sends_once now sent l T faultM"
  by (simp_all add: leads_def run_simps before_requested_once)

lemma sends_cases:
  "(b \<Longrightarrow> sends_once now sent l T m) \<Longrightarrow> (\<not> b \<Longrightarrow> sends_once now sent l T n) \<Longrightarrow> sends_once now sent l T (if b then m else n)"
  "(\<And>x y. sends_once now sent l T (g x y)) \<Longrightarrow> sends_once now sent l T (case p of (x, y) \<Rightarrow> g x y)"
  by (simp_all split: prod.splits)

lemma process_function_sends_once:
  assumes "clock_laws E now" "request_log E now sent"
  shows "sends_once now sent l T (process_function E ctx f act buffer)"
proof -
  note before = quiet_calls(2) [OF assms disjI1 [OF refl]] image_loops(2) [OF assms disjI1 [OF refl]] keeps_prims
  note after = quiet_calls(1) [OF assms disjI2 [OF refl]] image_loops(1) [OF assms disjI2 [OF refl]]
  have requests: "sends_once now sent l T (ext (modbus_read_bits E ctx a n))" "sends_once now sent l T (ext (modbus_read_input_bits E ctx a n))"
    "sends_once now sent l T (ext (modbus_read_registers E ctx a n))" "sends_once now sent l T (ext (modbus_read_input_registers E ctx a n))"
    "sends_once now sent l T (ext (modbus_write_bit E ctx a n))" "sends_once now sent l T (ext (modbus_write_register E ctx a n))"
    "sends_once now sent l T (ext (modbus_write_bits E ctx a n bs))" "sends_once now sent l T (ext (modbus_write_registers E ctx a n rs))"
    "sends_once now sent l T (ext (modbus_report_slave_id E ctx k))" for a n bs rs k
    by (rule request_call; use assms(2) clock_advances [OF assms(1)] in \<open>simp add: request_log_def\<close>)+
  show ?thesis
    by (cases f)
       (simp_all add: read_bits_case_def read_registers_case_def write_single_register_case_def write_single_coil_case_def
         write_multiple_coils_case_def write_multiple_registers_case_def report_slave_id_case_def sends_nothing,
        (intro sends_later(2) [OF keeps_prims(2)] sends_now [OF requests(1)] sends_now [OF requests(2)] sends_now [OF requests(3)]
          sends_now [OF requests(4)] sends_now [OF requests(5)] sends_now [OF requests(6)] sends_now [OF requests(7)]
          sends_now [OF requests(8)] sends_now [OF requests(9)] sends_later [OF before(1)] sends_later [OF before(2)]
          sends_later [OF keeps_prims(5)] sends_cases sends_nothing keeps_intros after)+)
qed

lemma processModbusAction_sends_once:
  assumes "clock_laws E now" "request_log E now sent"
  shows "sends_once now sent l T (processModbusAction E ctx ev buffer)"
  unfolding processModbusAction_def Let_def
  by (intro sends_later(2) [OF quiet_calls(8) [OF assms disjI1 [OF refl]]] sends_now(1) [OF process_function_sends_once [OF assms]])
     (auto intro!: keeps_intros image_loops(3) [OF assms disjI2 [OF refl]] quiet_calls(9) [OF assms disjI2 [OF refl]] split: prod.splits)

text \<open>The two sleeps put the request behind the due date of the event and behind the pause.\<close>

lemma run_action_sends_once:
  assumes "clock_laws E now" "request_log E now sent" "wf_timespec offset"
  shows "wlp (run_action E ctx ev earliest offset buffer) (\<lambda>r v.
     requested_once now sent (sent w) (max (ns_of (eventTriggerTime ev)) (ns_of earliest)) v
     \<and> ns_of (snd (snd r)) = now v + ns_of offset) w"
proof -
  let ?T = "max (ns_of (eventTriggerTime ev)) (ns_of earliest)"
  let ?w1 = "snd (sleep_until E earliest (snd (sleep_until E (eventTriggerTime ev) w)))"
  have slept: "?T \<le> now ?w1"
    using assms(1) order_trans unfolding clock_laws_def by (metis max.boundedI)
  have kept: "sent (snd (sleep_until E t v)) = sent v" "sent (snd (modbus_set_slave E ctx a v)) = sent v"
    "sent (snd (clock_gettime E v)) = sent v" for t a v
    using assms(2)
    by (simp_all add: request_log_def surroundings_keep_def master_calls_keep_def clock_keeps_def)
  have "now ?w1 \<le> now (snd (modbus_set_slave E ctx a ?w1))" for a
    by (rule clock_advances [OF assms(1)])
  then have start: "before_request now sent (sent w) ?T (snd (modbus_set_slave E ctx a ?w1))" for a
    using slept order_trans unfolding before_request_def kept by blast
  have clock: "ns_of (fst (clock_gettime E v)) = now v" "now (snd (clock_gettime E v)) = now v" "wf_timespec (fst (clock_gettime E v))" for v
    using assms(1) by (simp_all add: clock_laws_def)
  have "requested_once now sent (sent w) ?T (snd (clock_gettime E v))" if "requested_once now sent (sent w) ?T v" for v
    using that by (simp add: requested_once_def kept clock)
  then show ?thesis
    unfolding run_action_def wp_simps wp_liftO case_prod_unfold
    by (intro wlp_mono [OF wlp_leads [OF processModbusAction_sends_once [OF assms(1,2)] start]])
       (auto simp: timespec_add_eq clock assms(3))
qed

lemma reset_status_silent:
  assumes "request_log E now sent"
  shows "keeps (\<lambda>v. sent v = l) (reset_all_status E evl)" "keeps (\<lambda>v. sent v = l) (reset_master_status E cfg)"
  using assms by (auto simp: request_log_def intro: master_parts_keep)

lemma rtu_pass_sends_once:
  assumes "clock_laws E now" "request_log E now sent" "wf_timespec (minimal_event_offset m)"
  shows "wlp (startRtuMasterThread E cfg (RM_loop m)) (\<lambda>p v. \<exists>m' ev ts. p = RM_loop m'
     \<and> next_event (eventList m) = Ret (ev, eventList m') \<and> minimal_event_offset m' = minimal_event_offset m
     \<and> sent v = sent w @ ts \<and> length ts \<le> 1
     \<and> (\<forall>t \<in> set ts. ns_of (eventTriggerTime ev) \<le> t \<and> ns_of (earliest_next_trigger m) \<le> t
          \<and> t + ns_of (minimal_event_offset m) \<le> ns_of (earliest_next_trigger m'))
     \<and> ns_of (earliest_next_trigger m) + ns_of (minimal_event_offset m) \<le> ns_of (earliest_next_trigger m')) w"
proof -
  note silent = wlp_keeps [OF reset_status_silent(1) [OF assms(2)], OF refl] wlp_keeps [OF reset_status_silent(2) [OF assms(2)], OF refl]
  show ?thesis
    unfolding startRtuMasterThread.simps rtu_master_loop_def wp_simps wp_liftO case_prod_unfold
    by (intro allI impI, rule wlp_mono [OF silent(1)], rule wlp_mono [OF silent(2)],
        rule wlp_mono [OF run_action_sends_once [OF assms]])
       (fastforce simp: requested_once_def)
qed

section \<open>Many passes\<close>

text \<open>
  What \<open>n\<close> passes from the state \<open>m\<close> have sent: the events are those that the scheduler hands out, one for
  each pass, and \<open>tss\<close> are the times of the requests, pass by pass.
\<close>

definition paced_requests :: "master \<Rightarrow> nat \<Rightarrow> int list \<Rightarrow> master \<Rightarrow> int list \<Rightarrow> bool" where
  "paced_requests m n before m' after \<longleftrightarrow> (\<exists>evs tss.
     getNextEvents n (eventList m) = Ret (evs, eventList m') \<and> after = before @ concat tss
     \<and> list_all2 (\<lambda>ev ts. length ts \<le> 1 \<and> (\<forall>t \<in> set ts. ns_of (eventTriggerTime ev) \<le> t)) evs tss
     \<and> sorted_wrt (\<lambda>s t. s + ns_of (minimal_event_offset m) \<le> t) (concat tss)
     \<and> (\<forall>t \<in> set (concat tss). ns_of (earliest_next_trigger m) \<le> t))"

lemma getNextEvents_Suc:
  "next_event evl = Ret (ev, evl1) \<Longrightarrow> getNextEvents n evl1 = Ret (evs, evl2) \<Longrightarrow> getNextEvents (Suc n) evl = Ret (ev # evs, evl2)"
  by (auto simp: next_event_def obind_Ret_iff split: option.splits)

lemma paced_Suc:
  assumes "next_event (eventList m) = Ret (ev, eventList m1)" "minimal_event_offset m1 = minimal_event_offset m"
    and "length ts \<le> 1" "0 \<le> ns_of (minimal_event_offset m)"
    and "\<forall>t \<in> set ts. ns_of (eventTriggerTime ev) \<le> t \<and> ns_of (earliest_next_trigger m) \<le> t
      \<and> t + ns_of (minimal_event_offset m) \<le> ns_of (earliest_next_trigger m1)"
    and "ns_of (earliest_next_trigger m) + ns_of (minimal_event_offset m) \<le> ns_of (earliest_next_trigger m1)"
    and "paced_requests m1 n (before @ ts) m' after"
  shows "paced_requests m (Suc n) before m' after"
proof -
  obtain evs tss where rest: "getNextEvents n (eventList m1) = Ret (evs, eventList m')" "after = before @ ts @ concat tss"
      "list_all2 (\<lambda>ev ts. length ts \<le> 1 \<and> (\<forall>t \<in> set ts. ns_of (eventTriggerTime ev) \<le> t)) evs tss"
      "sorted_wrt (\<lambda>s t. s + ns_of (minimal_event_offset m) \<le> t) (concat tss)"
      "\<forall>t \<in> set (concat tss). ns_of (earliest_next_trigger m1) \<le> t"
    using assms(2,7) by (auto simp: paced_requests_def)
  have "sorted_wrt (\<lambda>s t. s + ns_of (minimal_event_offset m) \<le> t) (ts @ concat tss)"
    using assms(3,5) rest(4,5) by (cases ts) (force simp: sorted_wrt_append)+
  moreover have "\<forall>t \<in> set (ts @ concat tss). ns_of (earliest_next_trigger m) \<le> t"
    using assms(4-6) rest(5) by fastforce
  ultimately show ?thesis
    unfolding paced_requests_def using getNextEvents_Suc [OF assms(1) rest(1)] assms(3,5) rest(2,3)
    by (intro exI [of _ "ev # evs"] exI [of _ "ts # tss"]) auto
qed

lemma rtu_passes_paced:
  assumes "clock_laws E now" "request_log E now sent"
  shows "wf_timespec (minimal_event_offset m) \<Longrightarrow> 0 \<le> ns_of (minimal_event_offset m) \<Longrightarrow>
     wlp (run_steps n (startRtuMasterThread E cfg) (RM_loop m))
       (\<lambda>p v. \<exists>m'. p = RM_loop m' \<and> paced_requests m n (sent w) m' (sent v)) w"
proof (induction n arbitrary: m w)
  case 0
  then show ?case
    by (auto simp: wp_simps paced_requests_def intro!: exI [of _ "[]"])
next
  case (Suc n)
  show ?case
    unfolding run_steps.simps wlp_bind
  proof (rule wlp_mono [OF rtu_pass_sends_once [OF assms Suc.prems(1)]], elim exE conjE)
    fix p v m1 ev ts
    assume pass: "p = RM_loop m1" "next_event (eventList m) = Ret (ev, eventList m1)"
      "minimal_event_offset m1 = minimal_event_offset m" "sent v = sent w @ ts" "length ts \<le> 1"
      "\<forall>t \<in> set ts. ns_of (eventTriggerTime ev) \<le> t \<and> ns_of (earliest_next_trigger m) \<le> t
        \<and> t + ns_of (minimal_event_offset m) \<le> ns_of (earliest_next_trigger m1)"
      "ns_of (earliest_next_trigger m) + ns_of (minimal_event_offset m) \<le> ns_of (earliest_next_trigger m1)"
    have "wlp (run_steps n (startRtuMasterThread E cfg) (RM_loop m1))
       (\<lambda>p v'. \<exists>m'. p = RM_loop m' \<and> paced_requests m1 n (sent w @ ts) m' (sent v')) v"
      using Suc.IH [of m1 v] Suc.prems pass(3,4) by simp
    then show "wlp (run_steps n (startRtuMasterThread E cfg) p)
       (\<lambda>p v'. \<exists>m'. p = RM_loop m' \<and> paced_requests m (Suc n) (sent w) m' (sent v')) v"
      unfolding pass(1) using paced_Suc [OF pass(2,3,5) Suc.prems(2) pass(6,7)] by (auto elim!: wlp_mono)
  qed
qed

text \<open>The pause of an RTU master is normalised and not negative, whatever the intervals are.\<close>

lemma rtu_offset_normal:
  "rtu_event_offset cfg t = Ret offset \<Longrightarrow> wf_timespec offset \<and> 0 \<le> ns_of offset"
proof -
  assume "rtu_event_offset cfg t = Ret offset"
  then obtain k :: u64 where "offset = \<lparr>tv_sec = uint (k div 1000000000), tv_nsec = uint (k mod 1000000000)\<rparr>"
    by (auto simp: rtu_event_offset_def Let_def split: if_splits)
  moreover have "uint (k mod 1000000000) < 1000000000"
    by (simp add: uint_mod)
  ultimately show ?thesis
    by (simp add: wf_timespec_def ns_of_def)
qed

definition normal_pause :: "rtu_master_phase \<Rightarrow> bool" where
  "normal_pause p \<longleftrightarrow> (\<forall>m. p = RM_loop m \<longrightarrow> wf_timespec (minimal_event_offset m) \<and> 0 \<le> ns_of (minimal_event_offset m))"

lemma wlp_liftO_fun: "wlp (liftO v) Q = (\<lambda>s. \<forall>x. v = Ret x \<longrightarrow> Q x s)"
  by (simp add: wp_liftO fun_eq_iff)

lemma rtu_step_pause:
  assumes "normal_pause p"
  shows "wlp (startRtuMasterThread E cfg p) (\<lambda>p' _. normal_pause p') w"
proof (cases p)
  case RM_wait
  then show ?thesis
    by (auto simp: rtu_master_open_def rtu_master_begin_def normal_pause_def wp_simps wlp_liftO_fun case_prod_unfold
        dest!: rtu_offset_normal intro!: wlp_True split: option.splits)
next
  case (RM_loop m)
  with assms show ?thesis
    by (auto simp: rtu_master_loop_def normal_pause_def wp_simps wp_liftO case_prod_unfold intro!: wlp_True)
qed (simp add: normal_pause_def wp_simps)

lemma run_steps_safe:
  "(\<And>p w. I p \<Longrightarrow> wp (step p) (\<lambda>p' _. I p') w) \<Longrightarrow> I p \<Longrightarrow> wp (run_steps n step p) (\<lambda>p' _. I p') w"
proof (induction n arbitrary: p w)
  case (Suc n)
  show ?case
    unfolding run_steps.simps wp_bind
    by (rule wp_mono [OF Suc.prems(1) [OF Suc.prems(2)]]) (rule Suc.IH [OF Suc.prems(1)])
qed (simp add: wp_simps)

section \<open>Properties\<close>

text \<open>
  C36: The pace of an RTU master. From any state in which it is in its main loop, \<open>n\<close> passes come to their
  end and leave it there; each of them hands out the next event of the scheduler and sends at most one
  request, not before the due date of this event; any two requests are at least the minimal event offset
  apart, from the times at which they are handed to \<^verbatim>\<open>libmodbus\<close>, whatever the slaves answer and however
  late the events are; and none is sent before the pause after the previous action is over.
\<close>

theorem rtu_master_rate:
  assumes "master_world E img" "clock_laws E now" "request_log E now sent"
    and "runnable_master cfg" "uProt (masterDeviceConfig cfg) = tRtuConfig rtu"
    and "thread_reach (startRtuMasterThread E cfg) RM_wait w0 (RM_loop m) w"
  shows "wp (run_steps n (startRtuMasterThread E cfg) (RM_loop m)) (\<lambda>p v. \<exists>m' evs tss. p = RM_loop m'
     \<and> getNextEvents n (eventList m) = Ret (evs, eventList m')
     \<and> sent v = sent w @ concat tss
     \<and> list_all2 (\<lambda>ev ts. length ts \<le> 1 \<and> (\<forall>t \<in> set ts. ns_of (eventTriggerTime ev) \<le> t)) evs tss
     \<and> sorted_wrt (\<lambda>s t. s + ns_of (minimal_event_offset m) \<le> t) (concat tss)
     \<and> (\<forall>t \<in> set (concat tss). ns_of (earliest_next_trigger m) \<le> t)) w"
proof -
  have acts: "\<forall>a \<in> set (mbActionListHead cfg). admissible_action a" "i32ActionCount cfg = int (length (mbActionListHead cfg))"
    using assms(4) by (simp_all add: runnable_master_def)
  note safe_step = rtu_master_step_safe [OF assms(1) acts assms(5)]
  have "rtu_master_safe cfg (RM_loop m)"
    by (rule thread_reach_inv [OF assms(6), where I = "\<lambda>p _. rtu_master_safe cfg p"]) (simp, rule wp_wlp [OF safe_step])
  then have total: "wp (run_steps n (startRtuMasterThread E cfg) (RM_loop m)) (\<lambda>p _. rtu_master_safe cfg p) w"
    by (rule run_steps_safe [where I = "rtu_master_safe cfg", rotated]) (rule safe_step)
  have "normal_pause (RM_loop m)"
    by (rule thread_reach_inv [OF assms(6), where I = "\<lambda>p _. normal_pause p"]) (simp add: normal_pause_def, rule rtu_step_pause)
  then have "wf_timespec (minimal_event_offset m)" "0 \<le> ns_of (minimal_event_offset m)"
    by (simp_all add: normal_pause_def)
  from wp_conj [OF total rtu_passes_paced [OF assms(2,3) this]] show ?thesis
    unfolding paced_requests_def by (rule wp_mono) (elim conjE exE; intro exI conjI; assumption)
qed

text \<open>The plant with a record of the times of its requests, and an RTU master with one action per second.\<close>

record logged_plant = plant +
  p_sent :: "int list"

definition note_time :: "logged_plant \<Rightarrow> logged_plant" where
  "note_time w = w\<lparr>p_sent := p_sent w @ [p_clock w]\<rparr>"

definition logging_env :: "logged_plant env" where
  "logging_env = plant_extended_env\<lparr>
     modbus_read_bits := (\<lambda>c a n w. modbus_read_bits plant_extended_env c a n (note_time w)),
     modbus_read_input_bits := (\<lambda>c a n w. modbus_read_input_bits plant_extended_env c a n (note_time w)),
     modbus_read_registers := (\<lambda>c a n w. modbus_read_registers plant_extended_env c a n (note_time w)),
     modbus_read_input_registers := (\<lambda>c a n w. modbus_read_input_registers plant_extended_env c a n (note_time w)),
     modbus_write_bit := (\<lambda>c a v w. modbus_write_bit plant_extended_env c a v (note_time w)),
     modbus_write_register := (\<lambda>c a v w. modbus_write_register plant_extended_env c a v (note_time w)),
     modbus_write_bits := (\<lambda>c a n d w. modbus_write_bits plant_extended_env c a n d (note_time w)),
     modbus_write_registers := (\<lambda>c a n d w. modbus_write_registers plant_extended_env c a n d (note_time w)),
     modbus_report_slave_id := (\<lambda>c n w. modbus_report_slave_id plant_extended_env c n (note_time w))\<rparr>"

definition logged0 :: logged_plant where
  "logged0 = plant.extend plant0 \<lparr>p_sent = []\<rparr>"

lemma logging_log: "request_log logging_env p_clock p_sent"
  by (simp add: request_log_def surroundings_keep_def master_calls_keep_def clock_keeps_def image_access_keeps_def
      mutex_keeps_def logging_env_def note_time_def plant_env_def answer_def accept_write_def)

lemma logging_clock: "clock_laws logging_env p_clock"
  by (auto simp: clock_laws_def action_preserves_def logging_env_def note_time_def plant_env_def answer_def accept_write_def
      wf_timespec_def ns_of_def)

lemma logging_world: "master_world logging_env p_image"
proof -
  have "image_world logging_env p_image"
    using plant_image_world [where 'a = "\<lparr>p_sent :: int list\<rparr>"]
    by (simp add: logging_env_def image_world_def picontrol_laws_def clock_keeps_def mutex_keeps_def requests_keep_def note_time_def)
  moreover have "modbus_limits logging_env" "modbus_read_laws logging_env"
    using plant_limits [where 'a = "\<lparr>p_sent :: int list\<rparr>"] plant_reads [where 'a = "\<lparr>p_sent :: int list\<rparr>"]
    by (simp_all add: logging_env_def modbus_limits_def modbus_read_laws_def stores_at_most_def)
  moreover have "\<forall>w. wf_timespec (fst (clock_gettime logging_env w))"
    by (simp add: logging_env_def plant_clock_wf)
  ultimately show ?thesis
    by (simp add: master_world_def)
qed

definition demo_rtu :: TModbusMasterConfiguration where
  "demo_rtu = (demo_master [demo_action 1 eREAD_COILS 3 1000000])\<lparr>masterDeviceConfig :=
     \<lparr>eProtocol = eProtRTU, uProt = tRtuConfig \<lparr>i32uBaud = 19200, cParity = CHR ''E'', i8uDatabits = 8, i8uStopbits = 1,
        u8DeviceModbusAddress = 17, sz8DeviceFilePath = ''/dev/ttyRS485''\<rparr>,
      i32uDeviceStatusByteProcessImageOffset = 100, i32uDeviceStatusResetByteProcessImageByteOffset = 101\<rparr>\<rparr>"

lemma demo_rtu_loop:
  "\<exists>m w. startRtuMasterThread logging_env demo_rtu RM_wait logged0 = (Ret (RM_loop m), w)
     \<and> minimal_event_offset m = \<lparr>tv_sec = 0, tv_nsec = 250000000\<rparr>"
  by (simp add: rtu_master_open_def rtu_master_begin_def initScheduler_def newSchedulerEvent_def timespec_add_def Let_def
      set_timeouts_def get_minimal_modbus_action_interval_def timespec_diff_def to_i32_def time_defs rtu_config_def
      modbus_timeout_def c_mod_def c_div_def demo_master_run logging_env_def logged0_def plant.extend_def demo_rtu_def
      demo_action_def rtu_event_offset_def)

theorem rtu_master_rate_witness:
  "\<exists>m w m' v ts. thread_reach (startRtuMasterThread logging_env demo_rtu) RM_wait logged0 (RM_loop m) w
     \<and> run_steps 5 (startRtuMasterThread logging_env demo_rtu) (RM_loop m) w = (Ret (RM_loop m'), v)
     \<and> p_sent v = p_sent w @ ts \<and> sorted_wrt (\<lambda>s t. s + 250000000 \<le> t) ts"
proof -
  obtain m w where loop: "startRtuMasterThread logging_env demo_rtu RM_wait logged0 = (Ret (RM_loop m), w)"
      "minimal_event_offset m = \<lparr>tv_sec = 0, tv_nsec = 250000000\<rparr>"
    using demo_rtu_loop by blast
  have reach: "thread_reach (startRtuMasterThread logging_env demo_rtu) RM_wait logged0 (RM_loop m) w"
    by (rule thread_step [OF thread_start]) (rule loop(1))
  have "runnable_master demo_rtu" "uProt (masterDeviceConfig demo_rtu) = tRtuConfig \<lparr>i32uBaud = 19200, cParity = CHR ''E'',
      i8uDatabits = 8, i8uStopbits = 1, u8DeviceModbusAddress = 17, sz8DeviceFilePath = ''/dev/ttyRS485''\<rparr>"
    by (simp_all add: runnable_master_def demo_rtu_def demo_master_def demo_action_def admissible_action_def)
  from rtu_master_rate [OF logging_world logging_clock logging_log this reach, of 5] obtain m' v tss where
    "run_steps 5 (startRtuMasterThread logging_env demo_rtu) (RM_loop m) w = (Ret (RM_loop m'), v)"
    "p_sent v = p_sent w @ concat tss" "sorted_wrt (\<lambda>s t. s + ns_of (minimal_event_offset m) \<le> t) (concat tss)"
    unfolding wp_iff by blast
  moreover have "ns_of (minimal_event_offset m) = 250000000"
    by (simp add: loop(2) ns_of_def)
  ultimately show ?thesis
    using reach by (intro exI [of _ m] exI [of _ w] exI [of _ m'] exI [of _ v] exI [of _ "concat tss"]) simp
qed

end
