(* ===== verification/Slave_Interleaving.thy ===== *)
theory Slave_Interleaving
  imports Thread_Safety Main_Programs Interleaving
begin

text \<open>
  The threads of the slave program in any interleaving of their passes: an interpretation of the
  locale \<open>owners\<close>. What they share is the table of descriptors of their process.
\<close>

section \<open>The slave program\<close>

datatype slave_thread = Tcp_slave tcp_slave_phase | Rtu_slave rtu_slave_phase

definition start_slave_thread :: "TModbusSlaveConfiguration \<Rightarrow> slave_thread" where
  "start_slave_thread cfg = (if slave_routine cfg = StartRtuSlaveThread then Rtu_slave RS_wait else Tcp_slave TS_start)"

fun step_slave_thread ::
  "'w env \<Rightarrow> TModbusSlaveConfiguration \<Rightarrow> slave_thread \<Rightarrow> ('w, slave_thread) prog" where
  "step_slave_thread E cfg (Tcp_slave p) = bindM (startTcpSlaveThread E cfg p) (\<lambda>p'. ret (Tcp_slave p'))"
| "step_slave_thread E cfg (Rtu_slave p) = bindM (startRtuSlaveThread E cfg p) (\<lambda>p'. ret (Rtu_slave p'))"

text \<open>A configuration as the parser yields it: the parameters are those of the protocol.\<close>

definition runnable_slave :: "TModbusSlaveConfiguration \<Rightarrow> bool" where
  "runnable_slave cfg \<longleftrightarrow> (case uProt (slaveDeviceConfig cfg) of
     tTcpConfig _ \<Rightarrow> eProtocol (slaveDeviceConfig cfg) = eProtTCP
   | tRtuConfig _ \<Rightarrow> eProtocol (slaveDeviceConfig cfg) = eProtRTU)"

text \<open>
  The view \<open>fds\<close> is one of sockets: the device file that an RTU slave opens is not among them.
\<close>

definition serial_calls_keep :: "'w env \<Rightarrow> ('w \<Rightarrow> 'v) \<Rightarrow> bool" where
  "serial_calls_keep E f \<longleftrightarrow>
     (\<forall>p w. f (snd (access_rw E p w)) = f w)
   \<and> (\<forall>d b q x y w. f (snd (modbus_new_rtu E d b q x y w)) = f w)
   \<and> (\<forall>c a w. f (snd (modbus_set_slave E c a w)) = f w)
   \<and> (\<forall>c w. f (snd (modbus_connect E c w)) = f w)"

fun slave_sockets :: "slave_thread \<Rightarrow> nat set" where
  "slave_sockets (Tcp_slave (TS_loop t)) = refset t"
| "slave_sockets _ = {}"

fun slave_thread_safe :: "TModbusSlaveConfiguration \<Rightarrow> slave_thread \<Rightarrow> bool" where
  "slave_thread_safe cfg (Tcp_slave (TS_listen m c)) \<longleftrightarrow>
     eProtocol (slaveDeviceConfig cfg) = eProtTCP \<and> mapping_ok m"
| "slave_thread_safe cfg (Tcp_slave (TS_loop t)) \<longleftrightarrow>
     eProtocol (slaveDeviceConfig cfg) = eProtTCP \<and> mapping_ok (mbMapping t) \<and> server_socket t \<in> refset t
     \<and> (\<forall>fd \<in> refset t. fd \<le> fdmax t) \<and> fdmax t < FD_SETSIZE"
| "slave_thread_safe cfg (Tcp_slave _) \<longleftrightarrow> eProtocol (slaveDeviceConfig cfg) = eProtTCP"
| "slave_thread_safe cfg (Rtu_slave p) \<longleftrightarrow> eProtocol (slaveDeviceConfig cfg) = eProtRTU \<and> rtu_slave_safe p"

fun slave_thread_ended :: "slave_thread \<Rightarrow> bool" where
  "slave_thread_ended (Tcp_slave (TS_exit u)) \<longleftrightarrow> True"
| "slave_thread_ended (Rtu_slave (RS_exit u)) \<longleftrightarrow> True"
| "slave_thread_ended _ \<longleftrightarrow> False"

lemma slave_inv_split:
  "\<not> slave_thread_ended (Tcp_slave p) \<Longrightarrow> eProtocol (slaveDeviceConfig cfg) = eProtTCP \<Longrightarrow>
     tcp_slave_inv F p G \<longleftrightarrow> slave_thread_safe cfg (Tcp_slave p) \<and> F \<inter> slave_sockets (Tcp_slave p) = {}
       \<and> G = F \<union> slave_sockets (Tcp_slave p)"
  by (cases p) (auto simp: tcp_slave_ok_def)

lemma rtu_slave_keeps_fds:
  assumes "fd_laws E fds" "serial_calls_keep E fds" "fds w = F"
  shows "wlp (startRtuSlaveThread E cfg p) (\<lambda>p' w'. slave_thread_ended (Rtu_slave p') \<or> fds w' = F) w"
proof (cases p)
  case RS_wait
  note keep = fd_lawsD [OF assms(1)] assms(2) [unfolded serial_calls_keep_def]
  show ?thesis
    using assms(3)
    by (auto simp: RS_wait rtu_slave_open_def rtu_slave_exit_def new_mapping_def wp_simps wp_liftO keep
        intro!: wlp_True split: option.splits)
next
  case (RS_loop m c)
  show ?thesis
    unfolding RS_loop startRtuSlaveThread.simps wp_simps
    by (rule wlp_mono [OF wlp_keeps [OF request_keeps_fds [OF assms(1)] assms(3)]]) (auto simp: wp_simps)
qed (simp add: wp_simps)

interpretation slaves: owners "step_slave_thread E" start_slave_thread runnable_slave slave_thread_safe
    slave_thread_ended slave_sockets fds "slave_world E img fds \<and> serial_calls_keep E fds"
  for E :: "'w env" and fds img
proof
  fix c :: TModbusSlaveConfiguration
  assume "runnable_slave c"
  then show "slave_thread_safe c (start_slave_thread c) \<and> slave_sockets (start_slave_thread c) = {}"
    by (auto simp: start_slave_thread_def slave_routine_def split: EModbusProtocol.splits)
next
  fix c p F and w :: 'w
  assume W: "slave_world E img fds \<and> serial_calls_keep E fds" and c: "runnable_slave c" and s: "slave_thread_safe c p"
    and f: "F \<inter> slave_sockets p = {}" "fds w = F \<union> slave_sockets p"
  show "wp (step_slave_thread E c p) (\<lambda>p' w'. slave_thread_ended p' \<or> slave_thread_safe c p'
      \<and> F \<inter> slave_sockets p' = {} \<and> fds w' = F \<union> slave_sockets p') w"
  proof (cases p)
    case (Tcp_slave q)
    then have tcp: "eProtocol (slaveDeviceConfig c) = eProtTCP"
      using s by (cases q) auto
    then obtain t where t: "uProt (slaveDeviceConfig c) = tTcpConfig t"
      using c by (cases "uProt (slaveDeviceConfig c)") (auto simp: runnable_slave_def)
    have "tcp_slave_inv F q (fds w)"
      using slave_inv_split [OF _ tcp, of q F "fds w"] s f Tcp_slave by (cases q) auto
    from tcp_slave_step_safe [OF conjunct1 [OF W] t, of F q w, OF this]
    have "wp (startTcpSlaveThread E c q) (\<lambda>q' w'. tcp_slave_inv F q' (fds w')) w" .
    then show ?thesis
      unfolding Tcp_slave step_slave_thread.simps wp_bind
      by (rule wp_mono) (use slave_inv_split [OF _ tcp] in \<open>auto simp: wp_simps\<close>)
  next
    case (Rtu_slave q)
    then obtain t where t: "uProt (slaveDeviceConfig c) = tRtuConfig t"
      using c s by (cases "uProt (slaveDeviceConfig c)") (auto simp: runnable_slave_def)
    have "fds w = F" using f Rtu_slave by simp
    with rtu_slave_step_safe [OF _ _ _ t] slave_worldD [of E img fds] W s Rtu_slave
    have "wp (startRtuSlaveThread E c q)
        (\<lambda>q' w'. rtu_slave_safe q' \<and> (slave_thread_ended (Rtu_slave q') \<or> fds w' = F)) w"
      by (intro wp_conj rtu_slave_keeps_fds) auto
    then show ?thesis
      unfolding Rtu_slave step_slave_thread.simps wp_bind
      by (rule wp_mono) (use s Rtu_slave in \<open>auto simp: wp_simps\<close>)
  qed
next
  fix c p p' and w w' :: 'w
  assume "slave_thread_ended p" "step_slave_thread E c p w = (Ret p', w')"
  then show "slave_thread_ended p'"
    by (cases p rule: slave_thread_ended.cases) (auto simp: run_simps)
qed

lemma parsed_slave_runnable: "slave_in_range J cfg \<Longrightarrow> runnable_slave cfg"
  by (auto simp: slave_in_range_def device_in_range_def runnable_slave_def split: UProt.splits)

lemmas slave_separation = slaves.separate_def slaves.held_by_def

section \<open>Properties\<close>

text \<open>
  C9: The threads of the slave program in any interleaving of their steps, as long as none has
  ended and the system hands out descriptors that fit a set for \<^verbatim>\<open>select\<close>: a thread waits on its
  listening socket and on connections of its own only, the sets of two threads have no descriptor
  in common, together they are exactly the sockets opened and not closed since the start, none of them
  exceeds its thread's \<open>fdmax\<close> or the capacity of the set, and the next step of each thread returns.
\<close>

theorem interleaved_slave_descriptors:
  assumes "slave_world E img fds" "serial_calls_keep E fds" "\<forall>cfg \<in> set cfgs. runnable_slave cfg"
    and "interleaving (step_slave_thread E) (map (\<lambda>cfg. (cfg, start_slave_thread cfg)) cfgs) w0 ts w"
    and "\<forall>(cfg, p) \<in> set ts. \<not> slave_thread_ended p"
  shows "map fst ts = cfgs
     \<and> (\<forall>i < length ts. \<forall>j < length ts. i \<noteq> j \<longrightarrow> slave_sockets (snd (ts ! i)) \<inter> slave_sockets (snd (ts ! j)) = {})
     \<and> fds w0 \<subseteq> fds w \<and> fds w - fds w0 = (\<Union>(cfg, p) \<in> set ts. slave_sockets p)
     \<and> (\<forall>cfg t. (cfg, Tcp_slave (TS_loop t)) \<in> set ts \<longrightarrow> server_socket t \<in> refset t
          \<and> (\<forall>fd \<in> refset t. fd \<le> fdmax t) \<and> fdmax t < 1024)
     \<and> (\<forall>(cfg, p) \<in> set ts. \<exists>p' w'. step_slave_thread E cfg p w = (Ret p', w'))"
proof -
  have law: "slave_world E img fds \<and> serial_calls_keep E fds"
    using assms(1,2) by simp
  have sep: "slaves.separate fds (fds w0) ts w" "map fst ts = cfgs"
    using slaves.ownership [OF law assms(3-5)] by simp_all
  have all: "(\<Union>(cfg, p) \<in> set ts. slave_sockets p) = (\<Union>i < length ts. slave_sockets (snd (ts ! i)))"
    by (simp add: case_prod_unfold set_conv_nth) blast
  have safe: "slave_thread_safe cfg p" if "(cfg, p) \<in> set ts" for cfg p
    using that sep(1) unfolding slave_separation in_set_conv_nth by (metis fst_conv snd_conv)
  have "server_socket t \<in> refset t \<and> (\<forall>fd \<in> refset t. fd \<le> fdmax t) \<and> fdmax t < 1024"
    if "(cfg, Tcp_slave (TS_loop t)) \<in> set ts" for cfg t
    using safe [OF that] by (simp add: FD_SETSIZE_def)
  moreover have "fds w0 \<subseteq> fds w" "fds w - fds w0 = (\<Union>i < length ts. slave_sockets (snd (ts ! i)))"
    using sep(1) by (auto simp: slave_separation)
  moreover have "\<forall>(cfg, p) \<in> set ts. \<exists>p' w'. step_slave_thread E cfg p w = (Ret p', w')"
    using slaves.ownership_returns [OF law assms(3-5)] by blast
  moreover have "\<forall>i < length ts. \<forall>j < length ts. i \<noteq> j \<longrightarrow>
      slave_sockets (snd (ts ! i)) \<inter> slave_sockets (snd (ts ! j)) = {}"
    using sep(1) by (simp add: slave_separation)
  ultimately show ?thesis
    unfolding all using sep(2) by blast
qed

text \<open>The plant with a limit on descriptors.\<close>

definition new_fd :: "'a plant_scheme \<Rightarrow> int \<times> 'a plant_scheme" where
  "new_fd w = (if fresh_fd (p_fds w) < FD_SETSIZE
     then (int (fresh_fd (p_fds w)), w\<lparr>p_fds := fresh_fd (p_fds w) # p_fds w\<rparr>) else (-1, w))"

definition limited_env :: "plant env" where
  "limited_env = plant_env\<lparr>accept_fd := (\<lambda>s. new_fd), modbus_tcp_pi_listen := (\<lambda>c n. new_fd)\<rparr>"

lemma limited_world: "slave_world limited_env p_image (\<lambda>w. set (p_fds w))" "serial_calls_keep limited_env (\<lambda>w. set (p_fds w))"
proof -
  have "yields_fd (\<lambda>w. set (p_fds w)) new_fd"
    using fresh_fd_greater by (auto simp: yields_fd_def new_fd_def)
  then have "fd_laws limited_env (\<lambda>w. set (p_fds w))"
    using plant_fds by (simp add: fd_laws_def limited_env_def image_access_keeps_def clock_keeps_def)
  moreover have "slave_laws limited_env p_image" "image_world limited_env p_image" "new_mapping_laws limited_env"
  proof -
    have "slave_laws limited_env p_image = slave_laws plant_env p_image"
      by (simp add: limited_env_def slave_laws_def)
    moreover have "image_world limited_env p_image = image_world plant_env p_image"
      by (simp add: limited_env_def image_world_def picontrol_laws_def clock_keeps_def requests_keep_def mutex_keeps_def)
    moreover have "new_mapping_laws limited_env = new_mapping_laws plant_env"
      by (simp add: limited_env_def new_mapping_laws_def)
    ultimately show "slave_laws limited_env p_image" "image_world limited_env p_image" "new_mapping_laws limited_env"
      using plant_slave plant_image_world plant_new_mapping by simp_all
  qed
  moreover have "fst (new_fd w) < int FD_SETSIZE" for w :: plant
    by (simp add: new_fd_def FD_SETSIZE_def)
  ultimately show "slave_world limited_env p_image (\<lambda>w. set (p_fds w))"
    by (simp add: slave_world_def few_descriptors_def limited_env_def)
  show "serial_calls_keep limited_env (\<lambda>w. set (p_fds w))"
    by (simp add: serial_calls_keep_def limited_env_def plant_env_def)
qed

definition two_slaves :: "TModbusSlaveConfiguration list" where
  "two_slaves = [demo_slave 40 20, demo_slave 140 120]"

definition serving :: "nat \<Rightarrow> slave_thread" where
  "serving fd = Tcp_slave (TS_loop \<lparr>mbMapping = demo_mapping [0, 0], mb_slave = 0, server_socket = fd,
     refset = {fd}, fdmax = fd\<rparr>)"

lemma two_slaves_run:
  "interleaving (step_slave_thread limited_env) (map (\<lambda>cfg. (cfg, start_slave_thread cfg)) two_slaves) plant0
     [(two_slaves ! 0, serving 4), (two_slaves ! 1, serving 3)] (plant0\<lparr>p_fds := [4, 3]\<rparr>)"
proof -
  let ?step = "step_slave_thread limited_env"
  let ?start = "Tcp_slave TS_start" and ?listen = "Tcp_slave (TS_listen (demo_mapping [0, 0]) 0)"
  let ?ts0 = "[(two_slaves ! 0, ?start), (two_slaves ! 1, ?start)]"
  have start: "map (\<lambda>cfg. (cfg, start_slave_thread cfg)) two_slaves = ?ts0"
    by (simp add: two_slaves_def start_slave_thread_def slave_routine_def demo_slave_def)
  have two: "replicate 2 x = [x, x]" for x :: u16
    by (simp add: numeral_2_eq_2)
  have open': "?step (two_slaves ! i) ?start w = (Ret ?listen, w)" if "i = 0 \<or> i = 1" for i w
    using that by (auto simp: two_slaves_def tcp_slave_start_def new_mapping_def run_simps demo_slave_def
        tcp_config_def limited_env_def plant_env_def demo_mapping_def two)
  have listen: "?step (two_slaves ! i) ?listen w = (Ret (serving (fresh_fd (p_fds w))), snd (new_fd w))"
    if "i = 0 \<or> i = 1" "fresh_fd (p_fds w) < 1024" for i w
    using that by (auto simp: two_slaves_def tcp_slave_listen_def run_simps demo_slave_def tcp_config_def
        limited_env_def new_fd_def FD_SETSIZE_def serving_def)
  have "interleaving ?step ?ts0 plant0 (?ts0[0 := (two_slaves ! 0, ?listen)]) plant0"
    by (rule interleaving_step [where p = ?start and w = plant0])
       (use open' [of 0] in \<open>simp_all add: interleaving_start\<close>)
  then have "interleaving ?step ?ts0 plant0 (?ts0[0 := (two_slaves ! 0, ?listen), 1 := (two_slaves ! 1, ?listen)]) plant0"
    by (rule interleaving_step [where p = ?start and w = plant0]) (use open' [of 1] in simp_all)
  then have "interleaving ?step ?ts0 plant0
      (?ts0[0 := (two_slaves ! 0, ?listen), 1 := (two_slaves ! 1, ?listen), 1 := (two_slaves ! 1, serving 3)])
      (plant0\<lparr>p_fds := [3]\<rparr>)"
    by (rule interleaving_step [where p = ?listen])
       (use listen [of 1 plant0] in \<open>simp_all add: plant0_def new_fd_def FD_SETSIZE_def\<close>)
  then have "interleaving ?step ?ts0 plant0
      (?ts0[0 := (two_slaves ! 0, ?listen), 1 := (two_slaves ! 1, ?listen), 1 := (two_slaves ! 1, serving 3),
        0 := (two_slaves ! 0, serving 4)]) (plant0\<lparr>p_fds := [4, 3]\<rparr>)"
    by (rule interleaving_step [where p = ?listen])
       (use listen [of 0 "plant0\<lparr>p_fds := [3]\<rparr>"] in \<open>simp_all add: plant0_def new_fd_def FD_SETSIZE_def\<close>)
  then show ?thesis
    unfolding start by simp
qed

theorem interleaved_slave_descriptors_witness:
  "\<exists>ts w. interleaving (step_slave_thread limited_env) (map (\<lambda>cfg. (cfg, start_slave_thread cfg)) two_slaves) plant0 ts w
     \<and> map (\<lambda>(cfg, p). slave_sockets p) ts = [{4}, {3}] \<and> set (p_fds w) - set (p_fds plant0) = {3, 4}
     \<and> (\<forall>(cfg, p) \<in> set ts. \<exists>p' w'. step_slave_thread limited_env cfg p w = (Ret p', w'))"
proof -
  have "\<forall>cfg \<in> set two_slaves. runnable_slave cfg"
    by (simp add: two_slaves_def runnable_slave_def demo_slave_def)
  note interleaved_slave_descriptors [OF limited_world this two_slaves_run]
  then show ?thesis
    using two_slaves_run by (fastforce simp: serving_def)
qed

end
