(* ===== verification/Retry_Loops.thy ===== *)
theory Retry_Loops
  imports Master_Interleaving Slave_Interleaving
begin

text \<open>
  The loops in which a thread waits for something outside of it: a device to answer, a device file
  to appear, a port to become free. Each sleeps between two attempts and never gives up; that it
  ends is a matter of the environment. The locale \<open>retry\<close> derives the bound on the number of passes
  from one law, which the four loops of the program provide.
\<close>

section \<open>Loops that try again\<close>

text \<open>
  \<open>tries w\<close> bounds the failures that the world still has in store: an attempt \<open>f\<close> that does not
  succeed uses one of them up, and nothing else adds to them.
\<close>

definition uses_up :: "('w \<Rightarrow> nat) \<Rightarrow> ('a \<Rightarrow> bool) \<Rightarrow> ('w \<Rightarrow> 'a \<times> 'w) \<Rightarrow> bool" where
  "uses_up tries succeeds f \<longleftrightarrow> (\<forall>w. succeeds (fst (f w)) \<or> tries (snd (f w)) < tries w)"

definition spares :: "('w \<Rightarrow> nat) \<Rightarrow> ('w \<Rightarrow> 'a \<times> 'w) \<Rightarrow> bool" where
  "spares tries f \<longleftrightarrow> (\<forall>w. tries (snd (f w)) \<le> tries w)"

locale retry =
  fixes step :: "'p \<Rightarrow> ('w, 'p) prog"
    and waiting :: "'p \<Rightarrow> 'w \<Rightarrow> bool"
    and result :: "'p \<Rightarrow> bool"
    and tries :: "'w \<Rightarrow> nat"
    and law :: bool
  assumes attempt: "law \<Longrightarrow> waiting p w \<Longrightarrow> wp (step p) (\<lambda>p' w'. waiting p' w' \<and> tries w' < tries w \<or> result p') w"
begin

lemma ends:
  assumes law "waiting p w"
  shows "\<exists>n \<le> Suc (tries w). wp (run_steps n step p) (\<lambda>p' _. result p') w"
  using assms(2)
proof (induction "tries w" arbitrary: p w rule: less_induct)
  case less
  obtain p' w' where step: "step p w = (Ret p', w')" "waiting p' w' \<and> tries w' < tries w \<or> result p'"
    using attempt [OF assms(1) less.prems] by (auto simp: wp_iff)
  show ?case
  proof (cases "result p'")
    case True
    then have "wp (run_steps 1 step p) (\<lambda>p' _. result p') w"
      by (simp add: wp_iff run_simps step(1))
    then show ?thesis by fastforce
  next
    case False
    then have "waiting p' w'" "tries w' < tries w"
      using step(2) by simp_all
    then obtain n where "n \<le> Suc (tries w')" "wp (run_steps n step p') (\<lambda>p' _. result p') w'"
      using less.hyps by blast
    moreover from this have "wp (run_steps (Suc n) step p) (\<lambda>p' _. result p') w"
      by (simp add: wp_def run_simps step(1))
    ultimately show ?thesis
      using \<open>tries w' < tries w\<close> by (intro exI [of _ "Suc n"]) simp
  qed
qed

end

section \<open>Masters\<close>

text \<open>Reporting the failure and sleeping do not put off the success of the next attempt.\<close>

definition pauses_spare :: "'w env \<Rightarrow> ('w \<Rightarrow> nat) \<Rightarrow> bool" where
  "pauses_spare E tries \<longleftrightarrow>
     (\<forall>t. spares tries (sleep_for E t)) \<and> (\<forall>off len d. spares tries (piControlWrite E off len d))"

definition device_answers :: "'w env \<Rightarrow> ('w \<Rightarrow> nat) \<Rightarrow> bool" where
  "device_answers E tries \<longleftrightarrow>
     pauses_spare E tries \<and> (\<forall>c. uses_up tries (\<lambda>rc. 0 \<le> rc) (modbus_connect E c))"

definition device_file_appears :: "'w env \<Rightarrow> ('w \<Rightarrow> nat) \<Rightarrow> bool" where
  "device_file_appears E tries \<longleftrightarrow>
     pauses_spare E tries \<and> (\<forall>p. uses_up tries (\<lambda>rc. rc = 0) (access_rw E p))"

text \<open>The port can be taken only while the system has a descriptor left, which \<open>room\<close> says.\<close>

definition port_becomes_free :: "'w env \<Rightarrow> ('w \<Rightarrow> bool) \<Rightarrow> ('w \<Rightarrow> nat) \<Rightarrow> bool" where
  "port_becomes_free E room tries \<longleftrightarrow> pauses_spare E tries
   \<and> (\<forall>t w. room w \<longrightarrow> room (snd (sleep_for E t w)))
   \<and> (\<forall>c n w. room w \<longrightarrow> (case modbus_tcp_pi_listen E c n w of (rc, w') \<Rightarrow>
        rc \<noteq> -1 \<or> tries w' < tries w \<and> room w'))"

lemma pause_spares:
  assumes "pauses_spare E tries"
  shows "tries (snd (sleep_for E t w)) \<le> tries w" "tries (snd (piControlWrite E off len d w)) \<le> tries w"
  using assms by (simp_all add: pauses_spare_def spares_def)

lemma initScheduler_succeeds:
  assumes "\<forall>w. wf_timespec (fst (clock_gettime E w))" "\<forall>a \<in> set acts. i32uInterval_us a \<noteq> 0"
    and "memory_available E" "acts \<noteq> []"
  shows "wp (initScheduler E acts []) (\<lambda>r _. fst r = 0 \<and> scheduler_ok (snd r)
     \<and> mset (map ptModbusAction (snd r)) = mset acts) w"
proof -
  have memory: "\<forall>w. fst (malloc_ok E w)"
    using assms(3) by (simp add: memory_available_def)
  have "wf_timespec (fst (clock_gettime E w))" using assms(1) by simp
  from initScheduler_loop_wp [OF this assms(2), of "[]" E "snd (clock_gettime E w)"] show ?thesis
    using assms(4) memory by (auto simp: initScheduler_def wp_simps elim!: wp_mono)
qed

text \<open>A TCP master that waits for its device, and the state in which it begins its work.\<close>

definition connected_master :: "TModbusMasterConfiguration \<Rightarrow> modbus_t \<Rightarrow> u8 list \<Rightarrow> tcp_master_phase \<Rightarrow> bool" where
  "connected_master cfg c b p \<longleftrightarrow> (case p of
       TM_loop m \<Rightarrow> context_of m = c \<and> buffer_of m = b \<and> err_cnt m = 0 \<and> scheduler_ok (eventList m)
         \<and> mset (map ptModbusAction (eventList m)) = mset (mbActionListHead cfg)
     | _ \<Rightarrow> False)"

lemma tcp_master_attempt:
  assumes "\<forall>w. wf_timespec (fst (clock_gettime E w))" "memory_available E" "device_answers E tries"
    and "\<forall>a \<in> set (mbActionListHead cfg). i32uInterval_us a \<noteq> 0" "mbActionListHead cfg \<noteq> []"
  shows "wp (tcp_master_connect D E cfg c b)
     (\<lambda>p w'. p = TM_connect c b \<and> tries w' < tries w \<or> connected_master cfg c b p) w"
proof (cases "fst (modbus_connect E c w) < 0")
  case True
  then have "tries (snd (modbus_connect E c w)) < tries w"
    using assms(3) unfolding device_answers_def uses_up_def by (metis not_le)
  moreover have "tries (snd (sleep_for E t (snd (piControlWrite E off len d v)))) \<le> tries v" for t off len d v
    using assms(3) pause_spares [of E tries] unfolding device_answers_def by (meson order_trans)
  ultimately have "tries (snd (sleep_for E t (snd (piControlWrite E off len d (snd (modbus_connect E c w)))))) < tries w"
    for t off len d
    by (meson order.strict_trans1)
  with True show ?thesis
    by (simp add: tcp_master_connect_def wp_simps write_device_status_def writeErrorMessage_def)
next
  case False
  then show ?thesis
    by (auto simp: tcp_master_connect_def wp_simps case_prod_unfold connected_master_def
        intro!: wp_mono [OF initScheduler_succeeds [OF assms(1,4,2,5)]]
          wp_mono [OF set_timeouts_returns] wp_mono [OF write_device_status_returns] dest: mset_actions_Nil [OF _ assms(5)])
qed

interpretation connecting: retry "startTcpMasterThread D E cfg" "\<lambda>p _. p = TM_connect c b" "connected_master cfg c b" tries
    "(\<forall>w. wf_timespec (fst (clock_gettime E w))) \<and> memory_available E \<and> device_answers E tries
     \<and> (\<forall>a \<in> set (mbActionListHead cfg). i32uInterval_us a \<noteq> 0) \<and> mbActionListHead cfg \<noteq> []"
  for D :: "'d double_ops" and E :: "'w env" and cfg c b tries
  by unfold_locales (simp add: tcp_master_attempt)

text \<open>An RTU master that waits for its device file: in the end it works on it or gives up.\<close>

lemma rtu_master_open_leaves: "wlp (rtu_master_open E cfg rtu) (\<lambda>p _. p \<noteq> RM_wait) w"
  by (auto simp: rtu_master_open_def rtu_master_begin_def wp_simps case_prod_unfold intro!: wlp_True split: option.splits)

lemma sleep_after:
  assumes "device_file_appears E tries" "fst (access_rw E p w) \<noteq> 0"
  shows "tries (snd (sleep_for E t (snd (access_rw E p w)))) < tries w"
proof -
  have "tries (snd (access_rw E p w)) < tries w"
    using assms unfolding device_file_appears_def uses_up_def by metis
  then show ?thesis
    using assms(1) pause_spares(1) [of E tries] by (metis device_file_appears_def order.strict_trans1)
qed

lemma rtu_master_attempt:
  assumes "master_world E img" "device_file_appears E tries"
    and "\<forall>a \<in> set (mbActionListHead cfg). admissible_action a"
    and "i32ActionCount cfg = int (length (mbActionListHead cfg))" "uProt (masterDeviceConfig cfg) = tRtuConfig t"
  shows "wp (startRtuMasterThread E cfg RM_wait)
     (\<lambda>p w'. p = RM_wait \<and> tries w' < tries w \<or> p \<noteq> RM_wait \<and> rtu_master_safe cfg p) w"
proof -
  have "wlp (startRtuMasterThread E cfg RM_wait) (\<lambda>p w'. p = RM_wait \<longrightarrow> tries w' < tries w) w"
    using assms(5) sleep_after [OF assms(2)]
    by (auto simp: wp_simps rtu_config_def intro!: wlp_mono [OF rtu_master_open_leaves])
  from wp_conj [OF rtu_master_step_safe [OF assms(1,3,4,5), of RM_wait, simplified rtu_master_safe.simps, OF TrueI] this] show ?thesis
    by (rule wp_mono) auto
qed

interpretation rtu_master_waiting: retry "startRtuMasterThread E cfg" "\<lambda>p _. p = RM_wait"
    "\<lambda>p. p \<noteq> RM_wait \<and> rtu_master_safe cfg p" tries
    "master_world E img \<and> device_file_appears E tries \<and> (\<forall>a \<in> set (mbActionListHead cfg). admissible_action a)
     \<and> i32ActionCount cfg = int (length (mbActionListHead cfg)) \<and> (\<exists>t. uProt (masterDeviceConfig cfg) = tRtuConfig t)"
  for E :: "'w env" and cfg tries img
  by unfold_locales (elim conjE exE, hypsubst, rule rtu_master_attempt)

section \<open>Slaves\<close>

definition listening_slave :: "modbus_mapping_t \<Rightarrow> modbus_t \<Rightarrow> tcp_slave_phase \<Rightarrow> bool" where
  "listening_slave m c p \<longleftrightarrow> (\<exists>fd < FD_SETSIZE. p = TS_loop \<lparr>mbMapping = m, mb_slave = c, server_socket = fd,
     refset = {fd}, fdmax = fd\<rparr>)"

lemma tcp_slave_attempt:
  assumes "fd_laws E fds" "few_descriptors E" "port_becomes_free E room tries"
    and "uProt (slaveDeviceConfig cfg) = tTcpConfig t" "room w"
  shows "wp (tcp_slave_listen E cfg m c)
     (\<lambda>p w'. (p = TS_listen m c \<and> room w') \<and> tries w' < tries w \<or> listening_slave m c p) w"
proof -
  let ?listen = "modbus_tcp_pi_listen E c (maxModbusConnections t) w"
  have "tries (snd ?listen) < tries w \<and> room (snd ?listen)" if "fst ?listen = -1"
    using assms(3,5) that by (simp add: port_becomes_free_def case_prod_unfold)
  moreover have "tries (snd (sleep_for E d v)) \<le> tries v" "room v \<Longrightarrow> room (snd (sleep_for E d v))" for d v
    using assms(3) pause_spares(1) [of E tries] by (simp_all add: port_becomes_free_def)
  ultimately have "tries (snd (sleep_for E d (snd ?listen))) < tries w \<and> room (snd (sleep_for E d (snd ?listen)))"
    if "fst ?listen = -1" for d
    using that by (blast intro: le_less_trans)
  moreover have "fst ?listen < int FD_SETSIZE"
    using assms(2) by (simp add: few_descriptors_def)
  ultimately show ?thesis
    using assms(4) descriptor_results(2) [OF assms(1), of c "maxModbusConnections t" w]
    by (auto simp: tcp_slave_listen_def wp_simps tcp_config_def listening_slave_def not_le nat_less_iff)
qed

interpretation listening: retry "startTcpSlaveThread E cfg" "\<lambda>p w. p = TS_listen m c \<and> room w" "listening_slave m c" tries
    "fd_laws E fds \<and> few_descriptors E \<and> port_becomes_free E room tries
     \<and> (\<exists>t. uProt (slaveDeviceConfig cfg) = tTcpConfig t)"
  for E :: "'w env" and cfg m c room tries fds
proof
  fix p and w :: 'w
  assume law: "fd_laws E fds \<and> few_descriptors E \<and> port_becomes_free E room tries
      \<and> (\<exists>t. uProt (slaveDeviceConfig cfg) = tTcpConfig t)" and p: "p = TS_listen m c \<and> room w"
  then obtain t where "uProt (slaveDeviceConfig cfg) = tTcpConfig t"
    by blast
  with law p tcp_slave_attempt [of E fds room tries cfg t w m c]
  show "wp (startTcpSlaveThread E cfg p)
      (\<lambda>p' w'. (p' = TS_listen m c \<and> room w') \<and> tries w' < tries w \<or> listening_slave m c p') w"
    by simp
qed

lemma rtu_slave_open_leaves: "wlp (rtu_slave_open E cfg rtu) (\<lambda>p _. p \<noteq> RS_wait) w"
  by (auto simp: rtu_slave_open_def rtu_slave_exit_def wp_simps intro!: wlp_True split: option.splits)

lemma rtu_slave_attempt:
  assumes "slave_laws E img" "image_world E img" "new_mapping_laws E" "device_file_appears E tries"
    and "uProt (slaveDeviceConfig cfg) = tRtuConfig t"
  shows "wp (startRtuSlaveThread E cfg RS_wait)
     (\<lambda>p w'. p = RS_wait \<and> tries w' < tries w \<or> p \<noteq> RS_wait \<and> rtu_slave_safe p) w"
proof -
  have "wlp (startRtuSlaveThread E cfg RS_wait) (\<lambda>p w'. p = RS_wait \<longrightarrow> tries w' < tries w) w"
    using assms(5) sleep_after [OF assms(4)]
    by (auto simp: wp_simps rtu_config_def intro!: wlp_mono [OF rtu_slave_open_leaves])
  from wp_conj [OF rtu_slave_step_safe [OF assms(1-3,5), of RS_wait, simplified rtu_slave_safe.simps, OF TrueI] this] show ?thesis
    by (rule wp_mono) auto
qed

interpretation rtu_slave_waiting: retry "startRtuSlaveThread E cfg" "\<lambda>p _. p = RS_wait"
    "\<lambda>p. p \<noteq> RS_wait \<and> rtu_slave_safe p" tries
    "slave_laws E img \<and> image_world E img \<and> new_mapping_laws E \<and> device_file_appears E tries
     \<and> (\<exists>t. uProt (slaveDeviceConfig cfg) = tRtuConfig t)"
  for E :: "'w env" and cfg tries img
  by unfold_locales (elim conjE exE, hypsubst, rule rtu_slave_attempt)

section \<open>Properties\<close>

text \<open>
  C17: A TCP master that waits for its device gets to work: when the device refuses at most \<open>tries w\<close>
  more attempts, then after at most one pass more than that, none of which aborts, the thread is in
  its loop with its context and buffer, no failure counted and an ordered event list of exactly the
  actions configured.
\<close>

theorem tcp_master_connects:
  assumes "\<forall>w. wf_timespec (fst (clock_gettime E w))" "memory_available E" "device_answers E tries"
    and "\<forall>a \<in> set (mbActionListHead cfg). i32uInterval_us a \<noteq> 0" "mbActionListHead cfg \<noteq> []"
  shows "\<exists>n \<le> Suc (tries w). wp (run_steps n (startTcpMasterThread D E cfg) (TM_connect c b))
     (\<lambda>p _. \<exists>m. p = TM_loop m \<and> context_of m = c \<and> buffer_of m = b \<and> err_cnt m = 0
        \<and> scheduler_ok (eventList m) \<and> mset (map ptModbusAction (eventList m)) = mset (mbActionListHead cfg)) w"
proof -
  have "(\<lambda>p (_ :: 'a). connected_master cfg c b p) = (\<lambda>p _. \<exists>m. p = TM_loop m \<and> context_of m = c \<and> buffer_of m = b
      \<and> err_cnt m = 0 \<and> scheduler_ok (eventList m) \<and> mset (map ptModbusAction (eventList m)) = mset (mbActionListHead cfg))"
    by (auto simp: connected_master_def fun_eq_iff split: tcp_master_phase.splits)
  with connecting.ends [of E tries cfg _ c b w D] assms show ?thesis by simp
qed

text \<open>
  C35: No wait of a thread is for ever when what it waits for comes: an RTU master and an RTU slave
  leave the wait for their device file after at most one pass more than the file keeps missing, and a
  TCP slave the wait for its port after at most one pass more than the port stays taken, while the
  system has a descriptor left; it then
  listens, with its socket alone in the set it waits on.
\<close>

theorem waits_end:
  assumes "device_file_appears E tries" "port_becomes_free E room tries" "master_world E img" "slave_world E img fds"
  shows "(\<forall>cfg w. runnable_master cfg \<and> eProtocol (masterDeviceConfig cfg) = eProtRTU \<longrightarrow>
        (\<exists>n \<le> Suc (tries w). wp (run_steps n (startRtuMasterThread E cfg) RM_wait)
           (\<lambda>p _. p \<noteq> RM_wait \<and> rtu_master_safe cfg p) w))
   \<and> (\<forall>cfg m c w. runnable_slave cfg \<and> eProtocol (slaveDeviceConfig cfg) = eProtTCP \<and> room w \<longrightarrow>
        (\<exists>n \<le> Suc (tries w). wp (run_steps n (startTcpSlaveThread E cfg) (TS_listen m c))
           (\<lambda>p _. \<exists>fd < 1024. p = TS_loop \<lparr>mbMapping = m, mb_slave = c, server_socket = fd, refset = {fd}, fdmax = fd\<rparr>) w))
   \<and> (\<forall>cfg w. runnable_slave cfg \<and> eProtocol (slaveDeviceConfig cfg) = eProtRTU \<longrightarrow>
        (\<exists>n \<le> Suc (tries w). wp (run_steps n (startRtuSlaveThread E cfg) RS_wait)
           (\<lambda>p _. p \<noteq> RS_wait \<and> rtu_slave_safe p) w))"
proof (intro conjI allI impI)
  fix cfg and w :: 'a
  assume "runnable_master cfg \<and> eProtocol (masterDeviceConfig cfg) = eProtRTU"
  then show "\<exists>n \<le> Suc (tries w). wp (run_steps n (startRtuMasterThread E cfg) RM_wait)
      (\<lambda>p _. p \<noteq> RM_wait \<and> rtu_master_safe cfg p) w"
    using assms(1,3)
    by (intro rtu_master_waiting.ends [of E img tries cfg])
       (auto simp: runnable_master_def split: UProt.splits)
next
  fix cfg m c and w :: 'a
  assume slave: "runnable_slave cfg \<and> eProtocol (slaveDeviceConfig cfg) = eProtTCP \<and> room w"
  then have "\<exists>t. uProt (slaveDeviceConfig cfg) = tTcpConfig t"
    by (auto simp: runnable_slave_def split: UProt.splits)
  then show "\<exists>n \<le> Suc (tries w). wp (run_steps n (startTcpSlaveThread E cfg) (TS_listen m c))
      (\<lambda>p _. \<exists>fd < 1024. p = TS_loop \<lparr>mbMapping = m, mb_slave = c, server_socket = fd, refset = {fd}, fdmax = fd\<rparr>) w"
    using listening.ends [of E fds room tries cfg "TS_listen m c" m c w] assms(2) slave slave_worldD [OF assms(4)]
    by (simp add: listening_slave_def FD_SETSIZE_def)
next
  fix cfg and w :: 'a
  assume "runnable_slave cfg \<and> eProtocol (slaveDeviceConfig cfg) = eProtRTU"
  then show "\<exists>n \<le> Suc (tries w). wp (run_steps n (startRtuSlaveThread E cfg) RS_wait)
      (\<lambda>p _. p \<noteq> RS_wait \<and> rtu_slave_safe p) w"
    using assms(1) slave_worldD [OF assms(4)]
    by (intro rtu_slave_waiting.ends [of E img tries cfg])
       (auto simp: runnable_slave_def split: UProt.splits)
qed

text \<open>A plant in which every attempt fails as often as \<open>p_heap\<close> says.\<close>

definition late :: "('a plant_scheme \<Rightarrow> int \<times> 'a plant_scheme) \<Rightarrow> 'a plant_scheme \<Rightarrow> int \<times> 'a plant_scheme" where
  "late f w = (if p_heap w = 0 then f w else (-1, w\<lparr>p_heap := p_heap w - 1\<rparr>))"

definition late_env :: "plant env" where
  "late_env = limited_env\<lparr>malloc_ok := (\<lambda>w. (True, w)), access_rw := (\<lambda>p. late (Pair 0)),
     modbus_connect := (\<lambda>c. late (Pair 0)), modbus_tcp_pi_listen := (\<lambda>c n. late new_fd)\<rparr>"

lemma late_uses_up: "0 \<le> (rc :: int) \<Longrightarrow> uses_up p_heap (\<lambda>rc. 0 \<le> rc) (late (Pair rc))"
  "uses_up p_heap (\<lambda>rc. rc = 0) (late (Pair 0))"
  by (auto simp: uses_up_def late_def)

definition descriptor_left :: "plant \<Rightarrow> bool" where
  "descriptor_left w \<longleftrightarrow> fresh_fd (p_fds w) < FD_SETSIZE"

lemma late_waits: "device_answers late_env p_heap" "device_file_appears late_env p_heap" "port_becomes_free late_env descriptor_left p_heap"
  "memory_available late_env"
proof -
  have "pauses_spare late_env p_heap"
    by (simp add: pauses_spare_def spares_def late_env_def limited_env_def plant_env_def)
  then show "device_answers late_env p_heap" "device_file_appears late_env p_heap"
    using late_uses_up(1) [of 0] late_uses_up(2)
    by (simp_all add: device_answers_def device_file_appears_def late_env_def)
  show "port_becomes_free late_env descriptor_left p_heap"
    using \<open>pauses_spare late_env p_heap\<close>
    by (simp add: port_becomes_free_def late_env_def late_def new_fd_def descriptor_left_def limited_env_def plant_env_def)
  show "memory_available late_env"
    by (simp add: memory_available_def late_env_def)
qed

lemma late_worlds: "master_world late_env p_image" "slave_world late_env p_image (\<lambda>w. set (p_fds w))"
proof -
  have yields: "yields_fd (\<lambda>w. set (p_fds w)) (late new_fd)"
    using fresh_fd_greater by (auto simp: yields_fd_def late_def new_fd_def)
  have capped: "fst (late new_fd w) < int FD_SETSIZE" for w :: plant
    by (simp add: late_def new_fd_def FD_SETSIZE_def)
  have image: "image_world late_env p_image = image_world limited_env p_image"
    by (simp add: late_env_def image_world_def picontrol_laws_def clock_keeps_def requests_keep_def mutex_keeps_def)
  note W = slave_worldD [OF limited_world(1)]
  show "slave_world late_env p_image (\<lambda>w. set (p_fds w))"
    unfolding slave_world_def image
  proof (intro conjI)
    show "fd_laws late_env (\<lambda>w. set (p_fds w))"
      using W(1) yields by (simp add: fd_laws_def late_env_def image_access_keeps_def clock_keeps_def)
    show "slave_laws late_env p_image"
      using W(2) by (simp add: late_env_def slave_laws_def)
    show "new_mapping_laws late_env"
      using W(4) by (simp add: late_env_def new_mapping_laws_def)
    show "few_descriptors late_env"
      using W(5) capped by (simp add: late_env_def few_descriptors_def)
  qed (rule W(3))
  have "modbus_limits late_env" "modbus_read_laws late_env"
    using plant_limits [where 'a = unit] plant_reads [where 'a = unit]
    by (simp_all add: late_env_def limited_env_def modbus_limits_def modbus_read_laws_def)
  moreover have "wf_timespec (fst (clock_gettime late_env w))" for w
    using plant_clock_wf [of w] by (simp add: late_env_def limited_env_def)
  ultimately show "master_world late_env p_image"
    using W(3) image by (simp add: master_world_def)
qed

theorem tcp_master_connects_witness:
  "\<exists>n \<le> 3. wp (run_steps n (startTcpMasterThread exact_ops late_env (demo_master [demo_action 1 eREAD_COILS 3 1000000]))
       (TM_connect 0 [])) (\<lambda>p _. \<exists>m. p = TM_loop m \<and> map ptModbusAction (eventList m) = [demo_action 1 eREAD_COILS 3 1000000])
       (plant0\<lparr>p_heap := 2\<rparr>)"
proof -
  let ?cfg = "demo_master [demo_action 1 eREAD_COILS 3 1000000]"
  have clock: "\<forall>w. wf_timespec (fst (clock_gettime late_env w))"
    using late_worlds(1) by (simp add: master_world_def)
  have acts: "mbActionListHead ?cfg = [demo_action 1 eREAD_COILS 3 1000000]"
    by (simp add: demo_master_def)
  have "\<forall>a \<in> set (mbActionListHead ?cfg). i32uInterval_us a \<noteq> 0" "mbActionListHead ?cfg \<noteq> []"
    by (simp_all add: acts) (simp add: demo_action_def)
  note run = tcp_master_connects [OF clock late_waits(4,1) this, of "plant0\<lparr>p_heap := 2\<rparr>" exact_ops 0 "[]"]
  have "\<exists>n \<le> 3. wp (run_steps n (startTcpMasterThread exact_ops late_env ?cfg) (TM_connect 0 []))
      (\<lambda>p _. \<exists>m. p = TM_loop m \<and> context_of m = 0 \<and> buffer_of m = [] \<and> err_cnt m = 0 \<and> scheduler_ok (eventList m)
        \<and> mset (map ptModbusAction (eventList m)) = {#demo_action 1 eREAD_COILS 3 1000000#}) (plant0\<lparr>p_heap := 2\<rparr>)"
    using run by (simp add: acts del: run_steps.simps)
  then obtain n where "n \<le> 3" "wp (run_steps n (startTcpMasterThread exact_ops late_env ?cfg) (TM_connect 0 []))
      (\<lambda>p _. \<exists>m. p = TM_loop m \<and> context_of m = 0 \<and> buffer_of m = [] \<and> err_cnt m = 0 \<and> scheduler_ok (eventList m)
        \<and> mset (map ptModbusAction (eventList m)) = {#demo_action 1 eREAD_COILS 3 1000000#}) (plant0\<lparr>p_heap := 2\<rparr>)"
    by blast
  then show ?thesis
    by (intro exI [of _ n] conjI) (simp, erule wp_mono, metis mset_single_iff)
qed

definition demo_rtu_master :: TModbusMasterConfiguration where
  "demo_rtu_master = (demo_master [demo_action 1 eREAD_COILS 3 1000000])\<lparr>masterDeviceConfig :=
     \<lparr>eProtocol = eProtRTU, uProt = tRtuConfig \<lparr>i32uBaud = 19200, cParity = CHR ''E'', i8uDatabits = 8, i8uStopbits = 1,
        u8DeviceModbusAddress = 0, sz8DeviceFilePath = ''/dev/ttyRS485''\<rparr>,
      i32uDeviceStatusByteProcessImageOffset = 0, i32uDeviceStatusResetByteProcessImageByteOffset = 0\<rparr>\<rparr>"

theorem waits_end_witness:
  "(\<exists>n \<le> 3. wp (run_steps n (startRtuMasterThread late_env demo_rtu_master) RM_wait)
       (\<lambda>p _. p \<noteq> RM_wait \<and> rtu_master_safe demo_rtu_master p) (plant0\<lparr>p_heap := 2\<rparr>))
   \<and> (\<exists>n \<le> 3. wp (run_steps n (startTcpSlaveThread late_env (demo_slave 40 20)) (TS_listen (demo_mapping [7]) 0))
       (\<lambda>p _. \<exists>t. p = TS_loop t \<and> refset t = {server_socket t}) (plant0\<lparr>p_heap := 2\<rparr>))"
proof -
  have "runnable_master demo_rtu_master" "eProtocol (masterDeviceConfig demo_rtu_master) = eProtRTU"
    by (simp_all add: demo_rtu_master_def runnable_master_def demo_master_def demo_action_def admissible_action_def)
  moreover have "runnable_slave (demo_slave 40 20)" "eProtocol (slaveDeviceConfig (demo_slave 40 20)) = eProtTCP"
    by (simp_all add: runnable_slave_def demo_slave_def)
  moreover have "descriptor_left (plant0\<lparr>p_heap := 2\<rparr>)"
    by (simp add: descriptor_left_def plant0_def FD_SETSIZE_def)
  moreover have "Suc (p_heap (plant0\<lparr>p_heap := 2\<rparr>)) = 3"
    by simp
  moreover note waits = waits_end [OF late_waits(2,3) late_worlds]
  note rtu_waits = conjunct1 [OF waits, rule_format, of demo_rtu_master "plant0\<lparr>p_heap := 2\<rparr>"]
    and tcp_waits = conjunct1 [OF conjunct2 [OF waits], rule_format,
      of "demo_slave 40 20" "plant0\<lparr>p_heap := 2\<rparr>" "demo_mapping [7]" 0]
  ultimately have rtu: "\<exists>n \<le> 3. wp (run_steps n (startRtuMasterThread late_env demo_rtu_master) RM_wait)
      (\<lambda>p _. p \<noteq> RM_wait \<and> rtu_master_safe demo_rtu_master p) (plant0\<lparr>p_heap := 2\<rparr>)"
    and "\<exists>n \<le> 3. wp (run_steps n (startTcpSlaveThread late_env (demo_slave 40 20)) (TS_listen (demo_mapping [7]) 0))
      (\<lambda>p _. \<exists>fd < 1024. p = TS_loop \<lparr>mbMapping = demo_mapping [7], mb_slave = 0, server_socket = fd,
         refset = {fd}, fdmax = fd\<rparr>) (plant0\<lparr>p_heap := 2\<rparr>)"
    using rtu_waits tcp_waits by (simp_all del: run_steps.simps)
  then obtain n where "n \<le> 3" "wp (run_steps n (startTcpSlaveThread late_env (demo_slave 40 20)) (TS_listen (demo_mapping [7]) 0))
      (\<lambda>p _. \<exists>fd < 1024. p = TS_loop \<lparr>mbMapping = demo_mapping [7], mb_slave = 0, server_socket = fd,
         refset = {fd}, fdmax = fd\<rparr>) (plant0\<lparr>p_heap := 2\<rparr>)"
    by blast
  then have "wp (run_steps n (startTcpSlaveThread late_env (demo_slave 40 20)) (TS_listen (demo_mapping [7]) 0))
      (\<lambda>p _. \<exists>t. p = TS_loop t \<and> refset t = {server_socket t}) (plant0\<lparr>p_heap := 2\<rparr>)"
    by (elim wp_mono) auto
  with rtu \<open>n \<le> 3\<close> show ?thesis by blast
qed

end
