(* ===== verification/Cancelled_Threads.thy ===== *)
theory Cancelled_Threads
  imports Halting
begin

text \<open>
  What the main program of the masters does to its threads on a reset: \<^verbatim>\<open>pthread_cancel\<close>. A thread that
  is cancelled goes on to its next cancellation point, runs its cleanup handler there and ends. The
  calls of \<^verbatim>\<open>libmodbus\<close> that wait for the network are cancellation points, and \<^verbatim>\<open>processModbusAction\<close> makes
  them while it holds the mutex, for which there is no handler.
\<close>

section \<open>A thread cancelled in a request\<close>

text \<open>
  A pass of the main loop in which the thread is cancelled in the request of its action: the pass as it
  is, halted there, and then the cleanup handler that the thread has pushed. \<open>None\<close> when the
  pass makes no request.
\<close>

definition tcp_master_cancelled ::
  "'w env \<Rightarrow> ('w \<Rightarrow> 'w) \<Rightarrow> TModbusMasterConfiguration \<Rightarrow> master \<Rightarrow> 'w \<Rightarrow> (release list outcome \<times> 'w) option" where
  "tcp_master_cancelled E request cfg m w =
     (case tcp_master_loop (cancelling_env E request) cfg m (w, False) of (_, (w', halted)) \<Rightarrow>
        if halted then Some (cleanupTcpMasterThread E (context_of m) w') else None)"

definition rtu_master_cancelled ::
  "'w env \<Rightarrow> ('w \<Rightarrow> 'w) \<Rightarrow> TModbusMasterConfiguration \<Rightarrow> master \<Rightarrow> 'w \<Rightarrow> (release list outcome \<times> 'w) option" where
  "rtu_master_cancelled E request cfg m w =
     (case rtu_master_loop (cancelling_env E request) cfg m (w, False) of (_, (w', halted)) \<Rightarrow>
        if halted then Some (cleanupRtuMasterThread E (context_of m) w') else None)"

text \<open>Whenever the thread has halted in its request, the mutex is locked.\<close>

abbreviation halted_locked :: "('w \<Rightarrow> bool) \<Rightarrow> 'w \<times> bool \<Rightarrow> bool" where
  "halted_locked held v \<equiv> snd v \<longrightarrow> held (fst v)"

lemma cancelled_action_locked:
  assumes "mutex_world E held" "\<forall>w. held (request w) = held w"
  shows "keeps (halted_locked held) (processModbusAction (cancelling_env E request) ctx ev buffer)"
proof -
  let ?C = "cancelling_env E request"
  have lock: "held (snd (mutex_lock E w))" for w
    using assms(1) by (simp add: mutex_world_def mutex_laws_def)
  have "action_preserves ?C (\<lambda>v. held (fst v) = True)"
    unfolding cancelling_env_def using assms(1)
    by (intro halting_preserves assms(2) mutex_world_surroundings) (simp_all add: mutex_world_def mutex_laws_def)
  then show ?thesis
    unfolding leads_keeps
    by (intro processModbusAction_leads [where J = "\<lambda>v. held (fst v) = True"])
       (auto simp: cancelling_env_def halting_defs lock split: if_splits)
qed

lemma master_cancelled_locked:
  assumes "mutex_world E held" "\<forall>w. held (request w) = held w"
  shows "keeps (halted_locked held) (tcp_master_loop (cancelling_env E request) cfg m)"
    and "keeps (halted_locked held) (rtu_master_loop (cancelling_env E request) cfg m)"
proof -
  have calm: "surroundings_keep (cancelling_env E request) (\<lambda>v. (held (fst v), snd v))"
    unfolding cancelling_env_def by (intro halting_surroundings mutex_world_surroundings assms(1))
  have pass: "leads (halted_locked held) (tcp_master_loop (cancelling_env E request) cfg m) (halted_locked held)"
      "leads (halted_locked held) (rtu_master_loop (cancelling_env E request) cfg m) (halted_locked held)"
    if "next_event (eventList m) = Ret (ev, evl)" for ev evl
    by (rule loops_lead [OF that cancelled_action_locked [OF assms, unfolded leads_keeps] calm]; simp)+
  show "keeps (halted_locked held) (tcp_master_loop (cancelling_env E request) cfg m)"
    "keeps (halted_locked held) (rtu_master_loop (cancelling_env E request) cfg m)"
    using unscheduled_pass(1,2) pass unfolding leads_keeps by blast+
qed

lemma release_context_held:
  assumes "mutex_world E held" "held w"
  shows "wp (release_context E ctx) (\<lambda>_ w'. held w') w"
proof -
  have "held (snd (modbus_close E c v)) = held v" "held (snd (modbus_free E c v)) = held v" for c v
    using assms(1) by (simp_all add: mutex_world_def master_calls_keep_def)
  with assms(2) show ?thesis
    by (simp add: release_context_def wp_simps split: option.splits)
qed

lemma cancelled_master:
  assumes "mutex_world E held" "\<forall>w. held (request w) = held w"
  shows "tcp_master_cancelled E request cfg m w = Some (r, w') \<Longrightarrow> (\<exists>u. r = Ret u) \<and> held w'"
    and "rtu_master_cancelled E request cfg m w = Some (r, w') \<Longrightarrow> (\<exists>u. r = Ret u) \<and> held w'"
proof -
  have locked: "held v" if "keeps (halted_locked held) n" "n (w, False) = (x, (v, True))" for n :: "('a \<times> bool, 'b) prog" and x v
    using keepsD [OF that(1) _ that(2)] by simp
  have release: "(\<exists>u. r = Ret u) \<and> held w'" if "release_context E ctx v = (r, w')" "held v" for ctx v
    using release_context_held [OF assms(1) that(2), of ctx] that(1) by (auto simp: wp_iff)
  show "tcp_master_cancelled E request cfg m w = Some (r, w') \<Longrightarrow> (\<exists>u. r = Ret u) \<and> held w'"
    using locked [OF master_cancelled_locked(1) [OF assms]] release
    by (simp add: tcp_master_cancelled_def cleanupTcpMasterThread_def split: prod.splits if_splits)
  show "rtu_master_cancelled E request cfg m w = Some (r, w') \<Longrightarrow> (\<exists>u. r = Ret u) \<and> held w'"
    using locked [OF master_cancelled_locked(2) [OF assms]] release
    by (simp add: rtu_master_cancelled_def cleanupRtuMasterThread_def split: prod.splits if_splits)
qed

section \<open>Threads that wait for the mutex\<close>

text \<open>
  The threads started after the reset. A thread is in one of its phases, or it waits for the mutex in
  the middle of a pass (\<open>None\<close>). A pass that comes to its end, one that halts because the
  mutex is held, and the end of the waiting when the mutex is free; what the thread does then is left
  open.
\<close>

inductive blocking_interleaving ::
  "('w \<Rightarrow> bool) \<Rightarrow> ('c \<Rightarrow> 'p \<Rightarrow> ('w \<times> bool, 'p) prog) \<Rightarrow> ('c \<times> 'p option) list \<Rightarrow> 'w \<Rightarrow> ('c \<times> 'p option) list \<Rightarrow> 'w \<Rightarrow> bool"
  for held step ts0 w0 where
  blocking_start: "blocking_interleaving held step ts0 w0 ts0 w0"
| blocking_pass: "blocking_interleaving held step ts0 w0 ts w \<Longrightarrow> i < length ts \<Longrightarrow> ts ! i = (c, Some p) \<Longrightarrow>
    step c p (w, False) = (Ret p', (w', False)) \<Longrightarrow> blocking_interleaving held step ts0 w0 (ts[i := (c, Some p')]) w'"
| blocking_halt: "blocking_interleaving held step ts0 w0 ts w \<Longrightarrow> i < length ts \<Longrightarrow> ts ! i = (c, Some p) \<Longrightarrow>
    step c p (w, False) = (r, (w', True)) \<Longrightarrow> blocking_interleaving held step ts0 w0 (ts[i := (c, None)]) w'"
| blocking_resume: "blocking_interleaving held step ts0 w0 ts w \<Longrightarrow> i < length ts \<Longrightarrow> ts ! i = (c, None) \<Longrightarrow>
    \<not> held w \<Longrightarrow> blocking_interleaving held step ts0 w0 (ts[i := (c, q)]) w'"

lemma update_all: "\<forall>x \<in> set xs. P x \<Longrightarrow> P y \<Longrightarrow> \<forall>x \<in> set (xs[i := y]). P x"
  by (auto dest: set_update_subset_insert [THEN subsetD])

lemma blocking_interleaving_inv:
  assumes "blocking_interleaving held step ts0 w0 ts w" "\<forall>(c, q) \<in> set ts0. \<forall>p. q = Some p \<longrightarrow> I p" "J w0"
    and "\<And>w. J w \<Longrightarrow> held w"
    and "\<And>c p w. I p \<Longrightarrow> J w \<Longrightarrow> wlp (step c p) (\<lambda>p' v. \<not> snd v \<longrightarrow> I p') (w, False)"
    and "\<And>c p w. I p \<Longrightarrow> J w \<Longrightarrow> J (fst (snd (step c p (w, False))))"
  shows "(\<forall>(c, q) \<in> set ts. \<forall>p. q = Some p \<longrightarrow> I p) \<and> J w"
  using assms(1)
proof induction
  case (blocking_pass ts w i c p p' w')
  have "I p"
    using blocking_pass.IH blocking_pass.hyps(2,3) nth_mem by fastforce
  then have "I p'" "J w'"
    using wlpD [OF assms(5) blocking_pass.hyps(4)] assms(6) [of p w c] blocking_pass.IH blocking_pass.hyps(4) by auto
  then show ?case
    using blocking_pass.IH by (intro conjI update_all) auto
next
  case (blocking_halt ts w i c p r w')
  have "I p"
    using blocking_halt.IH blocking_halt.hyps(2,3) nth_mem by fastforce
  then have "J w'"
    using assms(6) [of p w c] blocking_halt.IH blocking_halt.hyps(4) by auto
  then show ?case
    using blocking_halt.IH by (intro conjI update_all) auto
qed (use assms(2-4) in auto)

text \<open>A master in the state in which it enters its main loop: it has not carried out an action yet.\<close>

definition idle_master :: "master \<Rightarrow> bool" where
  "idle_master m \<longleftrightarrow> err_cnt m = 0 \<and> earliest_next_trigger m = \<lparr>tv_sec = 0, tv_nsec = 0\<rparr>"

fun idle_thread :: "master_thread \<Rightarrow> bool" where
  "idle_thread (Tcp_master (TM_loop m)) \<longleftrightarrow> idle_master m"
| "idle_thread (Rtu_master (RM_loop m)) \<longleftrightarrow> idle_master m"
| "idle_thread _ \<longleftrightarrow> True"

lemma idle_start:
  "(\<And>m. p \<noteq> TM_loop m) \<Longrightarrow> wlp (startTcpMasterThread D E cfg p) (\<lambda>p' _. idle_thread (Tcp_master p')) w"
  "(\<And>m. q \<noteq> RM_loop m) \<Longrightarrow> wlp (startRtuMasterThread E cfg q) (\<lambda>p' _. idle_thread (Rtu_master p')) w"
proof -
  show "(\<And>m. p \<noteq> TM_loop m) \<Longrightarrow> wlp (startTcpMasterThread D E cfg p) (\<lambda>p' _. idle_thread (Tcp_master p')) w"
    by (cases p) (auto simp: tcp_master_start_def tcp_master_connect_def wp_simps wp_liftO case_prod_unfold idle_master_def
        intro!: wlp_True split: option.splits)
  show "(\<And>m. q \<noteq> RM_loop m) \<Longrightarrow> wlp (startRtuMasterThread E cfg q) (\<lambda>p' _. idle_thread (Rtu_master p')) w"
    by (cases q) (auto simp: rtu_master_open_def rtu_master_begin_def wp_simps wp_liftO case_prod_unfold idle_master_def
        intro!: wlp_True split: option.splits)
qed

text \<open>
  With the mutex held by another thread, a view \<open>f\<close> that only requests change stays as it is, and an
  action halts before it has made its request.
\<close>

abbreviation stuck :: "('w \<Rightarrow> bool) \<Rightarrow> ('w \<Rightarrow> 'v) \<Rightarrow> 'v \<Rightarrow> 'w \<times> bool \<Rightarrow> bool" where
  "stuck held f x v \<equiv> held (fst v) \<and> f (fst v) = x"

lemma blocked_action:
  "leads (stuck held f x) (processModbusAction (blocking_env E held) ctx ev buffer) (\<lambda>v. stuck held f x v \<and> snd v)"
proof (rule processModbusAction_leads [where J = "\<lambda>v. stuck held f x v \<and> snd v"])
  show "action_preserves (blocking_env E held) (\<lambda>v. stuck held f x v \<and> snd v)"
    unfolding blocking_env_def by (rule halted_preserves)
qed (auto simp: blocking_env_def halting_defs split: if_splits)

lemma stuck_surroundings:
  assumes "\<And>b. keeps (\<lambda>v. (held (fst v), f (fst v), snd v) = b) m"
  shows "keeps (stuck held f x) m" "keeps (\<lambda>v. stuck held f x v \<and> snd v) m"
  using assms unfolding keeps_def by (metis prod.inject)+

lemma blocking_surroundings:
  assumes "mutex_world E held" "surroundings_keep E f"
  shows "surroundings_keep (blocking_env E held) (\<lambda>v. (held (fst v), f (fst v), snd v))"
  using halting_surroundings [OF surroundings_keep_pair [OF mutex_world_surroundings [OF assms(1)] assms(2)]]
  unfolding blocking_env_def surroundings_keep_def master_calls_keep_def clock_keeps_def image_access_keeps_def by simp

lemma blocked_pass:
  assumes "mutex_world E held" "surroundings_keep E f" "next_event (eventList m) = Ret (ev, evl)"
  shows "leads (stuck held f x) (tcp_master_loop (blocking_env E held) cfg m) (\<lambda>v. stuck held f x v \<and> snd v)"
    and "leads (stuck held f x) (rtu_master_loop (blocking_env E held) cfg m) (\<lambda>v. stuck held f x v \<and> snd v)"
  by (rule loops_lead [OF assms(3) blocked_action blocking_surroundings [OF assms(1,2)]]; simp)+

lemma blocked_loops:
  assumes "mutex_world E held" "surroundings_keep E f"
  shows "keeps (stuck held f x) (tcp_master_loop (blocking_env E held) cfg m)"
    and "keeps (stuck held f x) (rtu_master_loop (blocking_env E held) cfg m)"
    and "stuck held f x v \<Longrightarrow> wlp (tcp_master_loop (blocking_env E held) cfg m) (\<lambda>_ v. snd v) v"
    and "stuck held f x v \<Longrightarrow> wlp (rtu_master_loop (blocking_env E held) cfg m) (\<lambda>_ v. snd v) v"
proof -
  note pass = blocked_pass [OF assms, where x = x and cfg = cfg]
  have weaken: "leads (stuck held f x) n (\<lambda>v. stuck held f x v \<and> snd v) \<Longrightarrow> keeps (stuck held f x) n"
    for n :: "('a \<times> bool, 'c) prog"
    by (auto simp: leads_def keeps_def)
  have halts: "leads (stuck held f x) n (\<lambda>v. stuck held f x v \<and> snd v) \<Longrightarrow> stuck held f x v \<Longrightarrow> wlp n (\<lambda>_ v. snd v) v"
    for n :: "('a \<times> bool, 'c) prog" and v
    by (rule wlp_mono [OF wlp_leads], assumption+) simp
  show "keeps (stuck held f x) (tcp_master_loop (blocking_env E held) cfg m)"
    "keeps (stuck held f x) (rtu_master_loop (blocking_env E held) cfg m)"
    using unscheduled_pass(1,2) weaken [OF pass(1)] weaken [OF pass(2)] by blast+
  show "wlp (tcp_master_loop (blocking_env E held) cfg m) (\<lambda>_ v. snd v) v" if "stuck held f x v"
  proof (cases "\<exists>ev evl. next_event (eventList m) = Ret (ev, evl)")
    case True
    then obtain ev evl where "next_event (eventList m) = Ret (ev, evl)" by blast
    from halts [OF pass(1) [OF this] that] show ?thesis .
  qed (rule unscheduled_pass(3))
  show "wlp (rtu_master_loop (blocking_env E held) cfg m) (\<lambda>_ v. snd v) v" if "stuck held f x v"
  proof (cases "\<exists>ev evl. next_event (eventList m) = Ret (ev, evl)")
    case True
    then obtain ev evl where "next_event (eventList m) = Ret (ev, evl)" by blast
    from halts [OF pass(2) [OF this] that] show ?thesis .
  qed (rule unscheduled_pass(4))
qed

lemma blocked_step:
  assumes "mutex_world E held" "surroundings_keep E f"
  shows "keeps (stuck held f x) (step_master_thread D (blocking_env E held) cfg p)"
    and "stuck held f x v \<Longrightarrow> wlp (step_master_thread D (blocking_env E held) cfg p) (\<lambda>p' v. \<not> snd v \<longrightarrow> idle_thread p') v"
proof -
  let ?B = "blocking_env E held"
  note sur = blocking_surroundings [OF assms]
  note loops = blocked_loops [OF assms, where x = x and cfg = cfg]
  have tcp: "keeps (stuck held f x) (startTcpMasterThread D ?B cfg q)" for q
    by (cases "\<exists>m. q = TM_loop m") (auto intro: loops stuck_surroundings(1) tcp_master_keeps [OF sur])
  have rtu: "keeps (stuck held f x) (startRtuMasterThread ?B cfg q)" for q
    by (cases "\<exists>m. q = RM_loop m") (auto intro: loops stuck_surroundings(1) rtu_master_keeps [OF sur])
  show "keeps (stuck held f x) (step_master_thread D ?B cfg p)"
    by (cases p) (auto intro!: keeps_intros tcp rtu)
  have idle_tcp: "wlp (startTcpMasterThread D ?B cfg q) (\<lambda>p' v. \<not> snd v \<longrightarrow> idle_thread (Tcp_master p')) v" if "stuck held f x v" for q
    by (cases "\<exists>m. q = TM_loop m") (use that in \<open>auto intro: wlp_mono [OF loops(3)] wlp_mono [OF idle_start(1)]\<close>)
  have idle_rtu: "wlp (startRtuMasterThread ?B cfg q) (\<lambda>p' v. \<not> snd v \<longrightarrow> idle_thread (Rtu_master p')) v" if "stuck held f x v" for q
    by (cases "\<exists>m. q = RM_loop m") (use that in \<open>auto intro: wlp_mono [OF loops(4)] wlp_mono [OF idle_start(2)]\<close>)
  show "stuck held f x v \<Longrightarrow> wlp (step_master_thread D ?B cfg p) (\<lambda>p' v. \<not> snd v \<longrightarrow> idle_thread p') v"
    by (cases p) (auto simp: wp_simps idle_tcp idle_rtu)
qed

text \<open>A reading action makes its request, whatever the state of the world.\<close>

definition reading_action :: "TModbusAction \<Rightarrow> bool" where
  "reading_action act \<longleftrightarrow> eFunctionCode act \<in> {eREAD_COILS, eREAD_DISCRETE_INPUTS, eREAD_HOLDING_REGISTERS, eREAD_INPUT_REGISTERS}
     \<and> action_fits (eFunctionCode act) (unat (i16uRegisterCount act))"

lemma reading_action_halts:
  assumes "modbus_limits E" "reading_action act"
  shows "leads (\<lambda>_. True) (process_function (cancelling_env E request) ctx (eFunctionCode act) act buffer) snd"
proof -
  let ?C = "cancelling_env E request"
  have kept: "action_preserves ?C snd"
    using halted_preserves [of E "\<lambda>_. False" "\<lambda>_. True" request "\<lambda>_. True"] by (simp add: cancelling_env_def)
  have requests: "leads (\<lambda>_. True) (ext (modbus_read_bits ?C ctx a n)) snd" "leads (\<lambda>_. True) (ext (modbus_read_input_bits ?C ctx a n)) snd"
    "leads (\<lambda>_. True) (ext (modbus_read_registers ?C ctx a n)) snd" "leads (\<lambda>_. True) (ext (modbus_read_input_registers ?C ctx a n)) snd" for a n
    by (auto intro!: leads_ext simp: cancelling_env_def halting_defs)
  have "register_count act = int (unat (i16uRegisterCount act))"
    by (simp add: register_count_def)
  then have counts: "eFunctionCode act \<in> {eREAD_COILS, eREAD_DISCRETE_INPUTS} \<Longrightarrow> register_count act \<le> 2000"
    "eFunctionCode act \<in> {eREAD_HOLDING_REGISTERS, eREAD_INPUT_REGISTERS} \<Longrightarrow> register_count act \<le> 125"
    using assms(2) by (auto simp: reading_action_def simp del: of_nat_unat)
  have limits: "MODBUS_MAX_READ_BITS ?C = 2000" "MODBUS_MAX_READ_REGISTERS ?C = 125"
    using assms(1) by (simp_all add: cancelling_env_def halting_calls modbus_limits_def)
  have true: "assertM True = ret ()" "seqM (ret ()) m = m" for m :: "('a \<times> bool, 'b) prog"
    by (simp_all add: fun_eq_iff run_simps)
  have bits: "leads (\<lambda>_. True) (read_bits_case ?C read act buffer) snd"
    if "\<And>a n. leads (\<lambda>_. True) (ext (read a n)) snd" "register_count act \<le> 2000" for read
    unfolding read_bits_case_def limits using that
    by (auto simp: true leads_keeps [symmetric] intro!: leads_call keeps_intros coil_loops_keep [OF kept])
  have registers: "leads (\<lambda>_. True) (read_registers_case ?C read act buffer) snd"
    if "\<And>a n. leads (\<lambda>_. True) (ext (read a n)) snd" "register_count act \<le> 125" for read
    unfolding read_registers_case_def limits using that
    by (auto simp: true leads_keeps [symmetric] action_preservesD [OF kept] intro!: leads_call keeps_intros)
  show ?thesis
    using assms(2) counts by (auto simp: reading_action_def intro!: bits registers requests)
qed

lemma reading_master_cancelled:
  assumes "modbus_limits E" "next_event (eventList m) = Ret (ev, evl)" "reading_action (eventModbusAction ev)"
  shows "\<exists>r w'. tcp_master_cancelled E request cfg m w = Some (r, w')"
    and "\<exists>r w'. rtu_master_cancelled E request cfg m w = Some (r, w')"
proof -
  let ?C = "cancelling_env E request" and ?T = "\<lambda>_. True :: bool"
  have kept: "action_preserves ?C snd"
    using halted_preserves [of E "\<lambda>_. False" "\<lambda>_. True" request "\<lambda>_. True"] by (simp add: cancelling_env_def)
  have stay: "leads snd (ext (mutex_unlock ?C)) snd"
    by (auto intro!: leads_ext simp: cancelling_env_def halting_defs)
  have report: "leads snd (report_outcome ?C act l s) snd" for act l s
    unfolding leads_keeps [symmetric] by (rule report_outcome_keeps [OF kept])
  have tail: "leads snd (bindM (report_outcome ?C act l s) (\<lambda>_. bindM (ext (mutex_unlock ?C)) (\<lambda>_. ret x))) snd"
    for act l s and x :: "int \<times> u8 list"
    by (intro leads_bind [OF report] leads_call [OF stay]) (simp_all add: leads_def run_simps)
  have "leads ?T (processModbusAction ?C ctx ev buffer) snd" for ctx buffer
    unfolding processModbusAction_def Let_def seqM_def
    by (intro leads_call [where J = ?T] leads_bind [OF reading_action_halts [OF assms(1,3)]])
       (auto intro!: leads_ext tail split: prod.splits)
  moreover have "surroundings_keep ?C (\<lambda>v. ((\<lambda>_. ()) (fst v), snd v))"
    unfolding cancelling_env_def
    by (intro halting_surroundings) (simp add: surroundings_keep_def master_calls_keep_def clock_keeps_def image_access_keeps_def)
  ultimately have "leads ?T (tcp_master_loop ?C cfg m) snd" "leads ?T (rtu_master_loop ?C cfg m) snd"
    using loops_lead [OF assms(2), of ?T ?C snd] by blast+
  then show "\<exists>r w'. tcp_master_cancelled E request cfg m w = Some (r, w')"
    "\<exists>r w'. rtu_master_cancelled E request cfg m w = Some (r, w')"
    by (auto simp: tcp_master_cancelled_def rtu_master_cancelled_def leads_def split: prod.splits) (metis snd_conv surj_pair)+
qed

section \<open>Properties\<close>

text \<open>
  C14: A reset that finds a master in a request to its device stops the program for good. When a pass
  of a master, for TCP or for RTU, is cancelled in its request, the cleanup handler runs to its end and
  leaves the mutex locked, and a pass whose next action reads coils or registers does make its request. In
  any world in which the mutex is locked, a pass of a main loop that has an event to carry out halts in the
  lock; so whatever threads the program starts again, they may connect and enter their loops, in
  any order of their passes, but the mutex stays locked, no pass of a loop comes to its end, and
  what only requests change, such as the registers of a device, stays as it is.
\<close>

theorem cancelled_request_blocks_masters:
  assumes "mutex_world E held" "\<forall>w. held (request w) = held w" "surroundings_keep E f"
  shows "(tcp_master_cancelled E request cfg m w = Some (r, w') \<or> rtu_master_cancelled E request cfg m w = Some (r, w')
      \<longrightarrow> (\<exists>u. r = Ret u) \<and> held w')
   \<and> (modbus_limits E \<and> next_event (eventList m) = Ret (ev, evl) \<and> reading_action (eventModbusAction ev) \<longrightarrow>
        tcp_master_cancelled E request cfg m w \<noteq> None \<and> rtu_master_cancelled E request cfg m w \<noteq> None)
   \<and> (next_event (eventList m) = Ret (ev, evl) \<and> held w \<longrightarrow>
        snd (snd (tcp_master_loop (blocking_env E held) cfg m (w, False)))
        \<and> snd (snd (rtu_master_loop (blocking_env E held) cfg m (w, False))))
   \<and> (\<forall>cfgs v0 ts v. held v0 \<and> blocking_interleaving held (step_master_thread D (blocking_env E held))
          (map (\<lambda>cfg. (cfg, Some (start_master_thread cfg))) cfgs) v0 ts v \<longrightarrow>
        held v \<and> f v = f v0
        \<and> (\<forall>(cfg, q) \<in> set ts. \<forall>m. q = Some (Tcp_master (TM_loop m)) \<or> q = Some (Rtu_master (RM_loop m)) \<longrightarrow>
            err_cnt m = 0 \<and> earliest_next_trigger m = \<lparr>tv_sec = 0, tv_nsec = 0\<rparr>))"
proof (intro conjI allI impI)
  show "\<exists>u. r = Ret u" "held w'"
    if "tcp_master_cancelled E request cfg m w = Some (r, w') \<or> rtu_master_cancelled E request cfg m w = Some (r, w')"
    using cancelled_master [OF assms(1,2)] that by blast+
next
  assume "modbus_limits E \<and> next_event (eventList m) = Ret (ev, evl) \<and> reading_action (eventModbusAction ev)"
  then show "tcp_master_cancelled E request cfg m w \<noteq> None" "rtu_master_cancelled E request cfg m w \<noteq> None"
    using reading_master_cancelled [of E m ev evl request cfg w] by auto
next
  assume "next_event (eventList m) = Ret (ev, evl) \<and> held w"
  then show "snd (snd (tcp_master_loop (blocking_env E held) cfg m (w, False)))"
    "snd (snd (rtu_master_loop (blocking_env E held) cfg m (w, False)))"
    using blocked_pass [OF assms(1,3), of m ev evl "f w" cfg] by (auto simp: leads_def)
next
  fix cfgs v0 ts v
  assume run: "held v0 \<and> blocking_interleaving held (step_master_thread D (blocking_env E held))
      (map (\<lambda>cfg. (cfg, Some (start_master_thread cfg))) cfgs) v0 ts v"
  note step = blocked_step [OF assms(1,3), where D = D and x = "f v0"]
  have "(\<forall>(c, q) \<in> set ts. \<forall>p. q = Some p \<longrightarrow> idle_thread p) \<and> held v \<and> f v = f v0"
    by (rule blocking_interleaving_inv [OF conjunct2 [OF run], where J = "\<lambda>w. held w \<and> f w = f v0"])
       (use run step [unfolded keeps_def] in \<open>auto simp: start_master_thread_def\<close>)
  moreover have "idle_thread (Tcp_master (TM_loop m)) \<or> idle_thread (Rtu_master (RM_loop m)) \<Longrightarrow>
      err_cnt m = 0 \<and> earliest_next_trigger m = \<lparr>tv_sec = 0, tv_nsec = 0\<rparr>" for m
    by (auto simp: idle_master_def)
  ultimately show "held v" "f v = f v0" "\<forall>(cfg, q) \<in> set ts. \<forall>m. q = Some (Tcp_master (TM_loop m)) \<or> q = Some (Rtu_master (RM_loop m))
      \<longrightarrow> err_cnt m = 0 \<and> earliest_next_trigger m = \<lparr>tv_sec = 0, tv_nsec = 0\<rparr>"
    by (auto simp del: idle_thread.simps)
qed

abbreviation demo_config :: TModbusMasterConfiguration where
  "demo_config \<equiv> demo_master [demo_action 1 eREAD_COILS 3 1000000]"

definition locked_plant :: plant where
  "locked_plant = plant0\<lparr>p_held := True\<rparr>"

lemma plant_masters: "mutex_world plant_env p_held" "surroundings_keep plant_env p_regs"
  using plant_mutex(1)
  by (simp_all add: mutex_world_def surroundings_keep_def master_calls_keep_def clock_keeps_def image_access_keeps_def)
     (simp_all add: plant_env_def)

lemma snd_bind_ret: "snd (bindM n (\<lambda>q. ret (g q)) s) = snd (n s)"
  by (simp add: bindM_def ret_def split: outcome.splits prod.splits)

lemma locked_start:
  obtains m v where "blocking_interleaving p_held (step_master_thread exact_ops (blocking_env plant_env p_held))
      [(demo_config, Some (Tcp_master TM_start))] locked_plant [(demo_config, Some (Tcp_master (TM_loop m)))] v"
    and "master_ok demo_config m"
proof -
  let ?B = "blocking_env plant_env p_held" and ?connect = "TM_connect 0 (replicate MAX_REGISTER_SIZE_PER_ACTION 0)"
  let ?run = "blocking_interleaving p_held (step_master_thread exact_ops ?B) [(demo_config, Some (Tcp_master TM_start))] locked_plant"
  have step1: "startTcpMasterThread exact_ops ?B demo_config TM_start (locked_plant, False) = (Ret ?connect, (locked_plant, False))"
    by (simp add: tcp_master_start_def blocking_env_def halting_calls halting_runs demo_master_run locked_plant_def)
  have "\<exists>m v. startTcpMasterThread exact_ops ?B demo_config ?connect (locked_plant, False) = (Ret (TM_loop m), (v, False))"
    by (simp add: tcp_master_connect_def initScheduler_def newSchedulerEvent_def timespec_add_def Let_def
        set_timeouts_def get_minimal_modbus_action_interval_def timespec_diff_def to_i32_def time_defs
        modbus_timeout_def c_mod_def c_div_def blocking_env_def halting_calls halting_runs demo_master_run locked_plant_def
        demo_action_def)
  then obtain m v where step2: "startTcpMasterThread exact_ops ?B demo_config ?connect (locked_plant, False) = (Ret (TM_loop m), (v, False))"
    by blast
  have "?run ([(demo_config, Some (Tcp_master TM_start))][0 := (demo_config, Some (Tcp_master ?connect))]) locked_plant"
    by (rule blocking_pass [OF blocking_start, where p = "Tcp_master TM_start"]) (simp_all add: run_simps step1 [unfolded startTcpMasterThread.simps])
  then have "?run ([(demo_config, Some (Tcp_master ?connect))][0 := (demo_config, Some (Tcp_master (TM_loop m)))]) v"
    by (intro blocking_pass [where p = "Tcp_master ?connect" and w = locked_plant]) (simp_all add: run_simps step2 [unfolded startTcpMasterThread.simps])
  moreover have "\<forall>w. wf_timespec (fst (clock_gettime ?B w))" "\<forall>a \<in> set (mbActionListHead demo_config). i32uInterval_us a \<noteq> 0"
    by (simp_all add: blocking_env_def halting_calls halting_runs plant_clock_wf demo_master_def demo_action_def)
  from wlpD [OF tcp_master_step_inv [OF this, of ?connect] step2] have "master_ok demo_config m" by simp
  ultimately show ?thesis
    using that by simp
qed

theorem cancelled_request_blocks_masters_witness:
  "\<exists>u w ts v. tcp_master_cancelled plant_env (\<lambda>w. w\<lparr>p_errno := 4\<rparr>) demo_config (demo_loop [demo_event 1 1 1]) plant0 = Some (Ret u, w)
     \<and> p_held w
     \<and> blocking_interleaving p_held (step_master_thread exact_ops (blocking_env plant_env p_held))
         (map (\<lambda>cfg. (cfg, Some (start_master_thread cfg))) [demo_config]) locked_plant ts v
     \<and> ts = [(demo_config, None)] \<and> p_held v \<and> p_regs v = p_regs locked_plant"
proof -
  have start: "map (\<lambda>cfg. (cfg, Some (start_master_thread cfg))) [demo_config] = [(demo_config, Some (Tcp_master TM_start))]"
    by (simp add: start_master_thread_def master_routine_def demo_master_def)
  have request: "\<forall>w :: plant. p_held (w\<lparr>p_errno := 4\<rparr>) = p_held w" by simp
  note blocks = cancelled_request_blocks_masters [OF plant_masters(1) request plant_masters(2)]
  obtain m v where loop: "blocking_interleaving p_held (step_master_thread exact_ops (blocking_env plant_env p_held))
      [(demo_config, Some (Tcp_master TM_start))] locked_plant [(demo_config, Some (Tcp_master (TM_loop m)))] v" "master_ok demo_config m"
    by (rule locked_start)
  obtain e evl where "next_event (eventList m) = Ret (event_of e, evl)"
    using next_event_Ret loop(2) unfolding master_ok_def by blast
  moreover have "p_held v"
    using conjunct2 [OF conjunct2 [OF conjunct2 [OF blocks]], rule_format, OF conjI, OF _ loop(1) [folded start]]
    by (simp add: locked_plant_def)
  ultimately have "snd (snd (tcp_master_loop (blocking_env plant_env p_held) demo_config m (v, False)))"
    using blocks by blast
  then have "snd (snd (step_master_thread exact_ops (blocking_env plant_env p_held) demo_config (Tcp_master (TM_loop m)) (v, False)))"
    by (simp add: snd_bind_ret)
  then obtain r v' where "step_master_thread exact_ops (blocking_env plant_env p_held) demo_config (Tcp_master (TM_loop m)) (v, False)
      = (r, (v', True))"
    by (metis (full_types) prod.collapse)
  then have "blocking_interleaving p_held (step_master_thread exact_ops (blocking_env plant_env p_held))
      [(demo_config, Some (Tcp_master TM_start))] locked_plant ([(demo_config, Some (Tcp_master (TM_loop m)))][0 := (demo_config, None)]) v'"
    by (intro blocking_halt [OF loop(1), where p = "Tcp_master (TM_loop m)"]) simp_all
  then have halted: "blocking_interleaving p_held (step_master_thread exact_ops (blocking_env plant_env p_held))
      (map (\<lambda>cfg. (cfg, Some (start_master_thread cfg))) [demo_config]) locked_plant [(demo_config, None)] v'"
    unfolding start by simp
  have "p_held v' \<and> p_regs v' = p_regs locked_plant"
    using conjunct2 [OF conjunct2 [OF conjunct2 [OF blocks]], rule_format, OF conjI, OF _ halted]
    by (simp add: locked_plant_def)
  moreover have "reading_action (eventModbusAction (event_of (demo_event 1 1 1)))"
    by (simp add: reading_action_def demo_event_def demo_action_def event_of_def)
  moreover have "next_event (eventList (demo_loop [demo_event 1 1 1])) = Ret (event_of (demo_event 1 1 1), [demo_event 2 1 1])"
    by (simp add: next_event_def getNextEvent_def timespec_add_def demo_loop_def demo_event_def event_of_def Let_def time_defs)
  ultimately have "tcp_master_cancelled plant_env (\<lambda>w. w\<lparr>p_errno := 4\<rparr>) demo_config (demo_loop [demo_event 1 1 1]) plant0 \<noteq> None"
    using blocks plant_limits by blast
  then obtain r w where "tcp_master_cancelled plant_env (\<lambda>w. w\<lparr>p_errno := 4\<rparr>) demo_config (demo_loop [demo_event 1 1 1]) plant0
      = Some (r, w)"
    by fastforce
  moreover from this have "(\<exists>u. r = Ret u) \<and> p_held w"
    using blocks by blast
  ultimately show ?thesis
    using halted \<open>p_held v' \<and> p_regs v' = p_regs locked_plant\<close> by blast
qed

end
