(* ===== verification/Cancelled_Slaves.thy ===== *)
theory Cancelled_Slaves
  imports Slave_Interleaving
begin

text \<open>
  The reset of the slave program: its threads are cancelled while others still run. A thread that is
  cancelled where it waits between two passes runs its cleanup handler and ends. What the handlers
  promise is the locale \<open>releasing\<close>: nothing that a thread has opened outlives it.
\<close>

section \<open>Cancelling between passes\<close>

text \<open>
  The handler gets the structure that it was registered with. Before a thread has created them, its mapping
  and its context are \<^verbatim>\<open>NULL\<close> and its set is empty.
\<close>

record hndlTcpSlaveThread =
  hdl_mbMapping :: "modbus_mapping_t option"
  hdl_mb_slave :: "modbus_t option"
  hdl_refset :: "nat set"

record hndlRtuSlaveThread =
  hdl_rtuMapping :: "modbus_mapping_t option"
  hdl_rtu_slave :: "modbus_t option"

fun tcp_slave_hdl :: "tcp_slave_phase \<Rightarrow> hndlTcpSlaveThread option" where
  "tcp_slave_hdl TS_start = Some \<lparr>hdl_mbMapping = None, hdl_mb_slave = None, hdl_refset = {}\<rparr>"
| "tcp_slave_hdl (TS_listen m c) = Some \<lparr>hdl_mbMapping = Some m, hdl_mb_slave = Some c, hdl_refset = {}\<rparr>"
| "tcp_slave_hdl (TS_loop t) =
     Some \<lparr>hdl_mbMapping = Some (mbMapping t), hdl_mb_slave = Some (mb_slave t), hdl_refset = refset t\<rparr>"
| "tcp_slave_hdl (TS_exit u) = None"

fun rtu_slave_hdl :: "rtu_slave_phase \<Rightarrow> hndlRtuSlaveThread option" where
  "rtu_slave_hdl RS_wait = Some \<lparr>hdl_rtuMapping = None, hdl_rtu_slave = None\<rparr>"
| "rtu_slave_hdl (RS_loop m c) = Some \<lparr>hdl_rtuMapping = Some m, hdl_rtu_slave = Some c\<rparr>"
| "rtu_slave_hdl (RS_exit u) = None"

fun cancelled_slave :: "'w env \<Rightarrow> slave_thread \<Rightarrow> ('w, slave_thread) prog" where
  "cancelled_slave E (Tcp_slave p) = (case tcp_slave_hdl p of
     None \<Rightarrow> ret (Tcp_slave p)
   | Some h \<Rightarrow> bindM (cleanupTcpSlaveThread E (hdl_mbMapping h) (hdl_mb_slave h) (hdl_refset h))
                 (\<lambda>u. ret (Tcp_slave (TS_exit u))))"
| "cancelled_slave E (Rtu_slave p) = (case rtu_slave_hdl p of
     None \<Rightarrow> ret (Rtu_slave p)
   | Some h \<Rightarrow> bindM (cleanupRtuSlaveThread E (hdl_rtuMapping h) (hdl_rtu_slave h)) (\<lambda>u. ret (Rtu_slave (RS_exit u))))"

text \<open>Any thread may take the next step, or be cancelled next.\<close>

inductive cancellable_interleaving ::
  "('c \<Rightarrow> 'p \<Rightarrow> ('w, 'p) prog) \<Rightarrow> ('p \<Rightarrow> ('w, 'p) prog) \<Rightarrow> ('c \<times> 'p) list \<Rightarrow> 'w \<Rightarrow> ('c \<times> 'p) list \<Rightarrow> 'w \<Rightarrow> bool"
  for step cancel ts0 w0 where
  cancellable_start: "cancellable_interleaving step cancel ts0 w0 ts0 w0"
| cancellable_step: "cancellable_interleaving step cancel ts0 w0 ts w \<Longrightarrow> i < length ts \<Longrightarrow> ts ! i = (c, p) \<Longrightarrow>
    step c p w = (Ret p', w') \<Longrightarrow> cancellable_interleaving step cancel ts0 w0 (ts[i := (c, p')]) w'"
| cancellable_cancel: "cancellable_interleaving step cancel ts0 w0 ts w \<Longrightarrow> i < length ts \<Longrightarrow> ts ! i = (c, p) \<Longrightarrow>
    cancel p w = (Ret p', w') \<Longrightarrow> cancellable_interleaving step cancel ts0 w0 (ts[i := (c, p')]) w'"

text \<open>
  A thread accounts for what it opens (\<open>owned\<close>), whatever else is open (\<open>F\<close>), and its handler closes all of it.
\<close>

locale releasing =
  fixes step :: "'c \<Rightarrow> 'p \<Rightarrow> ('w, 'p) prog"
    and cancel :: "'p \<Rightarrow> ('w, 'p) prog"
    and start :: "'c \<Rightarrow> 'p"
    and fits :: "'p \<Rightarrow> bool"
    and ended :: "'p \<Rightarrow> bool"
    and owned :: "'p \<Rightarrow> 'r set"
    and resources :: "'w \<Rightarrow> 'r set"
    and law :: bool
  assumes start_fits: "fits (start c)"
    and step_accounts: "law \<Longrightarrow> fits p \<Longrightarrow> resources w \<subseteq> F \<union> owned p \<Longrightarrow>
      wlp (step c p) (\<lambda>p' w'. fits p' \<and> resources w' \<subseteq> F \<union> owned p') w"
    and cancel_releases: "law \<Longrightarrow> fits p \<Longrightarrow> resources w \<subseteq> F \<union> owned p \<Longrightarrow>
      wp (cancel p) (\<lambda>p' w'. fits p' \<and> ended p' \<and> resources w' \<subseteq> F) w"
    and ended_owns: "ended p \<Longrightarrow> owned p = {}"
begin

definition accounted :: "'r set \<Rightarrow> ('c \<times> 'p) list \<Rightarrow> 'w \<Rightarrow> bool" where
  "accounted R ts w \<longleftrightarrow> (\<forall>(c, p) \<in> set ts. fits p) \<and> resources w \<subseteq> R \<union> (\<Union>i < length ts. owned (snd (ts ! i)))"

definition others :: "('c \<times> 'p) list \<Rightarrow> nat \<Rightarrow> 'r set" where
  "others ts i = (\<Union>j \<in> {..<length ts} - {i}. owned (snd (ts ! j)))"

lemma others_update: "i < length ts \<Longrightarrow>
    (\<Union>j < length ts. owned (snd (ts[i := (c, p)] ! j))) = others ts i \<union> owned p"
  by (auto simp: others_def nth_list_update split: if_splits)

lemma accounted_at:
  assumes "accounted R ts w" "i < length ts" "ts ! i = (c, p)"
  shows "fits p" "resources w \<subseteq> R \<union> others ts i \<union> owned p"
proof -
  show "fits p"
    using assms nth_mem [OF assms(2)] by (auto simp: accounted_def)
  have "ts[i := (c, p)] = ts"
    using assms(3) by (metis list_update_id)
  then show "resources w \<subseteq> R \<union> others ts i \<union> owned p"
    using assms(1) others_update [OF assms(2), of c p] by (auto simp: accounted_def)
qed

lemma accounted_update:
  assumes "accounted R ts w" "i < length ts" "fits p'" "resources w' \<subseteq> R \<union> others ts i \<union> owned p'"
  shows "accounted R (ts[i := (c, p')]) w'"
  using assms others_update [OF assms(2), of c p']
  by (auto simp: accounted_def dest!: set_update_subset_insert [THEN subsetD])

lemma accounts:
  assumes law "cancellable_interleaving step cancel (map (\<lambda>c. (c, start c)) cs) w0 ts w"
  shows "accounted (resources w0) ts w"
  using assms(2)
proof induction
  case cancellable_start
  then show ?case
    by (auto simp: accounted_def start_fits)
next
  case (cancellable_step ts w i c p p' w')
  note at = accounted_at [OF cancellable_step.IH cancellable_step.hyps(2,3)]
  from accounted_update [OF cancellable_step.IH cancellable_step.hyps(2)]
    wlpD [OF step_accounts [OF assms(1) at] cancellable_step.hyps(4)]
  show ?case by blast
next
  case (cancellable_cancel ts w i c p p' w')
  note at = accounted_at [OF cancellable_cancel.IH cancellable_cancel.hyps(2,3)]
  have "fits p' \<and> resources w' \<subseteq> resources w0 \<union> others ts i"
    using cancel_releases [OF assms(1) at] cancellable_cancel.hyps(4) by (auto simp: wp_iff)
  then show ?case
    by (intro accounted_update [OF cancellable_cancel.IH cancellable_cancel.hyps(2)]) auto
qed

lemma all_released:
  assumes law "cancellable_interleaving step cancel (map (\<lambda>c. (c, start c)) cs) w0 ts w"
    and "\<forall>(c, p) \<in> set ts. ended p"
  shows "resources w \<subseteq> resources w0"
proof -
  have "owned (snd (ts ! i)) = {}" if "i < length ts" for i
    using assms(3) nth_mem [OF that] ended_owns by (metis case_prod_beta)
  then show ?thesis
    using accounts [OF assms(1,2)] by (auto simp: accounted_def)
qed

lemma cancel_ends:
  assumes law "cancellable_interleaving step cancel (map (\<lambda>c. (c, start c)) cs) w0 ts w" "(c, p) \<in> set ts"
  shows "\<exists>p' w'. cancel p w = (Ret p', w') \<and> ended p'"
proof -
  obtain i where "i < length ts" "ts ! i = (c, p)"
    using assms(3) by (auto simp: in_set_conv_nth)
  from cancel_releases [OF assms(1) accounted_at [OF accounts [OF assms(1,2)] this]] show ?thesis
    by (auto simp: wp_iff)
qed

end

section \<open>The slave threads\<close>

text \<open>Releasing a context may close its socket and never opens one.\<close>

definition releases_only :: "'w env \<Rightarrow> ('w \<Rightarrow> nat set) \<Rightarrow> bool" where
  "releases_only E fds \<longleftrightarrow> (\<forall>c w. fds (snd (modbus_close E c w)) \<subseteq> fds w) \<and> (\<forall>c w. fds (snd (modbus_free E c w)) \<subseteq> fds w)"

definition reset_world :: "'w env \<Rightarrow> ('w \<Rightarrow> nat set) \<Rightarrow> bool" where
  "reset_world E fds \<longleftrightarrow> fd_laws E fds \<and> serial_calls_keep E fds \<and> releases_only E fds"

fun slave_fits :: "slave_thread \<Rightarrow> bool" where
  "slave_fits (Tcp_slave (TS_loop t)) \<longleftrightarrow> refset t \<subseteq> {..<FD_SETSIZE}"
| "slave_fits _ \<longleftrightarrow> True"

lemma close_fds_releases:
  assumes "fd_laws E fds"
  shows "wp (close_fds E A ds) (\<lambda>_ w'. fds w' = fds w - (A \<inter> set ds)) w"
proof (induction ds arbitrary: w)
  case (Cons d ds)
  have "wp (close_fds E A ds) (\<lambda>_ w'. fds w' = fds w - (A \<inter> set (d # ds))) (snd (close_fd E d w))" if "d \<in> A"
    using that by (intro wp_mono [OF Cons.IH]) (auto simp: fd_lawsD(1) [OF assms])
  moreover have "A \<inter> set (d # ds) = A \<inter> set ds" if "d \<notin> A"
    using that by auto
  ultimately show ?case
    using Cons.IH [of w] by (simp add: wp_simps)
qed (simp add: wp_simps)

lemma release_context_contained:
  assumes "releases_only E fds" "fds w \<subseteq> A"
  shows "wp (release_context E ctx) (\<lambda>_ w'. fds w' \<subseteq> A) w"
proof (cases ctx)
  case None
  with assms(2) show ?thesis by (simp add: release_context_def wp_simps)
next
  case (Some c)
  have "fds (snd (modbus_free E c (snd (modbus_close E c w)))) \<subseteq> fds w"
    using assms(1) unfolding releases_only_def by (meson subset_trans)
  with Some assms(2) show ?thesis by (auto simp: release_context_def wp_simps)
qed

lemma cleanup_tcp_slave_releases:
  assumes "reset_world E fds" "A \<subseteq> {..<FD_SETSIZE}" "fds w \<subseteq> F \<union> A"
  shows "wp (cleanupTcpSlaveThread E m ctx A) (\<lambda>_ w'. fds w' \<subseteq> F) w"
proof -
  have W: "fd_laws E fds" "releases_only E fds"
    using assms(1) by (simp_all add: reset_world_def)
  have "A \<inter> {0..<FD_SETSIZE} = A"
    using assms(2) by auto
  then show ?thesis
    unfolding cleanupTcpSlaveThread_def wp_simps
    by (intro wp_mono [OF release_context_contained [OF W(2) assms(3)]] wp_mono [OF close_fds_releases [OF W(1)]]) auto
qed

lemma cleanup_rtu_slave_releases:
  assumes "reset_world E fds" "fds w \<subseteq> F"
  shows "wp (cleanupRtuSlaveThread E m ctx) (\<lambda>_ w'. fds w' \<subseteq> F) w"
  using assms release_context_contained [of E fds w F ctx]
  by (auto simp: cleanupRtuSlaveThread_def wp_simps reset_world_def elim!: wp_mono)

lemma accept_connection_accounts:
  assumes "fd_laws E fds" "refset t \<subseteq> {..<FD_SETSIZE}" "fds w \<subseteq> F \<union> refset t"
  shows "wlp (accept_connection E t) (\<lambda>t' w'. refset t' \<subseteq> {..<FD_SETSIZE} \<and> fds w' \<subseteq> F \<union> refset t') w"
proof -
  have y: "yields_fd fds (accept_fd E (server_socket t))"
    using assms(1) by (simp add: fd_laws_def)
  show ?thesis
    using assms(2,3) yields_fdD [OF y, of w]
    by (auto simp: accept_connection_def wp_simps nat_less_iff)
qed

lemma serve_connection_accounts:
  assumes "fd_laws E fds" "refset t \<subseteq> {..<FD_SETSIZE}" "fds w \<subseteq> F \<union> refset t"
  shows "wlp (serve_connection E cfg fd t) (\<lambda>t' w'. refset t' \<subseteq> {..<FD_SETSIZE} \<and> fds w' \<subseteq> F \<union> refset t') w"
  using assms(2,3)
  by (auto simp: serve_connection_def wp_simps case_prod_unfold fd_lawsD [OF assms(1)]
      intro!: wlp_mono [OF wlp_keeps [OF request_keeps_fds [OF assms(1)] fd_lawsD(7) [OF assms(1)]]])

lemma serve_sockets_accounts:
  assumes "fd_laws E fds"
  shows "refset t \<subseteq> {..<FD_SETSIZE} \<Longrightarrow> fds w \<subseteq> F \<union> refset t \<Longrightarrow>
     wlp (serve_sockets E cfg R ds t) (\<lambda>t' w'. refset t' \<subseteq> {..<FD_SETSIZE} \<and> fds w' \<subseteq> F \<union> refset t') w"
proof (induction ds arbitrary: t w)
  case (Cons fd ds)
  then show ?case
    by (auto simp: wp_simps intro!: wlp_mono [OF accept_connection_accounts [OF assms Cons.prems]]
        wlp_mono [OF serve_connection_accounts [OF assms Cons.prems]] Cons.IH)
qed (simp add: wp_simps)

lemma tcp_slave_accounts:
  assumes "reset_world E fds" "slave_fits (Tcp_slave p)" "fds w \<subseteq> F \<union> slave_sockets (Tcp_slave p)"
  shows "wlp (startTcpSlaveThread E cfg p) (\<lambda>p' w'. slave_fits (Tcp_slave p')
     \<and> fds w' \<subseteq> F \<union> slave_sockets (Tcp_slave p')) w"
proof -
  have fd: "fd_laws E fds"
    using assms(1) by (simp add: reset_world_def)
  note cleanup = wp_wlp [OF cleanup_tcp_slave_releases [OF assms(1)]]
  show ?thesis
  proof (cases p)
    case TS_start
    then show ?thesis
      using assms(3)
      by (auto simp: tcp_slave_start_def new_mapping_def wp_simps wp_liftO fd_lawsD [OF fd]
          intro!: wlp_mono [OF cleanup [of "{}" _ F]] split: option.splits)
  next
    case (TS_listen m c)
    have y: "yields_fd fds (modbus_tcp_pi_listen E c n)" for n
      using fd by (simp add: fd_laws_def)
    show ?thesis
      using TS_listen assms(3) yields_fdD [OF y]
      by (auto simp: tcp_slave_listen_def wp_simps wp_liftO fd_lawsD [OF fd] nat_less_iff)
  next
    case (TS_loop t)
    have t: "refset t \<subseteq> {..<FD_SETSIZE}" "fds w \<subseteq> F \<union> refset t"
      using assms(2,3) TS_loop by simp_all
    show ?thesis
      using t
      by (auto simp: TS_loop tcp_slave_loop_def wp_simps case_prod_unfold fd_lawsD [OF fd]
          intro!: wlp_mono [OF cleanup [OF t(1), of _ F]] wlp_mono [OF serve_sockets_accounts [OF fd t(1), of _ F]])
  qed (use assms(3) in \<open>simp add: wp_simps\<close>)
qed

lemma rtu_slave_accounts:
  assumes "reset_world E fds" "fds w \<subseteq> F"
  shows "wlp (startRtuSlaveThread E cfg p) (\<lambda>_ w'. fds w' \<subseteq> F) w"
proof (cases p)
  case RS_wait
  have fd: "fd_laws E fds" "serial_calls_keep E fds"
    using assms(1) by (simp_all add: reset_world_def)
  note keep = fd_lawsD [OF fd(1)] fd(2) [unfolded serial_calls_keep_def]
  show ?thesis
    using assms(2)
    by (auto simp: RS_wait rtu_slave_open_def rtu_slave_exit_def new_mapping_def wp_simps wp_liftO keep
        intro!: wlp_mono [OF wp_wlp [OF cleanup_rtu_slave_releases [OF assms(1), of _ F]]] split: option.splits)
next
  case (RS_loop m c)
  have "fd_laws E fds"
    using assms(1) by (simp add: reset_world_def)
  from wlp_mono [OF wlp_keeps [OF request_keeps_fds [OF this] refl]] assms(2) show ?thesis
    by (auto simp: RS_loop wp_simps case_prod_unfold)
qed (use assms(2) in \<open>simp add: wp_simps\<close>)

interpretation reset: releasing "step_slave_thread E" "cancelled_slave E" start_slave_thread slave_fits
    slave_thread_ended slave_sockets fds "reset_world E fds"
  for E :: "'w env" and fds
proof
  fix c
  show "slave_fits (start_slave_thread c)"
    by (simp add: start_slave_thread_def)
next
  fix c p F and w :: 'w
  assume W: "reset_world E fds" and p: "slave_fits p" "fds w \<subseteq> F \<union> slave_sockets p"
  show "wlp (step_slave_thread E c p) (\<lambda>p' w'. slave_fits p' \<and> fds w' \<subseteq> F \<union> slave_sockets p') w"
  proof (cases p)
    case (Tcp_slave q)
    from tcp_slave_accounts [OF W, of q w F c] p show ?thesis
      unfolding Tcp_slave step_slave_thread.simps wp_simps by simp
  next
    case (Rtu_slave q)
    from rtu_slave_accounts [OF W, of w F c q] p show ?thesis
      unfolding Rtu_slave step_slave_thread.simps wp_simps by simp
  qed
next
  fix p F and w :: 'w
  assume W: "reset_world E fds" and p: "slave_fits p" "fds w \<subseteq> F \<union> slave_sockets p"
  note tcp = cleanup_tcp_slave_releases [OF W, of _ w F] and rtu = cleanup_rtu_slave_releases [OF W, of w F]
  show "wp (cancelled_slave E p) (\<lambda>p' w'. slave_fits p' \<and> slave_thread_ended p' \<and> fds w' \<subseteq> F) w"
  proof (cases p)
    case (Tcp_slave q)
    then show ?thesis
      using p by (cases q) (auto simp: wp_simps intro!: wp_mono [OF tcp])
  next
    case (Rtu_slave q)
    then show ?thesis
      using p by (cases q) (auto simp: wp_simps intro!: wp_mono [OF rtu])
  qed
next
  fix p
  show "slave_thread_ended p \<Longrightarrow> slave_sockets p = {}"
    by (cases p rule: slave_thread_ended.cases) simp_all
qed

section \<open>Properties\<close>

text \<open>
  C15: A reset of the slave program leaks no socket. While its threads take their passes in any order, and
  whichever of them end or are cancelled meanwhile between two passes, every socket that is open and
  was not open at the start is in the set of a thread; cancelling a thread ends it; and when all of them have
  ended, every socket opened since the start is closed.
\<close>

theorem reset_closes_all_sockets:
  assumes "fd_laws E fds" "serial_calls_keep E fds" "releases_only E fds"
    and "cancellable_interleaving (step_slave_thread E) (cancelled_slave E)
      (map (\<lambda>cfg. (cfg, start_slave_thread cfg)) cfgs) w0 ts w"
  shows "fds w \<subseteq> fds w0 \<union> (\<Union>(cfg, p) \<in> set ts. slave_sockets p)
    \<and> (\<forall>(cfg, p) \<in> set ts. \<exists>p' w'. cancelled_slave E p w = (Ret p', w') \<and> slave_thread_ended p')
    \<and> ((\<forall>(cfg, p) \<in> set ts. slave_thread_ended p) \<longrightarrow> fds w \<subseteq> fds w0)"
proof -
  have law: "reset_world E fds"
    using assms(1-3) by (simp add: reset_world_def)
  have "(\<Union>i < length ts. slave_sockets (snd (ts ! i))) = (\<Union>(cfg, p) \<in> set ts. slave_sockets p)"
    by (simp add: case_prod_unfold set_conv_nth) blast
  then have "fds w \<subseteq> fds w0 \<union> (\<Union>(cfg, p) \<in> set ts. slave_sockets p)"
    using reset.accounts [OF law assms(4)] by (simp add: reset.accounted_def)
  then show ?thesis
    using reset.cancel_ends [OF law assms(4)] reset.all_released [OF law assms(4)] by blast
qed

lemma interleaving_cancellable:
  "interleaving step ts0 w0 ts w \<Longrightarrow> cancellable_interleaving step cancel ts0 w0 ts w"
  by (induction rule: interleaving.induct) (auto intro: cancellable_interleaving.intros)

lemma limited_reset_world: "reset_world limited_env (\<lambda>w. set (p_fds w))"
  using limited_world slave_worldD(1) [OF limited_world(1)]
  by (simp add: reset_world_def releases_only_def limited_env_def plant_env_def)

theorem reset_closes_all_sockets_witness:
  "\<exists>ts w. cancellable_interleaving (step_slave_thread limited_env) (cancelled_slave limited_env)
       (map (\<lambda>cfg. (cfg, start_slave_thread cfg)) two_slaves) plant0 ts w
     \<and> map (\<lambda>(cfg, p). slave_thread_ended p) ts = [True, True] \<and> p_fds w = []"
proof -
  let ?C = "cancellable_interleaving (step_slave_thread limited_env) (cancelled_slave limited_env)
    (map (\<lambda>cfg. (cfg, start_slave_thread cfg)) two_slaves) plant0"
  let ?ts = "[(two_slaves ! 0, serving 4), (two_slaves ! 1, serving 3)]"
  note W = limited_reset_world [unfolded reset_world_def]
  have run: "?C ?ts (plant0\<lparr>p_fds := [4, 3]\<rparr>)"
    by (rule interleaving_cancellable [OF two_slaves_run])
  obtain p w where p: "cancelled_slave limited_env (serving 4) (plant0\<lparr>p_fds := [4, 3]\<rparr>) = (Ret p, w)" "slave_thread_ended p"
    using reset.cancel_ends [OF limited_reset_world run, of "two_slaves ! 0" "serving 4"] by auto
  then have first: "?C [(two_slaves ! 0, p), (two_slaves ! 1, serving 3)] w"
    using cancellable_cancel [OF run, of 0] by simp
  obtain q v where q: "cancelled_slave limited_env (serving 3) w = (Ret q, v)" "slave_thread_ended q"
    using reset.cancel_ends [OF limited_reset_world first, of "two_slaves ! 1" "serving 3"] by auto
  then have second: "?C [(two_slaves ! 0, p), (two_slaves ! 1, q)] v"
    using cancellable_cancel [OF first, of 1] by simp
  have "set (p_fds v) \<subseteq> set (p_fds plant0)"
    using reset_closes_all_sockets [of limited_env "\<lambda>w. set (p_fds w)", OF _ _ _ second] W p(2) q(2) by simp
  then have "p_fds v = []"
    by (simp add: plant0_def)
  with second p(2) q(2) show ?thesis
    by (intro exI [of _ "[(two_slaves ! 0, p), (two_slaves ! 1, q)]"] exI [of _ v]) simp
qed

end
