(* ===== verification/Ready_Sockets.thy ===== *)
theory Ready_Sockets
  imports Slave_Interleaving
begin

text \<open>
  The loop of a TCP slave over all descriptors against its reference: each socket that \<^verbatim>\<open>select\<close> has
  reported is served once, in ascending order.
\<close>

section \<open>The reference\<close>

primrec serve_each :: "'w env \<Rightarrow> TModbusSlaveConfiguration \<Rightarrow> nat list \<Rightarrow> tcp_slave \<Rightarrow> ('w, tcp_slave) prog" where
  "serve_each E cfg [] t = ret t"
| "serve_each E cfg (fd # fds) t =
     bindM (if fd = server_socket t then accept_connection E t else serve_connection E cfg fd t)
       (serve_each E cfg fds)"

lemma wp_bind_cong: "wp m (\<lambda>x s'. f x s' = g x s') s \<Longrightarrow> bindM m f s = bindM m g s"
  by (auto simp: wp_iff run_simps)

lemma serve_sockets_each:
  assumes "slave_world E img fds"
  shows "tcp_slave_ok F0 (fds w) t \<Longrightarrow> R \<inter> set ds \<subseteq> refset t \<Longrightarrow> sorted ds \<Longrightarrow> distinct ds \<Longrightarrow>
     serve_sockets E cfg R ds t w = serve_each E cfg (filter (\<lambda>fd. fd \<in> R) ds) t w"
proof (induction ds arbitrary: t w)
  case Nil
  then show ?case by (simp add: tcp_slave_ok_def)
next
  case (Cons fd ds)
  show ?case
  proof (cases "fdmax t < fd")
    case True
    have "x \<notin> R" if x: "x \<in> set (fd # ds)" for x
    proof
      assume "x \<in> R"
      with x Cons.prems(2) have "x \<in> refset t" by blast
      then have "x \<le> fdmax t"
        using Cons.prems(1) by (simp add: tcp_slave_ok_def)
      moreover have "fd \<le> x"
        using x Cons.prems(3) by auto
      ultimately show False
        using True by simp
    qed
    then have "filter (\<lambda>fd. fd \<in> R) (fd # ds) = []"
      by (simp add: filter_empty_conv)
    with True show ?thesis by simp
  next
    case False
    have rest: "wp m (\<lambda>t' w'. serve_sockets E cfg R ds t' w' = serve_each E cfg (filter (\<lambda>fd. fd \<in> R) ds) t' w') w"
      if "wp m (\<lambda>t' w'. tcp_slave_ok F0 (fds w') t' \<and> refset t - {fd} \<subseteq> refset t') w" for m
      by (rule wp_mono [OF that]) (use Cons.prems(2-4) in \<open>auto intro!: Cons.IH\<close>)
    have "wp (accept_connection E t) (\<lambda>t' w'. tcp_slave_ok F0 (fds w') t' \<and> refset t - {fd} \<subseteq> refset t') w"
      by (rule wp_mono [OF accept_connection_safe [OF assms Cons.prems(1)]]) auto
    note accept = wp_bind_cong [OF rest [OF this]]
    show ?thesis
    proof (cases "fd \<in> R \<and> fd \<noteq> server_socket t")
      case True
      then have "fd \<in> refset t"
        using Cons.prems(2) by auto
      from wp_bind_cong [OF rest [OF serve_connection_safe [OF assms Cons.prems(1) this]]] True False show ?thesis
        by simp
    next
      case False
      then show ?thesis
        using accept Cons.IH [OF Cons.prems(1)] Cons.prems(2-4) \<open>\<not> fdmax t < fd\<close> by auto
    qed
  qed
qed

section \<open>Properties\<close>

text \<open>
  C19: A pass of a TCP slave whose \<^verbatim>\<open>select\<close> succeeds does exactly this: it goes through the sockets
  that \<^verbatim>\<open>select\<close> has reported in ascending order and, once for each, accepts a connection on the
  listening socket or receives and answers a request on a connection. The loop's bound, which \<^verbatim>\<open>accept\<close>
  raises and a closed connection lowers while the loop runs, cuts none of them off.
\<close>

theorem ready_sockets_served_once:
  assumes "slave_world E img fds" "tcp_slave_ok F0 (fds w) t"
    and "select_read E (fdmax t + 1) (refset t) w = ((rc, R), w')" "rc \<noteq> -1"
  shows "startTcpSlaveThread E cfg (TS_loop t) w
     = bindM (serve_each E cfg (sorted_list_of_set R) t) (\<lambda>t. ret (TS_loop t)) w'"
proof -
  note fd = slave_worldD(1) [OF assms(1)]
  have R: "R \<subseteq> refset t" "fds w' = fds w"
    using fd_lawsD(2,3) [OF fd, of "fdmax t + 1" "refset t" w] assms(3) by simp_all
  have "fd < FD_SETSIZE" if "fd \<in> R" for fd
    using that R(1) assms(2) by (auto simp: tcp_slave_ok_def dest!: subsetD)
  then have "set (filter (\<lambda>fd. fd \<in> R) [0..<FD_SETSIZE]) = R"
    by auto
  moreover from this have "finite R"
    by (metis List.finite_set)
  ultimately have sorted: "filter (\<lambda>fd. fd \<in> R) [0..<FD_SETSIZE] = sorted_list_of_set R"
    by (intro sorted_distinct_set_unique) (simp_all add: sorted_wrt_filter)
  have "serve_sockets E cfg R [0..<FD_SETSIZE] t w' = serve_each E cfg (sorted_list_of_set R) t w'"
    using serve_sockets_each [OF assms(1), of F0 w' t R "[0..<FD_SETSIZE]" cfg] R assms(2) by (auto simp: sorted)
  then show ?thesis
    using assms(3,4) by (simp add: tcp_slave_loop_def run_simps)
qed

theorem ready_sockets_served_once_witness:
  "startTcpSlaveThread limited_env (demo_slave 40 20)
       (TS_loop \<lparr>mbMapping = demo_mapping [7, 8], mb_slave = 0, server_socket = 3, refset = {3, 5}, fdmax = 5\<rparr>)
       (plant0\<lparr>p_fds := [3, 5]\<rparr>)
   = bindM (serve_each limited_env (demo_slave 40 20) [3, 5]
         \<lparr>mbMapping = demo_mapping [7, 8], mb_slave = 0, server_socket = 3, refset = {3, 5}, fdmax = 5\<rparr>)
       (\<lambda>t. ret (TS_loop t)) (plant0\<lparr>p_fds := [3, 5]\<rparr>)"
proof -
  let ?t = "\<lparr>mbMapping = demo_mapping [7, 8], mb_slave = 0, server_socket = 3, refset = {3, 5}, fdmax = 5\<rparr>"
  have "tcp_slave_ok {} (set (p_fds (plant0\<lparr>p_fds := [3, 5]\<rparr>))) ?t"
    by (simp add: tcp_slave_ok_def demo_mapping_def mapping_ok_def FD_SETSIZE_def insert_commute)
  from ready_sockets_served_once [OF limited_world(1) this] show ?thesis
    by (simp add: limited_env_def plant_env_def)
qed

end
