(* ===== verification/Slave_Areas.thy ===== *)
theory Slave_Areas
  imports Slave_Interleaving Master_Interleaving
begin

text \<open>
  What the slave program may change in the process image: each slave writes to the area that the parser
  has computed for it, and the threads together to nothing else.
\<close>

section \<open>The area of a slave\<close>

definition output_area :: "TModbusSlaveConfiguration \<Rightarrow> nat set" where
  "output_area cfg = {unat (u32HoldingRegistersInputOffset (tProcessImageConfig cfg))
     ..< unat (u32HoldingRegistersInputOffset (tProcessImageConfig cfg))
         + unat (u32HoldingRegistersLength (tProcessImageConfig cfg))}"

text \<open>A mapping as the thread allocates it for the configuration: no coils, and the registers of the area.\<close>

definition own_mapping :: "TModbusSlaveConfiguration \<Rightarrow> modbus_mapping_t \<Rightarrow> bool" where
  "own_mapping cfg m \<longleftrightarrow> mapping_ok m \<and> length (tab_bits m) = unat (u16Coils (tModbusDataConfig cfg))
     \<and> length (tab_registers m) = unat (u16HoldingRegisters (tModbusDataConfig cfg))"

lemma own_mapping_area:
  assumes "slave_in_range J cfg" "own_mapping cfg m"
  shows "tab_bits m = []" "2 * length (tab_registers m) \<le> unat (u32HoldingRegistersLength (tProcessImageConfig cfg))"
proof -
  let ?n = "u32HoldingRegistersLength (tProcessImageConfig cfg)"
  have "unat (ucast (?n div 2) :: u16) \<le> unat (?n div 2)"
    by (simp add: unsigned_ucast_eq take_bit_nat_less_eq_self)
  moreover have "length (tab_registers m) = unat (ucast (?n div 2) :: u16)"
    using assms by (simp add: slave_in_range_def own_mapping_def)
  ultimately show "2 * length (tab_registers m) \<le> unat ?n"
    by (simp add: unat_div)
  show "tab_bits m = []"
    using assms by (simp add: slave_in_range_def own_mapping_def)
qed

lemma write_contained:
  assumes "image_world E img" "slave_in_range J cfg" "own_mapping cfg m" "a \<notin> output_area cfg"
  shows "wlp (writeModbusDataToProcessImage E m (tProcessImageConfig cfg)) (\<lambda>_ w'. img w' a = img w a) w"
proof -
  let ?off = "unat (u32HoldingRegistersInputOffset (tProcessImageConfig cfg))"
  note area = own_mapping_area [OF assms(2,3)]
  have m: "mapping_ok m"
    using assms(3) by (simp add: own_mapping_def)
  have "a < ?off \<or> ?off + length (take (2 * length (tab_registers m)) d) \<le> a" if "length d \<le> 2 * length (tab_registers m)" for d :: "u8 list"
    using assms(4) area(2) that by (auto simp: output_area_def)
  then have "patch_image im ?off (take (2 * length (tab_registers m)) d) a = im a"
    if "length d \<le> 2 * length (tab_registers m)" for im d
    using that by (intro patch_image_outside)
  then show ?thesis
    using area(1)
    by (auto simp: writeModbusDataToProcessImage_def wp_simps mapping_lengths [OF m] image_world_access(1) [OF assms(1)])
qed

lemma read_keeps_outputs:
  assumes "image_world E img" "own_mapping cfg m"
  shows "wlp (readModbusDataFromProcessImage E m offs) (\<lambda>(_, m') w'. own_mapping cfg m' \<and> img w' = img w) w"
proof -
  have m: "mapping_ok m"
    using assms(2) by (simp add: own_mapping_def)
  have "wlp (readModbusDataFromProcessImage E m offs) (\<lambda>(_, m') w'. tab_bits m' = tab_bits m
      \<and> tab_registers m' = tab_registers m \<and> img w' = img w) w"
    by (auto simp: readModbusDataFromProcessImage_def wp_simps wp_liftO case_prod_unfold image_world_access(2) [OF assms(1)])
  from wlp_mono [OF wlp_conj [OF this wp_wlp [OF readModbusData_returns [OF m assms(1), of offs w]]]] show ?thesis
    using assms(2) by (force simp: own_mapping_def)
qed

lemma request_contained:
  assumes "slave_laws E img" "image_world E img" "slave_in_range J cfg" "own_mapping cfg m" "a \<notin> output_area cfg"
  shows "wlp (process_modbus_request E c m cfg) (\<lambda>(_, m') w'. own_mapping cfg m' \<and> img w' a = img w a) w"
proof -
  note laws = slave_lawsD [OF assms(1)]
  have reply: "own_mapping cfg (snd (fst (modbus_reply E c req len m' v)))" if "own_mapping cfg m'" for req len m' v
    using that laws(7-9) by (simp add: own_mapping_def)
  have wr: "wlp (writeModbusDataToProcessImage E m' (tProcessImageConfig cfg)) (\<lambda>_ w'. img w' a = img w a) v"
    if "own_mapping cfg m'" "img v a = img w a" for m' v
    using write_contained [OF assms(2,3) that(1) assms(5), of v] that(2) by simp
  have rd: "wlp (readModbusDataFromProcessImage E m offs) (\<lambda>r w'. own_mapping cfg (snd r) \<and> img w' a = img w a) v"
    if "img v = img w" for offs v
    using read_keeps_outputs [OF assms(2,4), of offs v] that by (auto simp: case_prod_unfold elim!: wlp_mono)
  show ?thesis
    using assms(4) unfolding process_modbus_request_def
    by (auto simp: Let_def wp_simps case_prod_unfold laws(1,5,6) reply intro!: wlp_mono [OF rd] wlp_mono [OF wr])
qed

section \<open>The passes of the threads\<close>

text \<open>The calls of a slave that are no access to the process image leave a view of the world alone.\<close>

definition socket_calls_keep :: "'w env \<Rightarrow> ('w \<Rightarrow> 'v) \<Rightarrow> bool" where
  "socket_calls_keep E f \<longleftrightarrow>
     (\<forall>s w. f (snd (accept_fd E s w)) = f w) \<and> (\<forall>c n w. f (snd (modbus_tcp_pi_listen E c n w)) = f w)
   \<and> (\<forall>s w. f (snd (close_fd E s w)) = f w) \<and> (\<forall>n A w. f (snd (select_read E n A w)) = f w)
   \<and> (\<forall>c s w. f (snd (modbus_set_socket E c s w)) = f w)
   \<and> (\<forall>a b c d w. f (snd (modbus_mapping_new E a b c d w)) = f w)
   \<and> (\<forall>ip port w. f (snd (modbus_new_tcp_pi E ip port w)) = f w)
   \<and> (\<forall>c w. f (snd (modbus_close E c w)) = f w) \<and> (\<forall>c w. f (snd (modbus_free E c w)) = f w)"

definition area_world :: "'w env \<Rightarrow> ('w \<Rightarrow> image) \<Rightarrow> bool" where
  "area_world E img \<longleftrightarrow> slave_laws E img \<and> image_world E img \<and> new_mapping_laws E
     \<and> socket_calls_keep E img \<and> serial_calls_keep E img"

lemma area_worldD:
  assumes "area_world E img"
  shows "slave_laws E img" "image_world E img" "new_mapping_laws E" "socket_calls_keep E img" "serial_calls_keep E img"
  using assms by (simp_all add: area_world_def)

lemma area_world_frame:
  assumes "area_world E img"
  shows "img (snd (accept_fd E s w)) = img w" "img (snd (modbus_tcp_pi_listen E c n w)) = img w"
    and "img (snd (close_fd E s w)) = img w" "img (snd (select_read E n' A w)) = img w"
    and "img (snd (modbus_set_socket E c k w)) = img w" "img (snd (modbus_mapping_new E i j x y w)) = img w"
    and "img (snd (modbus_new_tcp_pi E ip port w)) = img w" "img (snd (modbus_close E c w)) = img w"
    and "img (snd (modbus_free E c w)) = img w" "img (snd (access_rw E path w)) = img w"
    and "img (snd (modbus_new_rtu E path baud parity data stop w)) = img w"
    and "img (snd (modbus_set_slave E c adr w)) = img w" "img (snd (modbus_connect E c w)) = img w"
    and "img (snd (sleep_for E t w)) = img w"
  using area_worldD [OF assms] unfolding socket_calls_keep_def serial_calls_keep_def image_world_def clock_keeps_def
  by simp_all

fun slave_owns :: "TModbusSlaveConfiguration \<Rightarrow> slave_thread \<Rightarrow> bool" where
  "slave_owns cfg (Tcp_slave (TS_listen m c)) \<longleftrightarrow> own_mapping cfg m"
| "slave_owns cfg (Tcp_slave (TS_loop t)) \<longleftrightarrow> own_mapping cfg (mbMapping t)"
| "slave_owns cfg (Rtu_slave (RS_loop m c)) \<longleftrightarrow> own_mapping cfg m"
| "slave_owns cfg _ \<longleftrightarrow> True"

lemma new_mapping_own:
  assumes "area_world E img"
  shows "wlp (new_mapping E cfg) (\<lambda>r w'. img w' = img w \<and> (\<forall>m. r = Some m \<longrightarrow> own_mapping cfg m)) w"
proof -
  have "own_mapping cfg m" if "fst (modbus_mapping_new E (uint (u16Coils (tModbusDataConfig cfg)))
      (uint (u16DiscreteInputs (tModbusDataConfig cfg))) (uint (u16HoldingRegisters (tModbusDataConfig cfg)))
      (uint (u16InputRegisters (tModbusDataConfig cfg))) w) = Some m" for m
    using area_worldD(3) [OF assms, unfolded new_mapping_laws_def, rule_format, of "tModbusDataConfig cfg" w] that
    by (simp add: own_mapping_def)
  then show ?thesis
    by (simp add: new_mapping_def wp_simps area_world_frame [OF assms])
qed

lemma release_keeps_image:
  assumes "area_world E img"
  shows "img w = im \<Longrightarrow> wlp (release_context E ctx) (\<lambda>_ w'. img w' = im) w"
    and "img w = im \<Longrightarrow> wlp (close_fds E A ds) (\<lambda>_ w'. img w' = im) w"
proof -
  show "img w = im \<Longrightarrow> wlp (release_context E ctx) (\<lambda>_ w'. img w' = im) w"
    by (simp add: release_context_def wp_simps area_world_frame [OF assms] split: option.splits)
  show "img w = im \<Longrightarrow> wlp (close_fds E A ds) (\<lambda>_ w'. img w' = im) w"
  proof (induction ds arbitrary: w)
    case (Cons d ds)
    then show ?case
      by (auto simp: wp_simps area_world_frame [OF assms] intro!: wlp_mono [OF Cons.IH])
  qed (simp add: wp_simps)
qed

lemma cleanup_keeps_image:
  assumes "area_world E img" "img w = im"
  shows "wlp (cleanupTcpSlaveThread E m ctx A) (\<lambda>_ w'. img w' = im) w"
    and "wlp (cleanupRtuSlaveThread E m ctx) (\<lambda>_ w'. img w' = im) w"
  using assms(2)
  by (auto simp: cleanupTcpSlaveThread_def cleanupRtuSlaveThread_def wp_simps
      intro!: wlp_mono [OF release_keeps_image(1) [OF assms(1)]] wlp_mono [OF release_keeps_image(2) [OF assms(1)]])

lemma serve_sockets_contained:
  assumes "area_world E img" "slave_in_range J cfg" "a \<notin> output_area cfg"
  shows "own_mapping cfg (mbMapping t) \<Longrightarrow>
    wlp (serve_sockets E cfg R ds t) (\<lambda>t' w'. own_mapping cfg (mbMapping t') \<and> img w' a = img w a) w"
proof (induction ds arbitrary: t w)
  case (Cons fd ds)
  note frame = area_world_frame [OF assms(1)]
  have accept: "wlp (accept_connection E t) (\<lambda>t' w'. own_mapping cfg (mbMapping t') \<and> img w' a = img w a) w"
    using Cons.prems by (auto simp: accept_connection_def wp_simps frame)
  have serve: "wlp (serve_connection E cfg fd t) (\<lambda>t' w'. own_mapping cfg (mbMapping t') \<and> img w' a = img w a) w"
    by (auto simp: serve_connection_def wp_simps frame case_prod_unfold
        intro!: wlp_mono [OF request_contained [OF area_worldD(1,2) [OF assms(1)] assms(2) Cons.prems assms(3)]])
  have rest: "wlp (serve_sockets E cfg R ds t') (\<lambda>t' w'. own_mapping cfg (mbMapping t') \<and> img w' a = img w a) v"
    if "own_mapping cfg (mbMapping t') \<and> img v a = img w a" for t' v
    using Cons.IH [of t' v] that by auto
  show ?case
    using Cons.prems by (auto simp: wp_simps rest intro!: wlp_mono [OF accept rest] wlp_mono [OF serve rest])
qed (simp add: wp_simps)

lemma slave_step_contained:
  assumes "area_world E img" "slave_in_range J cfg" "a \<notin> output_area cfg" "slave_owns cfg p"
  shows "wlp (step_slave_thread E cfg p) (\<lambda>p' w'. slave_owns cfg p' \<and> img w' a = img w a) w"
proof -
  note frame = area_world_frame [OF assms(1)]
  note cleanup = cleanup_keeps_image [OF assms(1)]
  note fresh = wlp_mono [OF new_mapping_own [OF assms(1)]]
  show ?thesis
  proof (cases p)
    case (Tcp_slave q)
    show ?thesis
    proof (cases q)
      case TS_start
      then show ?thesis
        by (auto simp: Tcp_slave tcp_slave_start_def wp_simps wp_liftO frame
            intro!: fresh wlp_mono [OF cleanup(1) [of _ "img w"]] split: option.splits)
    next
      case (TS_listen m c)
      then show ?thesis
        using assms(4) by (auto simp: Tcp_slave tcp_slave_listen_def wp_simps wp_liftO frame)
    next
      case (TS_loop t)
      then have t: "own_mapping cfg (mbMapping t)"
        using assms(4) by (simp add: Tcp_slave)
      show ?thesis
        by (auto simp: Tcp_slave TS_loop tcp_slave_loop_def wp_simps case_prod_unfold frame
            intro!: wlp_mono [OF cleanup(1) [of _ "img w"]] wlp_mono [OF serve_sockets_contained [OF assms(1-3) t]])
    qed (simp add: Tcp_slave wp_simps)
  next
    case (Rtu_slave q)
    show ?thesis
    proof (cases q)
      case RS_wait
      then show ?thesis
        by (auto simp: Rtu_slave rtu_slave_open_def rtu_slave_exit_def wp_simps wp_liftO frame
            intro!: fresh wlp_mono [OF cleanup(2) [of _ "img w"]] split: option.splits)
    next
      case (RS_loop m c)
      then have m: "own_mapping cfg m"
        using assms(4) by (simp add: Rtu_slave)
      show ?thesis
        by (auto simp: Rtu_slave RS_loop wp_simps case_prod_unfold
            intro!: wlp_mono [OF request_contained [OF area_worldD(1,2) [OF assms(1)] assms(2) m assms(3)]])
    qed (simp add: Rtu_slave wp_simps)
  qed
qed

section \<open>Properties\<close>

text \<open>
  C10: The slave program changes the process image only where its configuration tells it to. It has parsed
  its configuration and waits for an event, and the threads it starts take their steps in any order, some of
  them to their end: a byte of the image that is in none of the areas that the parser has computed for
  the slaves keeps its value, whatever the clients request and whichever accesses fail.
\<close>

theorem slaves_write_own_areas:
  assumes "thread_laws P running" "threads_kept E F running" "slave_laws E img" "image_world E img" "new_mapping_laws E"
    and "socket_calls_keep E img" "serial_calls_keep E img"
    and "thread_reach (piModbusSlave E F J P) (Slave_parse []) w0 (Slave_wait m) w"
    and "interleaving (step_slave_thread E) (map (\<lambda>cfg. (cfg, start_slave_thread cfg)) (slaveConfHead m)) v0 ts v"
    and "\<forall>cfg \<in> set (slaveConfHead m).
           a < unat (u32HoldingRegistersInputOffset (tProcessImageConfig cfg))
         \<or> unat (u32HoldingRegistersInputOffset (tProcessImageConfig cfg))
             + unat (u32HoldingRegistersLength (tProcessImageConfig cfg)) \<le> a"
  shows "img v a = img v0 a"
proof -
  have law: "area_world E img"
    using assms(3-7) by (simp add: area_world_def)
  have range: "\<forall>cfg \<in> set (slaveConfHead m). slave_in_range J cfg"
    using slave_main_inv [OF assms(1,2,8)] by (simp add: slave_main_ok_def)
  have "\<forall>cfg \<in> set (slaveConfHead m). a \<notin> output_area cfg"
    using assms(10) by (auto simp: output_area_def)
  then have step: "wlp (step_slave_thread E cfg p) (\<lambda>p' v'. slave_owns cfg p' \<and> img v' a = img v0 a) v"
    if "cfg \<in> fst ` set (map (\<lambda>cfg. (cfg, start_slave_thread cfg)) (slaveConfHead m))" "slave_owns cfg p" "img v a = img v0 a" for cfg p v
    using slave_step_contained [OF law, of J cfg a p v] range that by auto
  have "slave_owns cfg (start_slave_thread cfg)" for cfg
    by (simp add: start_slave_thread_def)
  with interleaving_inv [OF assms(9), of slave_owns "\<lambda>v. img v a = img v0 a", OF _ refl step] show ?thesis
    by auto
qed

text \<open>The slave of the demonstration document, with a client that changes its first holding register.\<close>

definition changing_cluster :: "TModbusSlaveConfiguration cluster" where
  "changing_cluster = cluster0\<lparr>p_request := [0, 0, 0, 0, 0, 0, 0, 6]\<rparr>"

lemma rich_area_world: "area_world (rich_env :: 'a plant_scheme env) p_image"
proof -
  have "mapping_ok m \<Longrightarrow> mapping_ok (m\<lparr>tab_registers := map ((+) 1) (tab_registers m)\<rparr>)" for m
    by (simp add: mapping_ok_def)
  then have "slave_laws (rich_env :: 'a plant_scheme env) p_image"
    by (auto simp: slave_laws_def rich_env_def plant_env_def writing_code_def request_code_def)
  moreover have "unat (x :: u16) < 65536" for x
    using unsigned_less [of x, where 'a = nat] by simp
  then have "new_mapping_laws (rich_env :: 'a plant_scheme env)"
    by (simp add: new_mapping_laws_def rich_env_def plant_env_def mapping_ok_def)
  moreover have "socket_calls_keep (rich_env :: 'a plant_scheme env) p_image" "serial_calls_keep (rich_env :: 'a plant_scheme env) p_image"
    by (simp_all add: socket_calls_keep_def serial_calls_keep_def rich_env_def plant_env_def)
  ultimately show ?thesis
    using rich_masters(1) [where 'a = 'a] by (simp add: area_world_def master_world_def)
qed

lemma changing_run:
  assumes "slave_of (doc_jsonc demo_document) demo_slave_device = Ret (Some c)"
  shows "\<exists>ts v. interleaving (step_slave_thread rich_env) [(c, start_slave_thread c)] changing_cluster ts v
     \<and> p_image v 11 = 1"
proof -
  let ?c = "\<lparr>slaveDeviceConfig = device_configuration eProtRTU (tRtuConfig \<lparr>i32uBaud = 19200, cParity = CHR ''E'',
      i8uDatabits = 8, i8uStopbits = 1, u8DeviceModbusAddress = 17, sz8DeviceFilePath = ''/dev/ttyRS485''\<rparr>),
    tModbusDataConfig = \<lparr>u16DiscreteInputs = 0, u16Coils = 0, u16InputRegisters = 2, u16HoldingRegisters = 2\<rparr>,
    tProcessImageConfig = \<lparr>u32DiscreteInputsOffset = 0, u32DiscreteInputsLength = 0, u32CoilsInputOffset = 0,
      u32CoilsLength = 0, u32InputRegistersOffset = 15, u32InputRegistersLength = 4,
      u32HoldingRegistersInputOffset = 11, u32HoldingRegistersLength = 4\<rparr>\<rparr>"
  let ?step = "step_slave_thread rich_env c"
  have c: "c = ?c" "start_slave_thread c = Rtu_slave RS_wait"
    using assms by (auto simp: demo_slave_of start_slave_thread_def slave_routine_def device_configuration_def)
  have up: "p_up (cluster0 :: TModbusSlaveConfiguration cluster)"
    by (simp add: cluster0_def plant.extend_def plant0_def)
  have "regs_bytes (replicate 2 1) ! 0 = (1 :: u8)"
    by (simp add: numeral_2_eq_2 u16_bytes_def)
  then have patched: "patch_image im 11 (regs_bytes (replicate 2 1)) 11 = 1" for im
    using patch_image_inside [of 0 "regs_bytes (replicate 2 1)" im 11] by (simp add: numeral_2_eq_2 u16_bytes_def)
  have "wp (?step (Rtu_slave RS_wait)) (\<lambda>q w. wp (?step q) (\<lambda>_ v. p_image v 11 = 1) w) changing_cluster"
    unfolding c(1)
    by (simp add: wp_simps device_configuration_def rtu_config_def rtu_slave_open_def new_mapping_def
        process_modbus_request_def writing_code_def reading_code_def request_code_def changing_cluster_def Let_def
        writeModbusDataToProcessImage_def registers_length_def rich_env_def plant_env_def up patched)
  then show ?thesis
    unfolding c(2) by (rule interleaving_two)
qed

theorem slaves_write_own_areas_witness:
  "\<exists>m w ts v. thread_reach (piModbusSlave rich_env demo_stdio (doc_jsonc demo_document) cluster_threads) (Slave_parse []) cluster0
       (Slave_wait m) w
     \<and> interleaving (step_slave_thread rich_env) (map (\<lambda>cfg. (cfg, start_slave_thread cfg)) (slaveConfHead m)) changing_cluster ts v
     \<and> p_image v 11 = 1 \<and> (\<forall>a. a < 11 \<or> 15 \<le> a \<longrightarrow> p_image v a = p_image changing_cluster a)"
proof -
  obtain m w c where main: "thread_reach (piModbusSlave rich_env demo_stdio (doc_jsonc demo_document) cluster_threads)
      (Slave_parse []) cluster0 (Slave_wait m) w" "slaveConfHead m = [c]"
    and c: "slave_of (doc_jsonc demo_document) demo_slave_device = Ret (Some c)"
    using demo_slave_main by blast
  obtain ts v where run: "interleaving (step_slave_thread rich_env) (map (\<lambda>cfg. (cfg, start_slave_thread cfg)) (slaveConfHead m))
      changing_cluster ts v" "p_image v 11 = 1"
    using changing_run [OF c] main(2) by auto
  have "unat (u32HoldingRegistersInputOffset (tProcessImageConfig c)) = 11"
    "unat (u32HoldingRegistersLength (tProcessImageConfig c)) = 4"
    using c by (auto simp: demo_slave_of)
  with slaves_write_own_areas [OF cluster_thread_laws cluster_threads_kept area_worldD [OF rich_area_world] main(1) run(1)]
  have "p_image v a = p_image changing_cluster a" if "a < 11 \<or> 15 \<le> a" for a
    using that main(2) by simp
  with main(1) run show ?thesis
    by blast
qed

end
