(* ===== verification/Master_Areas.thy ===== *)
theory Master_Areas
  imports Master_Interleaving
begin

text \<open>
  What the master program may change in the process image: the places of the data that its actions read
  from the devices, and the status and reset bytes of its actions and devices.
\<close>

section \<open>The places of an action and of a master\<close>

text \<open>
  The bytes that reading actions fill, and none for those that write to the device. The address of a bit, and with
  it that of a reset bit, has 16 bits only.
\<close>

fun data_places :: "EModbusFunction \<Rightarrow> TModbusAction \<Rightarrow> nat set" where
  "data_places eREAD_COILS act = coil_byte act ` {..<unat (i16uRegisterCount act)}"
| "data_places eREAD_DISCRETE_INPUTS act = coil_byte act ` {..<unat (i16uRegisterCount act)}"
| "data_places eREAD_HOLDING_REGISTERS act = {unat (i32uStartByteProcessData act)
     ..< unat (i32uStartByteProcessData act) + 2 * unat (i16uRegisterCount act)}"
| "data_places eREAD_INPUT_REGISTERS act = {unat (i32uStartByteProcessData act)
     ..< unat (i32uStartByteProcessData act) + 2 * unat (i16uRegisterCount act)}"
| "data_places eREPORT_SLAVE_ID act = {unat (i32uStartByteProcessData act)
     ..< unat (i32uStartByteProcessData act) + unat (i16uRegisterCount act)}"
| "data_places _ act = {}"

definition status_places :: "u32 \<Rightarrow> u32 \<Rightarrow> nat set" where
  "status_places status_byte reset_byte = {unat status_byte, unat (ucast reset_byte :: u16)}"

definition action_places :: "TModbusAction \<Rightarrow> nat set" where
  "action_places act = data_places (eFunctionCode act) act
     \<union> status_places (i32uStatusByteProcessImageOffset act) (i32uResetStatusProcessImageByteOffset act)"

definition master_places :: "TModbusMasterConfiguration \<Rightarrow> nat set" where
  "master_places cfg = (\<Union>act \<in> set (mbActionListHead cfg). action_places act)
     \<union> status_places (i32uDeviceStatusByteProcessImageOffset (masterDeviceConfig cfg))
         (i32uDeviceStatusResetByteProcessImageByteOffset (masterDeviceConfig cfg))"

section \<open>What an action leaves alone\<close>

lemma outside_write:
  assumes "image_world E img" "a < unat off \<or> unat off + unat len \<le> a"
  shows "keeps (\<lambda>w. img w a = x) (ext (piControlWrite E off len d))"
proof -
  have "patch_image im (unat off) (take (unat len) d) a = im a" for im
    using assms(2) by (intro patch_image_outside) auto
  then show ?thesis
    by (auto intro!: keeps_ext simp: image_world_access(1) [OF assms(1)])
qed

lemma outside_set_bit:
  "image_world E img \<Longrightarrow> unat (i16uAddress v) \<noteq> a \<Longrightarrow> keeps (\<lambda>w. img w a = x) (ext (piControlSetBitValue E v))"
  by (auto intro!: keeps_ext simp: image_world_access(5) patch_value_outside)

lemma outside_calls:
  assumes "image_world E img"
  shows "keeps (\<lambda>w. img w a = x) (ext (modbus_read_bits E c adr n))" "keeps (\<lambda>w. img w a = x) (ext (modbus_read_input_bits E c adr n))"
    and "keeps (\<lambda>w. img w a = x) (ext (modbus_read_registers E c adr n))"
    and "keeps (\<lambda>w. img w a = x) (ext (modbus_read_input_registers E c adr n))"
    and "keeps (\<lambda>w. img w a = x) (ext (modbus_write_bit E c adr n))" "keeps (\<lambda>w. img w a = x) (ext (modbus_write_register E c adr n))"
    and "keeps (\<lambda>w. img w a = x) (ext (modbus_write_bits E c adr n bs))"
    and "keeps (\<lambda>w. img w a = x) (ext (modbus_write_registers E c adr n rs))"
    and "keeps (\<lambda>w. img w a = x) (ext (modbus_report_slave_id E c k))"
    and "keeps (\<lambda>w. img w a = x) (ext (sleep_for E t))" "keeps (\<lambda>w. img w a = x) (ext (sleep_until E t))"
    and "keeps (\<lambda>w. img w a = x) (ext (clock_gettime E))"
    and "keeps (\<lambda>w. img w a = x) (ext (mutex_lock E))" "keeps (\<lambda>w. img w a = x) (ext (mutex_unlock E))"
    and "keeps (\<lambda>w. img w a = x) (ext (piControlRead E off len))" "keeps (\<lambda>w. img w a = x) (ext (piControlGetBitValue E v))"
  using image_world_access(2,6) [OF assms] assms
  unfolding image_world_def requests_keep_def clock_keeps_def mutex_keeps_def
  by (auto intro!: keeps_ext)

lemma set_coils_outside:
  assumes "image_world E img" "\<forall>i \<in> set is. coil_byte act i \<noteq> a"
  shows "keeps (\<lambda>w. img w a = x) (set_coils E act buffer is s)"
  using assms(2)
  by (induction "is" arbitrary: s) (auto intro!: keeps_intros outside_set_bit [OF assms(1)] simp: coil_data_fields)

lemma get_coils_outside:
  assumes "image_world E img"
  shows "keeps (\<lambda>w. img w a = x) (get_coils E act is s buffer)"
  by (induction "is" arbitrary: s buffer) (auto intro!: keeps_bind keeps_prims outside_calls [OF assms])

lemma process_function_outside:
  assumes "image_world E img" "a \<notin> data_places f act"
  shows "keeps (\<lambda>w. img w a = x) (process_function E ctx f act buffer)"
proof -
  note calls = keeps_bind keeps_prims keeps_if outside_calls [OF assms(1)] get_coils_outside [OF assms(1)]
  have coils: "keeps (\<lambda>w. img w a = x) (set_coils E act buffer [0..<unat (i16uRegisterCount act)] s)"
    if "a \<notin> coil_byte act ` {..<unat (i16uRegisterCount act)}" for buffer s
    using that by (intro set_coils_outside [OF assms(1)]) auto
  show ?thesis
  proof (cases f)
    case eREAD_COILS
    then show ?thesis
      using assms(2) by (auto simp: read_bits_case_def case_prod_unfold intro!: calls coils)
  next
    case eREAD_DISCRETE_INPUTS
    then show ?thesis
      using assms(2) by (auto simp: read_bits_case_def case_prod_unfold intro!: calls coils)
  next
    case eREAD_HOLDING_REGISTERS
    then show ?thesis
      using assms(2) by (auto simp: read_registers_case_def case_prod_unfold register_bytes_unat
          intro!: calls outside_write [OF assms(1)])
  next
    case eREAD_INPUT_REGISTERS
    then show ?thesis
      using assms(2) by (auto simp: read_registers_case_def case_prod_unfold register_bytes_unat
          intro!: calls outside_write [OF assms(1)])
  next
    case eREPORT_SLAVE_ID
    have "unat (ucast (n :: u16) :: u32) = unat n" for n
      using unsigned_less [of n, where 'a = nat] by (simp add: unsigned_ucast_eq take_bit_nat_eq_self)
    with eREPORT_SLAVE_ID show ?thesis
      using assms(2) by (auto simp: report_slave_id_case_def case_prod_unfold
          intro!: calls outside_write [OF assms(1)])
  qed (auto simp: write_single_register_case_def write_single_coil_case_def write_multiple_coils_case_def
      write_multiple_registers_case_def case_prod_unfold intro!: calls)
qed

lemma outside_status:
  assumes "image_world E img" "a \<notin> status_places status_byte reset_byte"
  shows "keeps (\<lambda>w. img w a = x) (writeErrorMessage E status_byte e)"
    and "keeps (\<lambda>w. img w a = x) (reset_modbus_action_status E reset_byte reset_bit status_byte)"
proof -
  have a: "a < unat status_byte \<or> unat status_byte + unat (1 :: u32) \<le> a" "unat (ucast reset_byte :: u16) \<noteq> a"
    using assms(2) by (auto simp: status_places_def)
  note wr = outside_write [OF assms(1) a(1)]
  show "keeps (\<lambda>w. img w a = x) (writeErrorMessage E status_byte e)"
    unfolding writeErrorMessage_def by (rule wr)
  have "patch_image im (unat status_byte) (take (unat (1 :: u32)) d) a = im a" for im d
    using a(1) by (intro patch_image_outside) auto
  then have 1: "img (snd (piControlWrite E status_byte 1 d w)) a = img w a" for d w
    by (simp add: image_world_access(1) [OF assms(1)])
  have "wp (reset_modbus_action_status E reset_byte reset_bit status_byte) (\<lambda>_ w'. img w' a = img w a) w" for w
    using a(2) by (auto simp: reset_modbus_action_status_def wp_simps case_prod_unfold 1 patch_value_outside
        image_world_access(5-7) [OF assms(1)])
  then show "keeps (\<lambda>w. img w a = x) (reset_modbus_action_status E reset_byte reset_bit status_byte)"
    unfolding keeps_def wp_iff by (metis snd_conv)
qed

lemma processModbusAction_outside:
  assumes "image_world E img" "a \<notin> action_places (eventModbusAction ev)"
  shows "keeps (\<lambda>w. img w a = x) (processModbusAction E ctx ev buffer)"
proof -
  let ?act = "eventModbusAction ev"
  have a: "a \<notin> data_places (eFunctionCode ?act) ?act"
    "a \<notin> status_places (i32uStatusByteProcessImageOffset ?act) (i32uResetStatusProcessImageByteOffset ?act)"
    using assms(2) by (simp_all add: action_places_def)
  show ?thesis
    unfolding processModbusAction_def Let_def report_outcome_def
    by (intro keeps_bind keeps_prims keeps_if keeps_case process_function_outside [OF assms(1) a(1)]
        outside_status(1) [OF assms(1) a(2)] outside_calls [OF assms(1)])
qed

section \<open>What a thread leaves alone\<close>

definition own_events :: "TModbusMasterConfiguration \<Rightarrow> schedulerEvent list \<Rightarrow> bool" where
  "own_events cfg evl \<longleftrightarrow> (\<forall>e \<in> set evl. ptModbusAction e \<in> set (mbActionListHead cfg))"

fun master_owns :: "TModbusMasterConfiguration \<Rightarrow> master_thread \<Rightarrow> bool" where
  "master_owns cfg (Tcp_master (TM_loop m)) \<longleftrightarrow> own_events cfg (eventList m)"
| "master_owns cfg (Rtu_master (RM_loop m)) \<longleftrightarrow> own_events cfg (eventList m)"
| "master_owns cfg _ \<longleftrightarrow> True"

lemma next_event_own:
  assumes "next_event evl = Ret (ev, evl')" "own_events cfg evl"
  shows "eventModbusAction ev \<in> set (mbActionListHead cfg)" "own_events cfg evl'"
  using assms
  by (cases evl; force simp: next_event_def getNextEvent_def obind_Ret_iff own_events_def set_insertEventByDueDate
      split: option.splits)+

lemma initScheduler_loop_own:
  "own_events cfg evl \<Longrightarrow> set acts \<subseteq> set (mbActionListHead cfg) \<Longrightarrow>
     wlp (initScheduler_loop E now acts evl) (\<lambda>r _. own_events cfg (snd r)) w"
proof (induction acts arbitrary: evl w)
  case (Cons act acts)
  have "ptModbusAction e = act" if "newSchedulerEvent now act = Ret e" for e
    using that by (auto simp: newSchedulerEvent_def Let_def obind_Ret_iff)
  then show ?case
    using Cons.prems by (auto simp: wp_simps wp_liftO own_events_def set_insertEventByDueDate
        cleanupScheduler_empties intro!: Cons.IH [unfolded own_events_def])
qed (simp add: wp_simps)

lemma initScheduler_own: "wlp (initScheduler E (mbActionListHead cfg) []) (\<lambda>r _. own_events cfg (snd r)) w"
  by (auto simp: initScheduler_def wp_simps own_events_def intro!: wlp_mono [OF initScheduler_loop_own [of cfg]])

definition places_world :: "'w env \<Rightarrow> ('w \<Rightarrow> image) \<Rightarrow> bool" where
  "places_world E img \<longleftrightarrow> image_world E img \<and> master_calls_keep E img"

lemma places_world_calls:
  assumes "places_world E img"
  shows "keeps (\<lambda>w. img w a = x) (ext (set_priority E n))" "keeps (\<lambda>w. img w a = x) (ext (malloc_ok E))"
    and "keeps (\<lambda>w. img w a = x) (ext (access_rw E path))" "keeps (\<lambda>w. img w a = x) (ext (modbus_new_tcp_pi E ip port))"
    and "keeps (\<lambda>w. img w a = x) (ext (modbus_new_rtu E d r q y z))"
    and "keeps (\<lambda>w. img w a = x) (ext (modbus_set_error_recovery E c))" "keeps (\<lambda>w. img w a = x) (ext (modbus_connect E c))"
    and "keeps (\<lambda>w. img w a = x) (ext (modbus_close E c))" "keeps (\<lambda>w. img w a = x) (ext (modbus_free E c))"
    and "keeps (\<lambda>w. img w a = x) (ext (modbus_set_slave E c adr))"
    and "keeps (\<lambda>w. img w a = x) (ext (modbus_set_response_timeout E c s u))"
    and "keeps (\<lambda>w. img w a = x) (ext (modbus_set_byte_timeout E c s u))"
  using assms by (auto simp: places_world_def master_calls_keep_def intro!: keeps_ext)

lemma master_parts_outside:
  assumes "places_world E img" "a \<notin> master_places cfg"
  shows "act \<in> set (mbActionListHead cfg) \<Longrightarrow> keeps (\<lambda>w. img w a = x) (reset_status_of E act)"
    and "own_events cfg evl \<Longrightarrow> keeps (\<lambda>w. img w a = x) (reset_all_status E evl)"
    and "keeps (\<lambda>w. img w a = x) (reset_master_status E cfg)" "keeps (\<lambda>w. img w a = x) (write_device_status E cfg e)"
    and "keeps (\<lambda>w. img w a = x) (release_context E ctx)" "keeps (\<lambda>w. img w a = x) (setprio E prio)"
    and "keeps (\<lambda>w. img w a = x) (set_timeouts E ctx' evl')" "keeps (\<lambda>w. img w a = x) (initScheduler E acts evl'')"
    and "eventModbusAction ev \<in> set (mbActionListHead cfg) \<Longrightarrow>
           keeps (\<lambda>w. img w a = x) (run_action E c ev earliest offset buffer)"
proof -
  have W: "image_world E img"
    using assms(1) by (simp add: places_world_def)
  note calls = places_world_calls [OF assms(1)] outside_calls [OF W]
  have a: "a \<notin> status_places (i32uDeviceStatusByteProcessImageOffset (masterDeviceConfig cfg))
         (i32uDeviceStatusResetByteProcessImageByteOffset (masterDeviceConfig cfg))"
    "act \<in> set (mbActionListHead cfg) \<Longrightarrow> a \<notin> action_places act" for act
    using assms(2) by (auto simp: master_places_def)
  show act: "keeps (\<lambda>w. img w a = x) (reset_status_of E act)" if "act \<in> set (mbActionListHead cfg)" for act
    using a(2) [OF that] unfolding reset_status_of_def by (intro outside_status [OF W]) (simp add: action_places_def)
  show "keeps (\<lambda>w. img w a = x) (reset_all_status E evl)" if "own_events cfg evl"
    using that by (induction evl) (auto simp: own_events_def intro!: keeps_bind keeps_prims act)
  show "keeps (\<lambda>w. img w a = x) (reset_master_status E cfg)" "keeps (\<lambda>w. img w a = x) (write_device_status E cfg e)"
    unfolding reset_master_status_def reset_modbus_master_status_def write_device_status_def
    by (rule outside_status [OF W a(1)])+
  show "keeps (\<lambda>w. img w a = x) (release_context E ctx)" "keeps (\<lambda>w. img w a = x) (setprio E prio)"
    "keeps (\<lambda>w. img w a = x) (set_timeouts E ctx' evl')"
    unfolding release_context_def setprio_def set_timeouts_def Let_def
    by (intro keeps_bind keeps_prims keeps_if keeps_case calls)+
  have "keeps (\<lambda>w. img w a = x) (initScheduler_loop E now acts evl)" for now acts evl
    by (induction acts arbitrary: evl) (auto intro!: keeps_bind keeps_prims calls)
  then show "keeps (\<lambda>w. img w a = x) (initScheduler E acts evl'')"
    unfolding initScheduler_def by (intro keeps_bind keeps_prims keeps_if calls)
  show "keeps (\<lambda>w. img w a = x) (run_action E c ev earliest offset buffer)" if "eventModbusAction ev \<in> set (mbActionListHead cfg)"
    unfolding run_action_def
    by (intro keeps_bind keeps_prims keeps_case calls processModbusAction_outside [OF W a(2) [OF that]])
qed

lemma wlp_keeps_view: "keeps (\<lambda>v. f v = f w) m \<Longrightarrow> wlp m (\<lambda>r _. Q r) w \<Longrightarrow> wlp m (\<lambda>r v. Q r \<and> f v = f w) w"
  by (intro wlp_conj wlp_keeps [of "\<lambda>v. f v = f w"]) simp_all

lemma master_step_outside:
  assumes "places_world E img" "a \<notin> master_places cfg" "master_owns cfg p"
  shows "wlp (step_master_thread D E cfg p) (\<lambda>p' w'. master_owns cfg p' \<and> img w' a = img w a) w"
proof -
  have W: "image_world E img"
    using assms(1) by (simp add: places_world_def)
  note calls = keeps_bind keeps_prims keeps_if keeps_case places_world_calls [OF assms(1)] outside_calls [OF W]
    master_parts_outside(3-8) [OF assms(1,2)]
  note parts = master_parts_outside [OF assms(1,2), where x = "img w a"]
  note loop = wlp_mono [OF wlp_keeps [OF parts(1)]] wlp_mono [OF wlp_keeps [OF parts(2)]]
    wlp_mono [OF wlp_keeps [OF parts(3)]] wlp_mono [OF wlp_keeps [OF parts(9)]]
  have close: "img (snd (modbus_close E c v)) = img v" for c v
    using assms(1) by (simp add: places_world_def master_calls_keep_def)
  show ?thesis
  proof (cases p)
    case (Tcp_master q)
    show ?thesis
    proof (cases q)
      case TM_start
      have "keeps (\<lambda>v. img v a = img w a) (tcp_master_start E cfg)"
        unfolding tcp_master_start_def by (intro calls)
      moreover have "wlp (tcp_master_start E cfg) (\<lambda>q' _. master_owns cfg (Tcp_master q')) w"
        by (auto simp: tcp_master_start_def wp_simps wp_liftO case_prod_unfold intro!: wlp_True split: option.splits)
      ultimately show ?thesis
        unfolding Tcp_master TM_start step_master_thread.simps startTcpMasterThread.simps wp_simps by (rule wlp_keeps_view [of "\<lambda>v. img v a"])
    next
      case (TM_connect c b)
      have "keeps (\<lambda>v. img v a = img w a) (tcp_master_connect D E cfg c b)"
        unfolding tcp_master_connect_def cleanupTcpMasterThread_def by (intro calls)
      moreover have "wlp (tcp_master_connect D E cfg c b) (\<lambda>q' _. master_owns cfg (Tcp_master q')) w"
        by (auto simp: tcp_master_connect_def wp_simps case_prod_unfold intro!: wlp_True wlp_mono [OF initScheduler_own])
      ultimately show ?thesis
        unfolding Tcp_master TM_connect step_master_thread.simps startTcpMasterThread.simps wp_simps by (rule wlp_keeps_view [of "\<lambda>v. img v a"])
    next
      case (TM_loop m)
      then show ?thesis
        using assms(3)
        by (auto simp: Tcp_master tcp_master_loop_def wp_simps wp_liftO case_prod_unfold Let_def close
            intro!: loop dest: next_event_own)
    qed (simp add: Tcp_master wp_simps)
  next
    case (Rtu_master q)
    show ?thesis
    proof (cases q)
      case RM_wait
      have "keeps (\<lambda>v. img v a = img w a) (startRtuMasterThread E cfg RM_wait)"
        unfolding startRtuMasterThread.simps rtu_master_open_def rtu_master_begin_def cleanupRtuMasterThread_def by (intro calls)
      moreover have "wlp (startRtuMasterThread E cfg RM_wait) (\<lambda>q' _. master_owns cfg (Rtu_master q')) w"
        by (auto simp: rtu_master_open_def rtu_master_begin_def wp_simps wp_liftO case_prod_unfold
            intro!: wlp_True wlp_mono [OF initScheduler_own] split: option.splits)
      ultimately show ?thesis
        unfolding Rtu_master RM_wait step_master_thread.simps wp_bind wlp_bind wlp_prims by (rule wlp_keeps_view [of "\<lambda>v. img v a"])
    next
      case (RM_loop m)
      then show ?thesis
        using assms(3)
        by (auto simp: Rtu_master rtu_master_loop_def wp_simps wp_liftO case_prod_unfold Let_def
            intro!: loop dest: next_event_own)
    qed (simp add: Rtu_master wp_simps)
  qed
qed

section \<open>Properties\<close>

text \<open>
  C11: The master program changes the process image only where its configuration tells it to. While the threads
  take their steps in any order, whatever the devices answer and whichever accesses fail, a byte of the image
  keeps its value when it is none of the following: the bytes into which an action reads coils,
  registers or the identification of the device, and the status byte and the byte of the reset bit of an action or a device.
\<close>

theorem masters_write_own_places:
  assumes "image_world E img" "master_calls_keep E img"
    and "interleaving (step_master_thread D E) (map (\<lambda>cfg. (cfg, start_master_thread cfg)) cfgs) v0 ts v"
    and "\<forall>cfg \<in> set cfgs. a \<notin> master_places cfg"
  shows "img v a = img v0 a"
proof -
  have "places_world E img"
    using assms(1,2) by (simp add: places_world_def)
  then have step: "wlp (step_master_thread D E cfg p) (\<lambda>p' v'. master_owns cfg p' \<and> img v' a = img v0 a) v"
    if "cfg \<in> fst ` set (map (\<lambda>cfg. (cfg, start_master_thread cfg)) cfgs)" "master_owns cfg p" "img v a = img v0 a" for cfg p v
    using master_step_outside [of E img a cfg p D v] that assms(4) by auto
  have "master_owns cfg (start_master_thread cfg)" for cfg
    by (simp add: start_master_thread_def)
  with interleaving_inv [OF assms(3), of master_owns "\<lambda>v. img v a = img v0 a", OF _ refl step] show ?thesis
    by auto
qed

lemma demo_master_connected:
  assumes "cfg = demo_master [demo_action 1 eREAD_HOLDING_REGISTERS 2 1000000]"
  shows "\<exists>ts v. interleaving (step_master_thread exact_ops plant_env) [(cfg, Tcp_master TM_start)] (plant0\<lparr>p_image := (\<lambda>_. 9)\<rparr>) ts v
     \<and> p_image v 100 = 0"
proof (rule interleaving_two)
  show "wp (step_master_thread exact_ops plant_env cfg (Tcp_master TM_start)) (\<lambda>p w.
      wp (step_master_thread exact_ops plant_env cfg p) (\<lambda>_ v. p_image v 100 = 0) w) (plant0\<lparr>p_image := (\<lambda>_. 9)\<rparr>)"
    unfolding assms
    by (simp add: wp_simps tcp_master_start_def tcp_master_connect_def initScheduler_def newSchedulerEvent_def timespec_add_def
        Let_def set_timeouts_def get_minimal_modbus_action_interval_def timespec_diff_def to_i32_def time_defs
        modbus_timeout_def c_mod_def c_div_def demo_master_run demo_action_def patch_image_def)
qed

theorem masters_write_own_places_witness:
  "\<exists>ts v. interleaving (step_master_thread exact_ops plant_env)
       [(demo_master [demo_action 1 eREAD_HOLDING_REGISTERS 2 1000000], Tcp_master TM_start)] (plant0\<lparr>p_image := (\<lambda>_. 9)\<rparr>) ts v
     \<and> p_image v 100 = 0 \<and> (\<forall>a. a \<notin> {10..<14} \<union> {70, 80, 100, 101} \<longrightarrow> p_image v a = 9)"
proof -
  let ?cfg = "demo_master [demo_action 1 eREAD_HOLDING_REGISTERS 2 1000000]"
  obtain ts v where run: "interleaving (step_master_thread exact_ops plant_env) [(?cfg, Tcp_master TM_start)]
      (plant0\<lparr>p_image := (\<lambda>_. 9)\<rparr>) ts v" "p_image v 100 = 0"
    using demo_master_connected [OF refl] by blast
  have start: "[(?cfg, Tcp_master TM_start)] = map (\<lambda>cfg. (cfg, start_master_thread cfg)) [?cfg]"
    by (simp add: start_master_thread_def master_routine_def demo_master_def)
  have "master_calls_keep plant_env p_image"
    by (simp add: master_calls_keep_def plant_env_def)
  note keeps = masters_write_own_places [OF plant_image_world this run(1) [unfolded start]]
  have "p_image v a = 9" if "a \<notin> {10..<14} \<union> {70, 80, 100, 101}" for a
    using keeps [of a] that
    by (simp add: master_places_def action_places_def status_places_def demo_master_def demo_action_def)
  with run show ?thesis
    by blast
qed

end
