(* ===== verification/Gateway.thy ===== *)
theory Gateway
  imports Thread_Safety
begin

text \<open>
  The two programs on one process image: what a client writes to the slave reaches the device behind the
  master, and what the master reads from a device reaches the client.
\<close>

section \<open>The registers of the device\<close>



section \<open>Properties\<close>




text \<open>
  C13: What a master reads reaches the client: when an action delivers the registers of a device to the
  place of a slave's input registers, the next request for input registers or discrete inputs that the slave
  receives is answered from a mapping whose input registers are exactly those of the device.
\<close>

theorem device_registers_reach_client:
  assumes "slave_laws E img" "image_world E img" "image_available E" "modbus_limits E" "modbus_read_laws E"
    and "mapping_ok m" "tab_input_bits m = []" "\<forall>v. fst (modbus_get_header_length E c v) = header"
    and "\<forall>v. fst (modbus_receive E c v) = (n, req)" "0 < n" "reading_code (req ! nat header)"
    and "length buffer = 256"
    and "eFunctionCode a = eREAD_HOLDING_REGISTERS \<and> read = modbus_read_registers E ctx
       \<or> eFunctionCode a = eREAD_INPUT_REGISTERS \<and> read = modbus_read_input_registers E ctx"
    and "i32uStartByteProcessData a = u32InputRegistersOffset (tProcessImageConfig cfg)"
    and "unat (i16uRegisterCount a) = length (tab_input_registers m)" "length (tab_input_registers m) \<le> 125"
  shows "wp (bindM (processModbusAction E ctx \<lparr>eventTriggerTime = ta, eventModbusAction = a\<rparr> buffer) (\<lambda>(len, _).
             bindM (process_modbus_request E c m cfg) (\<lambda>(rc, m'). ret (len, rc, m'))))
     (\<lambda>(len, rc, m') _. let (k, regs) = fst (read (wire_address a) (register_count a) (snd (mutex_lock E w)))
        in len = k \<and> (register_count a \<le> k \<longrightarrow> (\<exists>v. let (sent, m'') =
             fst (modbus_reply E c req n (m\<lparr>tab_input_registers := regs\<rparr>) v)
           in m' = m'' \<and> rc = (if sent = -1 then -1 else 0)))) w"
proof -
  let ?ev = "\<lparr>eventTriggerTime = ta, eventModbusAction = a\<rparr>" and ?offs = "tProcessImageConfig cfg"
  let ?r = "fst (read (wire_address a) (register_count a) (snd (mutex_lock E w)))"
  have st: "stores_at_most read"
    using assms(5,13) unfolding modbus_read_laws_def by auto
  have len: "length (snd ?r) = length (tab_input_registers m)" if "register_count a \<le> fst ?r"
    using stores_at_mostD(2) [OF st, of "wire_address a" "register_count a" "snd (mutex_lock E w)"] that
      stores_register_count [OF st, of "wire_address a" a "snd (mutex_lock E w)"] assms(15)
    unfolding register_count_eq by linarith
  have request: "wp (process_modbus_request E c m cfg) (\<lambda>(rc, m') _. register_count a \<le> fst ?r \<longrightarrow>
       (\<exists>u. let (sent, m'') = fst (modbus_reply E c req n (m\<lparr>tab_input_registers := snd ?r\<rparr>) u)
        in m' = m'' \<and> rc = (if sent = -1 then -1 else 0))) v"
    if "register_count a \<le> fst ?r \<longrightarrow>
      img v = patch_image (img w) (unat (i32uStartByteProcessData a)) (regs_bytes (snd ?r))" for v
    using input_request_is_fresh [OF assms(1-3,6-8), of v cfg] assms(9-11,14) that len
      slice_patch_image [of "img w" "unat (i32uStartByteProcessData a)" "regs_bytes (snd ?r)"]
    by (fastforce simp: bytes_regs_inverse elim!: wp_mono)
  have action: "wp (processModbusAction E ctx ?ev buffer) (\<lambda>q v. fst q = fst ?r \<and> (register_count a \<le> fst ?r \<longrightarrow>
      img v = patch_image (img w) (unat (i32uStartByteProcessData a)) (regs_bytes (snd ?r)))) w"
    by (rule wp_mono [OF read_registers_action [OF assms(4,5,2,3,12) _ _ refl, of ?ev read ctx w]])
       (use assms(13,15,16) negative_is_short in \<open>fastforce split: if_splits\<close>)+
  show ?thesis
    unfolding wp_bind
    by (rule wp_mono [OF action])
       (auto simp: wp_simps Let_def case_prod_unfold elim!: wp_mono intro!: wp_mono [OF request])
qed


text \<open>The plant with a client that asks for input registers all the time.\<close>

definition asking_env :: "plant env" where
  "asking_env = plant_env\<lparr>modbus_receive := (\<lambda>c w. ((8, [0, 0, 0, 0, 0, 0, 0, 4]), w))\<rparr>"

lemma asking_world:
  "slave_laws asking_env p_image" "image_world asking_env p_image" "image_available asking_env"
  "modbus_limits asking_env" "modbus_read_laws asking_env"
proof -
  have "image_world asking_env p_image = image_world plant_env p_image" "image_available asking_env = image_available plant_env"
    "modbus_limits asking_env = modbus_limits plant_env" "modbus_read_laws asking_env = modbus_read_laws plant_env"
    by (simp_all add: asking_env_def image_world_def picontrol_laws_def clock_keeps_def requests_keep_def mutex_keeps_def
        image_available_def modbus_limits_def modbus_read_laws_def)
  then show "image_world asking_env p_image" "image_available asking_env" "modbus_limits asking_env" "modbus_read_laws asking_env"
    using plant_image_world plant_available plant_limits plant_reads by simp_all
  have "MODBUS_TCP_MAX_ADU_LENGTH asking_env = 260" "modbus_get_header_length asking_env c w = (7, w)"
    "modbus_receive asking_env c w = ((8, [0, 0, 0, 0, 0, 0, 0, 4]), w)" "modbus_reply asking_env = modbus_reply plant_env" for c w
    by (simp_all add: asking_env_def plant_env_def)
  then show "slave_laws asking_env p_image"
    using plant_slave by (simp add: slave_laws_def plant_slave_calls(2))
qed

theorem device_registers_reach_client_witness:
  "wp (bindM (processModbusAction asking_env 1 (plant_event eREAD_HOLDING_REGISTERS 1 20 0) (replicate 256 0)) (\<lambda>(len, _).
        bindM (process_modbus_request asking_env 0 (demo_mapping [7]) (demo_slave 40 20)) (\<lambda>(rc, m'). ret (len, rc, m'))))
     (\<lambda>(len, rc, m') _. len = 1 \<and> rc = 0 \<and> tab_input_registers m' = [258]) plant0"
  using device_registers_reach_client [OF asking_world, of "demo_mapping [7]" 0 7 8 "[0, 0, 0, 0, 0, 0, 0, 4]" "replicate 256 0"
      "eventModbusAction (plant_event eREAD_HOLDING_REGISTERS 1 20 0)" "modbus_read_registers asking_env 1" 1
      "demo_slave 40 20" "\<lparr>tv_sec = 0, tv_nsec = 0\<rparr>" plant0]
  by (simp add: demo_slave_def demo_offsets_def demo_mapping_def mapping_ok_def plant_event_defs asking_env_def plant_defs
      reading_code_def request_code_def wire_address_def MODBUS_ADDRESS_OFFSET_def register_count_def)
    (auto elim!: wp_mono)

end
