(* ===== verification/Timetable.thy ===== *)
theory Timetable
  imports Scheduler
begin

text \<open>
  What the scheduler promises, without its list: a timetable is a multiset of periodic tasks, and a
  step carries out any one of the tasks due first and puts it back one period later. The event list
  of \<^verbatim>\<open>src/src/Scheduler.c\<close> implements the timetable; ties are resolved by the order of the list.
\<close>

section \<open>Specification\<close>

record task =
  task_due :: int
  task_period :: int
  task_action :: TModbusAction

definition postpone :: "task \<Rightarrow> task" where
  "postpone t = t\<lparr>task_due := task_due t + task_period t\<rparr>"

inductive timetable_step :: "task multiset \<Rightarrow> int \<times> TModbusAction \<Rightarrow> task multiset \<Rightarrow> bool" where
  carry_out: "\<forall>x \<in># add_mset t M. task_due t \<le> task_due x \<Longrightarrow>
    timetable_step (add_mset t M) (task_due t, task_action t) (add_mset (postpone t) M)"

inductive timetable_run :: "task multiset \<Rightarrow> (int \<times> TModbusAction) list \<Rightarrow> task multiset \<Rightarrow> bool" where
  run_Nil: "timetable_run M [] M"
| run_Cons: "timetable_step M x M' \<Longrightarrow> timetable_run M' xs M'' \<Longrightarrow> timetable_run M (x # xs) M''"

inductive_cases timetable_stepE: "timetable_step M x M'"

inductive_simps timetable_run_simps: "timetable_run M [] M'" "timetable_run M (x # xs) M'"

text \<open>The specification keeps the tasks: their number, periods and actions, and their phase.\<close>

definition phase_of :: "task \<Rightarrow> int \<times> int \<times> TModbusAction" where
  "phase_of t = (task_due t mod task_period t, task_period t, task_action t)"

lemma timetable_step_phases: "timetable_step M x M' \<Longrightarrow> image_mset phase_of M' = image_mset phase_of M"
  by (elim timetable_stepE) (simp add: phase_of_def postpone_def)

lemma timetable_run_phases: "timetable_run M xs M' \<Longrightarrow> image_mset phase_of M' = image_mset phase_of M"
  by (induction rule: timetable_run.induct) (simp_all add: timetable_step_phases)

lemma timetable_run_append:
  "timetable_run M (xs @ ys) M'' \<longleftrightarrow> (\<exists>M'. timetable_run M xs M' \<and> timetable_run M' ys M'')"
  by (induction xs arbitrary: M) (auto simp: timetable_run_simps)

section \<open>Implementation\<close>

definition task_of :: "schedulerEvent \<Rightarrow> task" where
  "task_of e = \<lparr>task_due = due_of e, task_period = period_of e, task_action = ptModbusAction e\<rparr>"

definition timetable :: "schedulerEvent list \<Rightarrow> task multiset" where
  "timetable evl = image_mset task_of (mset evl)"

definition observed :: "tModbusEvent \<Rightarrow> int \<times> TModbusAction" where
  "observed v = (ns_of (eventTriggerTime v), eventModbusAction v)"

lemma task_of_next: "wf_event e \<Longrightarrow> task_of (next_occurrence e) = postpone (task_of e)"
  using sched.renew_due [of e] sched.renew_period [of e]
  by (simp add: task_of_def postpone_def) (simp add: next_occurrence_def)

lemma getNextEvent_refines:
  assumes "scheduler_ok (e # es)"
  shows "getNextEvent (e # es) = Ret (0, Some (event_of e), insertEventByDueDate (next_occurrence e) es)"
    and "timetable_step (timetable (e # es)) (observed (event_of e)) (timetable (insertEventByDueDate (next_occurrence e) es))"
proof -
  have e: "wf_event e" "\<forall>x \<in> set es. due_of e \<le> due_of x"
    using assms by (simp_all add: queue_ok_Cons)
  have "timetable (e # es) = add_mset (task_of e) (timetable es)"
    "timetable (insertEventByDueDate (next_occurrence e) es) = add_mset (postpone (task_of e)) (timetable es)"
    using e(1) by (simp_all add: timetable_def mset_insertEventByDueDate task_of_next)
  moreover have "observed (event_of e) = (task_due (task_of e), task_action (task_of e))"
    by (simp add: observed_def event_of_def task_of_def due_of_def)
  moreover have "\<forall>x \<in># add_mset (task_of e) (timetable es). task_due (task_of e) \<le> task_due x"
    using e(2) by (auto simp: timetable_def task_of_def)
  ultimately show "timetable_step (timetable (e # es)) (observed (event_of e))
      (timetable (insertEventByDueDate (next_occurrence e) es))"
    using carry_out by simp
qed (rule getNextEvent_step [OF assms])

section \<open>Properties\<close>

text \<open>
  C3: The event list refines the timetable: any number of calls of \<open>getNextEvent\<close> on a well-formed
  list succeeds, and the trigger times and actions that they hand out are those of a run of the
  timetable of the list, which ends in the timetable of the list that is left.
\<close>

theorem scheduler_refines_timetable:
  assumes "scheduler_ok evl" "evl \<noteq> []"
  shows "\<exists>evs evl'. getNextEvents n evl = Ret (evs, evl') \<and> scheduler_ok evl'
     \<and> timetable_run (timetable evl) (map observed evs) (timetable evl')"
  using assms
proof (induction n arbitrary: evl)
  case (Suc n)
  obtain e es where evl: "evl = e # es"
    using Suc.prems(2) by (cases evl) auto
  have ok: "scheduler_ok (e # es)" using Suc.prems(1) evl by simp
  obtain evs evl' where rest: "getNextEvents n (insertEventByDueDate (next_occurrence e) es) = Ret (evs, evl')"
      "scheduler_ok evl'"
      "timetable_run (timetable (insertEventByDueDate (next_occurrence e) es)) (map observed evs) (timetable evl')"
    using Suc.IH [OF sched.step_inv [OF ok] sched.requeue_not_Nil] by blast
  then have "getNextEvents (Suc n) evl = Ret (event_of e # evs, evl')"
    by (simp add: evl getNextEvent_refines(1) [OF ok])
  moreover have "timetable_run (timetable evl) (map observed (event_of e # evs)) (timetable evl')"
    using run_Cons [OF getNextEvent_refines(2) [OF ok] rest(3)] by (simp add: evl)
  ultimately show ?case
    using rest(2) by blast
qed (simp add: run_Nil)

theorem scheduler_refines_timetable_witness:
  "\<exists>evs evl'. getNextEvents 4 [demo_event 1 1 1, demo_event 2 3 2] = Ret (evs, evl')
     \<and> timetable_run (timetable [demo_event 1 1 1, demo_event 2 3 2]) (map observed evs) (timetable evl')"
  using scheduler_refines_timetable [OF demo_queue_ok, of 4] by auto

end
