(* ===== verification/Spec2Isabelle.thy ===== *)
theory Spec2Isabelle
  imports Bus_Load Bus_Timing Retry_Loops Cancelled_Threads Cancelled_Slaves Ready_Sockets Slave_Areas Master_Areas
    Gateway Timetable
begin

text \<open>
  The programs \<^verbatim>\<open>piModbusMaster\<close> and \<^verbatim>\<open>piModbusSlave\<close> connect the process image of a Revolution Pi,
  which the kernel driver \<^verbatim>\<open>piControl\<close> keeps, with Modbus devices. All sources are below \<^verbatim>\<open>src/src\<close>.

  \<^bold>\<open>Parts of the program\<close>

  Each main program reads the configuration file \<^verbatim>\<open>config.rsc\<close>, a JSON document; the parser makes a
  list of devices of it; the main program starts one thread per device and waits until the driver
  reports a reset, upon which it cancels the threads, frees the lists and starts over. A master
  thread initialises its scheduler with the actions of its device and from then on takes the next
  due event, waits for its time, has the action processor carry it out, and counts failures. A slave
  thread answers requests with the data that it exchanges with the process image. Threads share the
  process image, and the threads of the master program share one mutex.

  \<^bold>\<open>Theories\<close>

  \<^item> \<open>Prelude\<close>: machine integers; outcomes of C code (\<open>Ret\<close>, \<open>Aborted\<close> for a failed \<^verbatim>\<open>assert\<close>, \<open>Fault\<close> for
    undefined behaviour); the state-passing computations \<open>prog\<close> over the world with their weakest
    preconditions (\<open>wp\<close>: it returns and ..., \<open>wlp\<close>: if it returns, ...); \<open>thread_reach\<close>, the phases that
    a thread can reach.
  \<^item> \<open>Modbus_Config\<close>: \<^verbatim>\<open>modbusconfig.h\<close>, the structures that the parser fills and the threads read.
  \<^item> \<open>External\<close>: the environment record, with one field per call of \<^verbatim>\<open>piControlIf\<close>, \<^verbatim>\<open>libmodbus\<close> and the
    operating system, and the predicates that state their documented behaviour; \<open>Plant\<close>: an
    environment in which all of these hold, used by the witnesses.
  \<^item> \<open>Timespec\<close>, \<open>Periodic_Queue\<close>, \<open>Scheduler\<close>: \<^verbatim>\<open>Scheduler.c\<close> and \<^verbatim>\<open>Scheduler.h\<close>. \<open>Timespec\<close> provides the
    locale \<open>time_base\<close>, \<open>Scheduler\<close> interprets the locale \<open>periodic_queue\<close> with its own insertion.
    \<open>Timetable\<close> is the specification without a list that the scheduler refines. \<open>Bus_Load\<close>: the load of the
    bus that the minimal offset of the events allows, with the rounding of the type \<^verbatim>\<open>double\<close>.
  \<^item> \<open>ComAndDataProcessor\<close>: \<^verbatim>\<open>ComAndDataProcessor.c\<close>, one definition per case of the switch over the function
    code. \<open>Action_Semantics\<close>: what one call of \<open>processModbusAction\<close> does to the process image and to
    the device, on every outcome.
  \<^item> \<open>ProcessImageAccess\<close>: \<^verbatim>\<open>piProcessImageAccess.c\<close>.
  \<^item> \<open>ModbusSlaveThread\<close>, \<open>ModbusMasterThread\<close>: the start routines of the four kinds of threads, with
    their cleanup handlers, as step functions on the phases of the routine. One step is one pass
    through a retry loop or through the main loop.
  \<^item> \<open>CString\<close>, \<open>Parsing_Error\<close>, \<open>Jsonc\<close>, \<open>PiConfigParser\<close>, \<open>Parser_Image\<close>, \<open>Parser_Actions\<close>,
    \<open>Config_File\<close>: \<^verbatim>\<open>piConfigParser/piConfigParser.c\<close>. In this order: functions of the C library on
    strings; error codes and messages; the accessors of \<^verbatim>\<open>json-c\<close> as a record of functions; devices
    and protocol parameters; places in the process image and slaves; actions and masters; the
    configuration file and the entry points. \<open>Action_Documents\<close> and \<open>Master_Documents\<close> state what the
    entries of a document mean and show that the parser yields just that.
  \<^item> \<open>Main_Programs\<close>: \<^verbatim>\<open>piModbusMaster.c\<close> and \<^verbatim>\<open>piModbusSlave.c\<close>.
  \<^item> \<open>Thread_Safety\<close>: from which configurations on every pass of a thread returns. \<open>Interleaving\<close>: several
    threads whose passes follow each other in any order in one world, with the locales \<open>threads\<close> (what
    threads promise each other) and \<open>owners\<close> (threads that hold resources); \<open>Master_Interleaving\<close> and
    \<open>Slave_Interleaving\<close> interpret them for the threads of the two programs, TCP and RTU mixed.
    \<open>Retry_Loops\<close>: the locale \<open>retry\<close>, interpreted for the four loops in which a thread waits for its
    device, its device file or its port. \<open>Halting\<close>: the program in an environment in which a thread halts
    in the middle of a pass, in a request or in the mutex, with a calculus for what then holds.
    \<open>Bus_Timing\<close>: the times at which an RTU master makes its requests, by an environment that logs them.
    \<open>Cancelled_Threads\<close>: a master that is cancelled in a request, and
    the threads that are started after it, which halt in the mutex. \<open>Cancelled_Slaves\<close>: slaves that are cancelled between two passes,
    with the locale \<open>releasing\<close> (nothing that a thread has opened outlives it).
  \<^item> \<open>Ready_Sockets\<close>: the loop of a TCP slave over all descriptors against a loop over the ready ones.
    \<open>Slave_Areas\<close>, \<open>Master_Areas\<close>: which bytes of the process image the two programs may change. \<open>Gateway\<close>: the
    way of a register through both programs, from the client of a slave to a device and back.
  \<^item> This theory: properties of several parts together.

  \<^bold>\<open>Correspondence\<close>

  Definitions carry the names of the C functions. A structure is a record with the fields of the
  structure; integers keep their width as words, except where an \<^verbatim>\<open>int\<close> only carries small return
  codes and counts (then \<open>int\<close>); a list of \<^verbatim>\<open>sys/queue.h\<close> is a list, head first; a pointer that may
  be \<^verbatim>\<open>NULL\<close> is an option; out-parameters are part of the result; local variables that outlive an
  iteration are arguments of the loop. What the program asks of its environment goes through the
  world \<open>'w\<close>, in the order of the calls. An \<^verbatim>\<open>assert\<close> that fails, and a dereferenced \<^verbatim>\<open>NULL\<close>, end the
  computation with their own outcome, so a statement with \<open>wp\<close> includes that neither happens.

  \<^bold>\<open>What is shown\<close>

  \<^item> Scheduler: the event list stays ordered and is the stable insertion by due date; events are
    handed out in the order of their due dates, without drift and without starvation; the list
    implements the abstract timetable; the minimal offset bounds the load of the bus, up to a rounding
    error that the bound states.
  \<^item> Action processor: actions within the limits of \<^verbatim>\<open>libmodbus\<close> return; the exact effect of reads and
    writes on the image, bit by bit and register by register; the mutex is free on return; a failed
    request touches nothing but its status byte; a request to reset a status is not lost. Register
    counts that only the parser accepts abort the process.
  \<^item> Slaves: the data of a request are those of the image; the image mirrors the outputs after each
    request; in any interleaving of the slave threads each TCP slave waits on descriptors of its own
    only, and all of them together are the sockets opened and not closed; a pass serves each ready socket
    once; a reset closes every socket (\<open>reset_closes_all_sockets\<close>); the program writes to the areas of its
    configuration only (\<open>slaves_write_own_areas\<close>).
  \<^item> Masters: in any interleaving of the master threads no pass aborts, the mutex is free between
    passes, and each thread's event list always holds each of its actions once; the requests of an
    RTU master are apart by at least its minimal offset and never early (\<open>rtu_master_rate\<close>); a TCP
    master with a dead link reconnects; the program writes to the
    places of its actions and status bytes only (\<open>masters_write_own_places\<close>).
  \<^item> Both programs on one process image: the registers that a client writes reach the device, and those of
    the device reach the client (\<open>served_registers_reach_device\<close>, \<open>device_registers_reach_client\<close>).
  \<^item> Waiting: each of the four retry loops ends within one pass more than what it waits for keeps
    failing, and in which state the thread then is.
  \<^item> Parser: the list of slaves equals a comprehension over the devices of the document; the list of
    masters has exactly the masters of the document with exactly the actions that their entries
    describe; every parsed field is in range; parameters belong to their own action; the place of a variable and of a section in the
    image. The driver accesses the whole byte for a bit number of 8 and more (\<open>value_at\<close>, \<open>patch_value\<close> in
    \<open>External\<close>); the parser stores such numbers of reset bits as they are, so what it clears then is the
    whole byte (\<open>clear_entry\<close>, \<open>reset_takes_whole_byte\<close>).
  \<^item> Main programs: one thread started per parsed configuration, with the routine of its protocol, where
    the creation of threads succeeds. Of the handle after a failed creation nothing is assumed: the slave
    program sets it to 0 itself, the master program keeps what it finds there.
    From the text of the file to the
    event lists of the threads (\<open>configured_actions_scheduled\<close>). Started threads rest on the ranges
    that the parser ensures (\<open>started_masters_interleaved\<close>; for slaves \<open>slave_threads\<close> with
    \<open>parsed_slave_runnable\<close>), and the mapping of a slave covers the area
    that the parser has computed (\<open>parsed_slave_mapping\<close>).
  \<^item> Defects of the code that the model exhibits are stated as theorems about what it does:
    \<open>processModbusAction_aborts_over_limit\<close>, \<open>tcp_slave_double_close\<close>, \<open>rtu_master_double_free\<close>,
    \<open>master_frees_configuration_in_use\<close>, \<open>cancelled_request_blocks_masters\<close>,
    \<open>slave_cancels_missing_thread\<close>, \<open>tcp_port_wraps\<close>, and the
    rejection of sections at offset 0 in \<open>section_area_of\<close>.

  \<^bold>\<open>Bounds\<close>

  No definition uses fuel: the loops of the sources that end are structural recursions over the list
  they traverse, and those that do not end (threads, main programs, attempts to connect) are step
  functions, about which invariants are shown over \<open>thread_reach\<close> and \<open>interleaving\<close>. That the attempts
  end is shown for every bound \<open>tries\<close> on the failures that the environment has in store. Times are unbounded integers;
  \<open>Timespec\<close> shows that the nanoseconds stay within a \<^verbatim>\<open>long\<close>. The operations on \<^verbatim>\<open>double\<close> in the
  scheduler are a parameter; of them the bound on the load assumes what IEEE 754 requires, a relative
  error of at most \<open>2 ^ -53\<close> for each operation (\<open>ieee_laws\<close>), and the other theorems nothing. The exact
  reals \<open>exact_ops\<close> are an instance for demonstrations.

  \<^bold>\<open>Not modelled\<close>

  \<^item> The libraries: \<^verbatim>\<open>json-c\<close>, \<^verbatim>\<open>libmodbus\<close>, the \<^verbatim>\<open>piControl\<close> submodule, streams and threads of the C
    library are parameters (records of functions), and what the theorems use of their behaviour is a
    named hypothesis. \<^verbatim>\<open>regexec\<close> is modelled for the one pattern of the program.
  \<^item> Messages to \<^verbatim>\<open>syslog\<close>: they do not change the behaviour of the program. The texts for the error codes
    are modelled.
  \<^item> Interleaving of threads within one pass: the passes of the threads of one program follow each other
    in any order, but each is one step, except that a master may halt in a request, where it is
    cancelled, or in the mutex, which another thread holds (\<open>Halting\<close>); slaves are cancelled where they
    wait between two passes.
  \<^item> Leaks of memory; \<^verbatim>\<open>free\<close> is modelled only where memory is freed that is still in use.
  \<^item> Code that the preprocessor disables, unused constants and fields, the build and the packaging.
\<close>

section \<open>Properties of the whole program\<close>

lemma parsed_tcp_master:
  assumes "master_in_range J cfg" "\<forall>w. wf_timespec (fst (clock_gettime E w))"
    and "thread_reach (startTcpMasterThread D E cfg) TM_start v0 (TM_loop k) v"
  shows "master_ok cfg k"
proof -
  have "\<forall>a \<in> set (mbActionListHead cfg). i32uInterval_us a \<noteq> 0"
    using assms(1) by (auto simp: master_in_range_def action_in_range_def)
  from tcp_master_schedule [OF assms(2) this assms(3)] show ?thesis
    by (simp add: master_ok_def)
qed

lemma parsed_rtu_master:
  assumes "master_in_range J cfg" "\<forall>w. wf_timespec (fst (clock_gettime E w))"
    and "thread_reach (startRtuMasterThread E cfg) RM_wait v0 (RM_loop k) v"
  shows "master_ok cfg k"
  by (rule rtu_master_schedule [OF assms(2) _ assms(3)])
     (use assms(1) in \<open>auto simp: master_in_range_def action_in_range_def\<close>)

text \<open>
  C2: The running master program: it has parsed its configuration and waits for an event, and the
  threads it starts, one for each device, take their steps in any order. As long as every action's
  register count is within the limit of its function code, which is all that the parser leaves
  open: no step of any thread aborts or faults; between steps the mutex is free; and every thread in
  its main loop has an ordered event list with exactly the actions configured for its device, each of
  them in range.
\<close>

theorem started_masters_interleaved:
  assumes "thread_laws P running" "threads_kept E F running" "master_world E img" "mutex_world E held"
    and "thread_reach (piModbusMaster E F J P) (Master_parse []) w0 (Master_wait m) w"
    and "\<forall>cfg \<in> set (masterConfHead m). \<forall>a \<in> set (mbActionListHead cfg).
           action_fits (eFunctionCode a) (unat (i16uRegisterCount a))"
    and "\<not> held v0"
    and "interleaving (step_master_thread D E) (map (\<lambda>cfg. (cfg, start_master_thread cfg)) (masterConfHead m)) v0 ts v"
  shows "map fst ts = masterConfHead m \<and> \<not> held v
     \<and> (\<forall>(cfg, p) \<in> set ts. (\<exists>p' v'. step_master_thread D E cfg p v = (Ret p', v'))
         \<and> (\<forall>k. p = Tcp_master (TM_loop k) \<or> p = Rtu_master (RM_loop k) \<longrightarrow>
              scheduler_ok (eventList k) \<and> mset (map ptModbusAction (eventList k)) = mset (mbActionListHead cfg)
            \<and> (\<forall>e \<in> set (eventList k). action_in_range (ptModbusAction e))))"
proof -
  have range: "\<forall>cfg \<in> set (masterConfHead m). master_in_range J cfg"
    using master_main_inv [OF assms(1,2,5)] by (simp add: master_main_ok_def)
  then have "\<forall>cfg \<in> set (masterConfHead m). runnable_master cfg"
    using parsed_master_runnable assms(6) by blast
  note run = masters_interleaved [OF assms(3,4) this assms(7,8)]
  have "action_in_range (ptModbusAction e)"
    if "(cfg, p) \<in> set ts" "e \<in> set evl" "mset (map ptModbusAction evl) = mset (mbActionListHead cfg)" for cfg p evl
      and e :: schedulerEvent
  proof -
    have "cfg \<in> set (masterConfHead m)"
      using conjunct1 [OF run] imageI [OF that(1), of fst] by (simp flip: list.set_map)
    moreover have "ptModbusAction e \<in> set (mbActionListHead cfg)"
      using arg_cong [OF that(3), of set_mset] that(2) by auto
    ultimately show ?thesis
      using range by (auto simp: master_in_range_def)
  qed
  then have "\<forall>(cfg, p) \<in> set ts. \<forall>evl. mset (map ptModbusAction evl) = mset (mbActionListHead cfg) \<longrightarrow>
      (\<forall>e \<in> set (evl :: schedulerEvent list). action_in_range (ptModbusAction e))"
    by blast
  with run show ?thesis
    by (intro conjI) (auto, force+)
qed

lemma rich_clock: "\<forall>w. wf_timespec (fst (clock_gettime rich_env w))"
  by (simp add: rich_env_def plant_env_def wf_timespec_def)

lemma demo_tcp_loop:
  "\<exists>k v. thread_reach (startTcpMasterThread exact_ops rich_env demo_parsed_master) TM_start
     (cluster0 :: TModbusMasterConfiguration cluster) (TM_loop k) v"
proof -
  have "startTcpMasterThread exact_ops rich_env demo_parsed_master TM_start
      (cluster0 :: TModbusMasterConfiguration cluster)
    = (Ret (TM_connect 0 (replicate MAX_REGISTER_SIZE_PER_ACTION 0)), cluster0)"
    by (simp add: tcp_master_start_def demo_master_run rich_env_def demo_parsed_master_def)
  then have reach: "thread_reach (startTcpMasterThread exact_ops rich_env demo_parsed_master) TM_start
      (cluster0 :: TModbusMasterConfiguration cluster) (TM_connect 0 (replicate MAX_REGISTER_SIZE_PER_ACTION 0)) cluster0"
    by (rule thread_step [OF thread_start])
  have "\<exists>k v. startTcpMasterThread exact_ops rich_env demo_parsed_master
      (TM_connect 0 (replicate MAX_REGISTER_SIZE_PER_ACTION 0)) (cluster0 :: TModbusMasterConfiguration cluster)
    = (Ret (TM_loop k), v)"
    by (simp add: tcp_master_connect_def initScheduler_def newSchedulerEvent_def timespec_add_def Let_def
        set_timeouts_def get_minimal_modbus_action_interval_def timespec_diff_def to_i32_def time_defs
        modbus_timeout_def c_mod_def c_div_def demo_master_run rich_env_def cluster0_def plant.extend_def
        demo_parsed_master_def action_of_def demo_text_def)
  then obtain k v where "startTcpMasterThread exact_ops rich_env demo_parsed_master
      (TM_connect 0 (replicate MAX_REGISTER_SIZE_PER_ACTION 0)) (cluster0 :: TModbusMasterConfiguration cluster)
    = (Ret (TM_loop k), v)" by blast
  from thread_step [OF reach this] show ?thesis by blast
qed

theorem started_masters_interleaved_witness:
  "\<exists>w ts v. thread_reach (piModbusMaster rich_env demo_stdio (doc_jsonc demo_masters) cluster_threads) (Master_parse []) cluster0
       (Master_wait demo_waiting) w
     \<and> interleaving (step_master_thread exact_ops rich_env) [(demo_parsed_master, start_master_thread demo_parsed_master)]
       (cluster0 :: TModbusMasterConfiguration cluster) ts v
     \<and> (\<exists>k. ts = [(demo_parsed_master, Tcp_master (TM_loop k))] \<and> length (eventList k) = 1
          \<and> (\<forall>e \<in> set (eventList k). action_in_range (ptModbusAction e)))"
proof -
  obtain w where "piModbusMaster rich_env demo_stdio (doc_jsonc demo_masters) cluster_threads (Master_parse []) cluster0
      = (Ret (Master_wait demo_waiting), w)"
    using demo_master_start by (auto simp: wp_iff)
  then have main: "thread_reach (piModbusMaster rich_env demo_stdio (doc_jsonc demo_masters) cluster_threads) (Master_parse [])
      cluster0 (Master_wait demo_waiting) w"
    by (rule thread_step [OF thread_start])
  have start: "start_master_thread demo_parsed_master = Tcp_master TM_start"
    "masterConfHead demo_waiting = [demo_parsed_master]"
    by (simp_all add: start_master_thread_def master_routine_def demo_parsed_master_def demo_waiting_def)
  obtain k v where loop: "interleaving (step_master_thread exact_ops rich_env)
      (map (\<lambda>cfg. (cfg, start_master_thread cfg)) (masterConfHead demo_waiting))
      (cluster0 :: TModbusMasterConfiguration cluster) [(demo_parsed_master, Tcp_master (TM_loop k))] v"
    using demo_tcp_loop tcp_master_alone by (fastforce simp: start)
  have "\<forall>cfg \<in> set (masterConfHead demo_waiting). \<forall>a \<in> set (mbActionListHead cfg).
      action_fits (eFunctionCode a) (unat (i16uRegisterCount a))"
    by (simp add: demo_waiting_def demo_parsed_master_def action_of_def demo_text_def Let_def EModbusFunction_of_def
        listed_functions_def)
  moreover have "\<not> p_held (cluster0 :: TModbusMasterConfiguration cluster)"
    by (simp add: cluster0_def plant.extend_def plant0_def)
  note run = started_masters_interleaved [OF cluster_thread_laws cluster_threads_kept rich_masters main calculation this loop]
  have "size (mset (map ptModbusAction (eventList k))) = size (mset (mbActionListHead demo_parsed_master))"
    using run by simp
  then have "length (eventList k) = 1"
    by (simp add: demo_parsed_master_def)
  moreover have "\<forall>e \<in> set (eventList k). action_in_range (ptModbusAction e)"
    using run by simp
  moreover have "interleaving (step_master_thread exact_ops rich_env) [(demo_parsed_master, start_master_thread demo_parsed_master)]
      (cluster0 :: TModbusMasterConfiguration cluster) [(demo_parsed_master, Tcp_master (TM_loop k))] v"
    using loop by (simp add: start)
  ultimately show ?thesis
    using main by blast
qed

text \<open>
  C1: From the text of the configuration to the actions on the bus. The file can be read and its
  document has the devices \<open>rs\<close>, and threads can be created: then the first step of the master program
  (and each one after a reset) ends in the wait for an event, with exactly the masters described and one
  thread started for each of them, with the routine of the protocol whose parameters the document gives
  and with the configuration of this master; and the event list of a master's thread, over TCP or RTU,
  whenever it is in its loop, is ordered and holds exactly the actions that the document describes for
  this master.
\<close>

theorem configured_actions_scheduled:
  assumes "memory_keeps E img" "picontrol_laws E img" "image_available E" "2 ^ 32 \<le> Suc (ULONG_MAX J)"
    and "read_config_file E F w = (Ret (Some text), w1)"
    and "get_json_devices_array J text = Inr a" "list_all2 (reads_device J) (array_devices J a) rs"
    and "thread_laws P started" "creation_succeeds P" "\<forall>v. wf_timespec (fst (clock_gettime E v))"
  shows "wp (piModbusMaster E F J P (Master_parse freed)) (\<lambda>p w'. \<exists>m. p = Master_wait m
     \<and> masterConfHead m = rev (map master_of (List.map_filter id rs))
     \<and> list_all2 (\<lambda>h c. case uProt (masterDeviceConfig c) of
           tTcpConfig _ \<Rightarrow> (h, StartTcpMasterThread, c) \<in> started w'
         | tRtuConfig _ \<Rightarrow> (h, StartRtuMasterThread, c) \<in> started w') (masterThreads m) (masterConfHead m)) w
   \<and> (\<forall>(dev, xs) \<in> set (List.map_filter id rs). \<forall>v0 k v.
        thread_reach (startTcpMasterThread D E (master_of (dev, xs))) TM_start v0 (TM_loop k) v
        \<or> thread_reach (startRtuMasterThread E (master_of (dev, xs))) RM_wait v0 (RM_loop k) v \<longrightarrow>
        scheduler_ok (eventList k) \<and> mset (map ptModbusAction (eventList k)) = mset (map entry_action xs))"
proof -
  note run = configured_masters_started [OF assms(1-9)]
  have "scheduler_ok (eventList k) \<and> mset (map ptModbusAction (eventList k)) = mset (map entry_action xs)"
    if "(dev, xs) \<in> set (List.map_filter id rs)"
      "thread_reach (startTcpMasterThread D E (master_of (dev, xs))) TM_start v0 (TM_loop k) v
       \<or> thread_reach (startRtuMasterThread E (master_of (dev, xs))) RM_wait v0 (RM_loop k) v" for dev xs v0 k v
  proof -
    have "master_in_range J (master_of (dev, xs))"
      using run [of freed] that(1) by (auto simp: wp_iff)
    with that(2) have "master_ok (master_of (dev, xs)) k"
      using parsed_tcp_master [OF _ assms(10)] parsed_rtu_master [OF _ assms(10)] by blast
    then show ?thesis
      by (simp add: master_ok_def master_of_def)
  qed
  moreover have "wp (piModbusMaster E F J P (Master_parse freed)) (\<lambda>p w'. \<exists>m. p = Master_wait m
     \<and> masterConfHead m = rev (map master_of (List.map_filter id rs))
     \<and> list_all2 (\<lambda>h c. case uProt (masterDeviceConfig c) of
           tTcpConfig _ \<Rightarrow> (h, StartTcpMasterThread, c) \<in> started w'
         | tRtuConfig _ \<Rightarrow> (h, StartRtuMasterThread, c) \<in> started w') (masterThreads m) (masterConfHead m)) w"
    by (rule wp_mono [OF run])
       (auto simp: served_def master_in_range_def device_in_range_def master_routine_def
         elim!: list.rel_mono_strong split: UProt.splits)
  ultimately show ?thesis by blast
qed

theorem configured_actions_scheduled_witness:
  "\<exists>m w k v. piModbusMaster rich_env demo_stdio (doc_jsonc demo_masters) cluster_threads (Master_parse []) cluster0
       = (Ret (Master_wait m), w)
     \<and> masterConfHead m = [demo_parsed_master]
     \<and> (\<exists>h. masterThreads m = [h] \<and> (h, StartTcpMasterThread, demo_parsed_master) \<in> set (k_threads w))
     \<and> thread_reach (startTcpMasterThread exact_ops rich_env demo_parsed_master) TM_start
       (cluster0 :: TModbusMasterConfiguration cluster) (TM_loop k) v
     \<and> map ptModbusAction (eventList k) = [entry_action (demo_entry ''_1_'' demo_text)]"
proof -
  have limit: "2 ^ 32 \<le> Suc (ULONG_MAX (doc_jsonc demo_masters))"
    by simp
  obtain k v where loop: "thread_reach (startTcpMasterThread exact_ops rich_env demo_parsed_master) TM_start
      (cluster0 :: TModbusMasterConfiguration cluster) (TM_loop k) v"
    using demo_tcp_loop by blast
  note run = configured_actions_scheduled [OF rich_laws(3,1,2) limit demo_read_config demo_masters_read
      cluster_thread_laws cluster_creation_succeeds rich_clock, of "[]" cluster0 exact_ops]
  have "mset (map ptModbusAction (eventList k)) = {#entry_action (demo_entry ''_1_'' demo_text)#}"
    using run loop by (auto simp: List.map_filter_simps demo_master_of)
  then have "map ptModbusAction (eventList k) = [entry_action (demo_entry ''_1_'' demo_text)]"
    by (simp only: mset_single_iff)
  moreover obtain m w h where "piModbusMaster rich_env demo_stdio (doc_jsonc demo_masters) cluster_threads (Master_parse []) cluster0
       = (Ret (Master_wait m), w)" "masterConfHead m = [demo_parsed_master]"
      "masterThreads m = [h]" "(h, StartTcpMasterThread, demo_parsed_master) \<in> set (k_threads w)"
    using conjunct1 [OF run]
    by (auto simp: List.map_filter_simps demo_master_of wp_iff list_all2_Cons2 demo_parsed_master_def)
  ultimately show ?thesis
    using loop by (intro exI conjI)
qed

text \<open>
  C20: The mapping that the slave threads allocate for a parsed configuration covers exactly the area
  of the process image that the parser has computed, as long as that area has at most 131070 bytes:
  no coils, no discrete inputs, and registers whose bytes are the bytes of the area.
\<close>

theorem parsed_slave_mapping:
  assumes "parse_modbus_slave_device_process_image_config J pi_device dev = Ret (Inr cfg)"
    and "new_mapping_laws E" "new_mapping E cfg w = (Ret (Some mapping), w')"
    and "unat (u32HoldingRegistersLength (tProcessImageConfig cfg)) < 2 ^ 17"
    and "unat (u32InputRegistersLength (tProcessImageConfig cfg)) < 2 ^ 17"
  shows "mapping_ok mapping \<and> tab_bits mapping = [] \<and> tab_input_bits mapping = []
     \<and> registers_length (nb_registers mapping) = u32HoldingRegistersLength (tProcessImageConfig cfg)
     \<and> registers_length (nb_input_registers mapping) = u32InputRegistersLength (tProcessImageConfig cfg)"
proof -
  have assert: "assertO b = Ret u \<longleftrightarrow> b" for b u
    by (simp add: assertO_def)
  obtain i out where c: "cfg = slave_configuration dev (word_of_int (get_process_image_device_offset J pi_device))
        (section_area i) (section_area out)" "even (snd (section_area i))" "even (snd (section_area out))"
    using assms(1)
    by (auto simp: parse_modbus_slave_device_process_image_config_def obind_Ret_iff assert Let_def
        simp flip: even_iff_mod_2_eq_zero split: if_splits option.splits)
  define off inp out' where "off = (word_of_int (get_process_image_device_offset J pi_device) :: u32)"
    and "inp = section_area i" and "out' = section_area out"
  have cfg: "cfg = slave_configuration dev off inp out'" "even (snd inp)" "even (snd out')"
    using c by (simp_all add: off_def inp_def out'_def)
  have half: "2 * unat (ucast (v div 2) :: u16) = unat v" if "even v" "unat v < 2 ^ 17" for v :: u32
  proof -
    have "bit (unat v) 0 = bit v 0"
      by (simp only: bit_unsigned_iff) simp
    then have "even (unat v)"
      using that(1) by (simp add: bit_0)
    moreover have "unat (ucast (v div 2) :: u16) = unat v div 2"
      using that(2) by (simp add: unsigned_ucast_eq unat_div take_bit_nat_eq_self)
    ultimately show ?thesis by simp
  qed
  have new: "modbus_mapping_new E (uint (u16Coils (tModbusDataConfig cfg))) (uint (u16DiscreteInputs (tModbusDataConfig cfg)))
      (uint (u16HoldingRegisters (tModbusDataConfig cfg))) (uint (u16InputRegisters (tModbusDataConfig cfg))) w = (Some mapping, w')"
    using assms(3) by (auto simp: new_mapping_def run_simps split: prod.splits)
  then have m: "mapping_ok mapping" "length (tab_bits mapping) = unat (u16Coils (tModbusDataConfig cfg))"
      "length (tab_input_bits mapping) = unat (u16DiscreteInputs (tModbusDataConfig cfg))"
      "length (tab_registers mapping) = unat (u16HoldingRegisters (tModbusDataConfig cfg))"
      "length (tab_input_registers mapping) = unat (u16InputRegisters (tModbusDataConfig cfg))"
    using assms(2) [unfolded new_mapping_laws_def, rule_format, of "tModbusDataConfig cfg" w] unfolding new by simp_all
  have "unat (registers_length (nb_registers mapping)) = unat (snd inp)"
    "unat (registers_length (nb_input_registers mapping)) = unat (snd out')"
    using mapping_lengths(3,4) [OF m(1)] m(4,5) half [OF cfg(2)] half [OF cfg(3)] assms(4,5)
    by (simp_all add: cfg(1) slave_configuration_def)
  then show ?thesis
    using m by (simp add: cfg(1) slave_configuration_def unsigned_word_eqI)
qed

theorem parsed_slave_mapping_witness:
  "\<exists>cfg mapping. parse_modbus_slave_device_process_image_config (doc_jsonc (JObject [])) demo_slave_device
       (masterDeviceConfig demo_parsed_master) = Ret (Inr cfg)
     \<and> new_mapping plant_env cfg plant0 = (Ret (Some mapping), plant0)
     \<and> tab_bits mapping = [] \<and> registers_length (nb_registers mapping) = 4"
proof -
  let ?cfg = "slave_configuration (masterDeviceConfig demo_parsed_master) 11 (0, 4) (4, 4)"
  obtain mapping where new: "new_mapping plant_env ?cfg plant0 = (Ret (Some mapping), plant0)"
    by (simp add: new_mapping_def run_simps plant_env_def)
  show ?thesis
    using parsed_slave_mapping [OF demo_slave_image plant_new_mapping new] demo_slave_image new
    by (fastforce simp: slave_configuration_def)
qed

end
